(* ===== verification/Ersha_Prelude.thy ===== *)
theory Ersha_Prelude
  imports Complex_Main "HOL-Library.Word" "HOL-Library.AList" "HOL-Library.Multiset"
begin

text \<open>
  Shared vocabulary of the development: Rust's fixed-width integers as words, \<open>Result\<close>
  as a sum type, \<open>HashMap\<close> as an association list with distinct keys, and the generic
  lemmas on lists and maps that the component theories use.

  The iteration order of a Rust \<open>HashMap\<close> is unspecified.  Every operation of the model
  that iterates over a map takes the order as an argument of type \<open>('k, 'v) hash_order\<close>, the
  type of all functions that list the entries of a map, each once.  A theorem about such an
  operation therefore holds for every iteration order.
\<close>

named_theorems hm_simps \<open>rewrite rules for lookups in hash maps\<close>

named_theorems hm_wf_intros \<open>preservation of the distinct-keys invariant of hash maps\<close>

subsection \<open>Machine integers and results\<close>

type_synonym u8 = "8 word"
type_synonym u16 = "16 word"
type_synonym u32 = "32 word"
type_synonym u64 = "64 word"
type_synonym u128 = "128 word"
type_synonym i16 = "16 word"  \<comment> \<open>read through \<open>sint\<close>\<close>

type_synonym ('a, 'e) result = "'e + 'a"  \<comment> \<open>\<open>Inl\<close> is Rust's \<open>Err\<close>, \<open>Inr\<close> its \<open>Ok\<close>\<close>

type_synonym bytes = "u8 list"

abbreviation Err :: "'e \<Rightarrow> ('a, 'e) result" where
  "Err \<equiv> Inl"

abbreviation Ok :: "'a \<Rightarrow> ('a, 'e) result" where
  "Ok \<equiv> Inr"

text \<open>The integer cast \<open>n as u32\<close> of a \<open>usize\<close>, which keeps the low 32 bits.\<close>

definition usize_as_u32 :: "nat \<Rightarrow> u32" where
  "usize_as_u32 n = of_nat n"

lemma unat_usize_as_u32: "unat (usize_as_u32 n) = n mod 2 ^ 32"
  by (simp add: usize_as_u32_def unat_of_nat)

lemma unat_usize_as_u32_small [simp]: "n < 2 ^ 32 \<Longrightarrow> unat (usize_as_u32 n) = n"
  by (simp add: unat_usize_as_u32)

subsection \<open>Big-endian byte strings\<close>

text \<open>\<open>be_bytes k n\<close> are the \<open>k\<close> low bytes of \<open>n\<close>, most significant first; \<open>be_value\<close> reads them.\<close>

fun be_bytes :: "nat \<Rightarrow> nat \<Rightarrow> bytes" where
  "be_bytes 0 n = []"
| "be_bytes (Suc k) n = be_bytes k (n div 256) @ [of_nat n]"

definition be_value :: "bytes \<Rightarrow> nat" where
  "be_value bs = foldl (\<lambda>a b. a * 256 + unat b) 0 bs"

lemma length_be_bytes [simp]: "length (be_bytes k n) = k"
  by (induction k arbitrary: n) simp_all

lemma be_bytes_numeral:
  "be_bytes (numeral k) n = be_bytes (pred_numeral k) (n div 256) @ [of_nat n]"
  by (subst numeral_eq_Suc [of k]) (rule be_bytes.simps)

lemma be_value_snoc: "be_value (bs @ [b]) = be_value bs * 256 + unat b"
  by (simp add: be_value_def)

lemma be_value_be_bytes: "be_value (be_bytes k n) = n mod 256 ^ k"
proof (induction k arbitrary: n)
  case 0
  then show ?case by (simp add: be_value_def)
next
  case (Suc k)
  have "n mod 256 ^ Suc k = n div 256 mod 256 ^ k * 256 + n mod 256"
    by (simp add: mod_mult2_eq mult.commute)
  with Suc show ?case by (simp add: be_value_snoc unat_of_nat)
qed

lemma be_value_bound: "be_value bs < 256 ^ length bs"
proof (induction bs rule: rev_induct)
  case Nil
  then show ?case by (simp add: be_value_def)
next
  case (snoc b bs)
  have "unat b < 2 ^ LENGTH(8)" by (rule unsigned_less)
  then have "unat b < 256" by simp
  with snoc show ?case by (simp add: be_value_snoc)
qed

subsection \<open>Hash maps\<close>

type_synonym ('k, 'v) hashmap = "('k \<times> 'v) list"

typedef ('k, 'v) hash_order =
    "{f :: ('k, 'v) hashmap \<Rightarrow> ('k \<times> 'v) list. \<forall>m. mset (f m) = mset m}"
  morphisms iterate Abs_hash_order
  by (rule exI [of _ id]) simp

setup_lifting type_definition_hash_order

text \<open>Two iteration orders, for concrete runs: the list's own order and its reverse.\<close>

lift_definition forward_order :: "('k, 'v) hash_order" is "\<lambda>m. m"
  by simp

lift_definition backward_order :: "('k, 'v) hash_order" is rev
  by simp

definition hm_wf :: "('k, 'v) hashmap \<Rightarrow> bool" where
  "hm_wf m \<longleftrightarrow> distinct (map fst m)"

definition hm_get :: "('k, 'v) hashmap \<Rightarrow> 'k \<Rightarrow> 'v option" where
  "hm_get m k = map_of m k"

definition hm_insert :: "'k \<Rightarrow> 'v \<Rightarrow> ('k, 'v) hashmap \<Rightarrow> ('k, 'v) hashmap" where
  "hm_insert k v m = AList.update k v m"

definition hm_remove :: "'k \<Rightarrow> ('k, 'v) hashmap \<Rightarrow> ('k, 'v) hashmap" where
  "hm_remove k m = AList.delete k m"

definition hm_values :: "('k, 'v) hash_order \<Rightarrow> ('k, 'v) hashmap \<Rightarrow> 'v list" where
  "hm_values ord m = map snd (iterate ord m)"

lemma iterate_forward [simp, code]: "iterate forward_order m = m"
  by transfer simp

lemma iterate_backward [simp, code]: "iterate backward_order m = rev m"
  by transfer simp

lemma mset_iterate [simp]: "mset (iterate ord m) = mset m"
  using iterate [of ord] by simp

lemma set_iterate [simp]: "set (iterate ord m) = set m"
  by (metis mset_iterate set_mset_mset)

lemma length_iterate [simp]: "length (iterate ord m) = length m"
  by (metis mset_iterate size_mset)

lemma hm_wf_Nil [simp, hm_wf_intros]: "hm_wf []"
  by (simp add: hm_wf_def)

lemma hm_get_Nil [simp]: "hm_get [] k = None"
  by (simp add: hm_get_def)

lemma hm_get_insert [hm_simps]:
  "hm_get (hm_insert k v m) k' = (if k' = k then Some v else hm_get m k')"
  by (simp add: hm_get_def hm_insert_def update_conv')

lemma hm_get_remove [hm_simps]:
  "hm_get (hm_remove k m) k' = (if k' = k then None else hm_get m k')"
  by (simp add: hm_get_def hm_remove_def delete_conv')

lemma hm_wf_insert [simp, hm_wf_intros]: "hm_wf m \<Longrightarrow> hm_wf (hm_insert k v m)"
  by (simp add: hm_wf_def hm_insert_def distinct_update)

lemma hm_wf_remove [simp, hm_wf_intros]: "hm_wf m \<Longrightarrow> hm_wf (hm_remove k m)"
  by (simp add: hm_wf_def hm_remove_def distinct_delete)

lemma hm_get_iff_mem: "hm_wf m \<Longrightarrow> hm_get m k = Some v \<longleftrightarrow> (k, v) \<in> set m"
  by (simp add: hm_get_def hm_wf_def)

lemma hm_get_None_iff: "hm_get m k = None \<longleftrightarrow> k \<notin> fst ` set m"
  by (simp add: hm_get_def map_of_eq_None_iff)

lemma hm_values_mem:
  "hm_wf m \<Longrightarrow> v \<in> set (hm_values ord m) \<longleftrightarrow> (\<exists>k. hm_get m k = Some v)"
  by (force simp: hm_values_def hm_get_iff_mem)

lemma mset_hm_values: "mset (hm_values ord m) = mset (map snd m)"
  by (simp add: hm_values_def)

lemma length_hm_values [simp]: "length (hm_values ord m) = length m"
  by (simp add: hm_values_def)

lemma distinct_hm_values:
  assumes "hm_wf m" and "\<And>k v. hm_get m k = Some v \<Longrightarrow> f v = k"
  shows "distinct (map f (hm_values ord m))"
proof -
  have eq: "map f (map snd m) = map fst m"
    using assms by (auto simp: hm_get_iff_mem)
  have "distinct (map f (map snd m))"
    using assms(1) by (simp only: eq hm_wf_def)
  moreover have "mset (map f (hm_values ord m)) = mset (map f (map snd m))"
    using mset_hm_values [of ord m] by (metis mset_map)
  ultimately show ?thesis
    by (metis mset_eq_imp_distinct_iff)
qed

text \<open>The number of entries of a map is the number of its keys, and of those satisfying a test.\<close>

lemma length_hm: "hm_wf m \<Longrightarrow> length m = card {k. hm_get m k \<noteq> None}"
proof -
  assume wf: "hm_wf m"
  have "{k. hm_get m k \<noteq> None} = set (map fst m)"
    by (auto simp: hm_get_None_iff)
  then show ?thesis
    using wf distinct_card [of "map fst m"] by (simp add: hm_wf_def)
qed

lemma length_filter_hm_values:
  "length (filter P (hm_values ord m)) = length (filter (P \<circ> snd) m)"
  unfolding hm_values_def
  by (metis (no_types, lifting) filter_map length_map mset_filter mset_iterate size_mset)

subsection \<open>Updating and removing entries\<close>

text \<open>An assignment through \<open>get_mut\<close>: the entry is updated if it exists.\<close>

definition hm_modify :: "'k \<Rightarrow> ('v \<Rightarrow> 'v) \<Rightarrow> ('k, 'v) hashmap \<Rightarrow> ('k, 'v) hashmap" where
  "hm_modify k f m = (case hm_get m k of None \<Rightarrow> m | Some v \<Rightarrow> hm_insert k (f v) m)"

lemma hm_get_modify [hm_simps]:
  "hm_get (hm_modify k f m) k' = (if k' = k then map_option f (hm_get m k) else hm_get m k')"
  by (auto simp: hm_modify_def hm_simps split: option.splits)

lemma hm_wf_modify [simp, hm_wf_intros]: "hm_wf m \<Longrightarrow> hm_wf (hm_modify k f m)"
  by (simp add: hm_modify_def split: option.splits)

lemma hm_wf_fold_modify [simp, hm_wf_intros]:
  "hm_wf m \<Longrightarrow> hm_wf (fold (\<lambda>k. hm_modify k f) ks m)"
  by (induction ks arbitrary: m) auto

lemma hm_get_fold_modify [hm_simps]:
  "(\<And>v. f (f v) = f v) \<Longrightarrow>
     hm_get (fold (\<lambda>k. hm_modify k f) ks m) k =
       (if k \<in> set ks then map_option f (hm_get m k) else hm_get m k)"
  by (induction ks arbitrary: m) (auto simp: hm_simps option.map_comp comp_def)

lemma hm_wf_fold_remove [simp, hm_wf_intros]: "hm_wf m \<Longrightarrow> hm_wf (fold hm_remove ks m)"
  by (induction ks arbitrary: m) auto

lemma hm_get_fold_remove [hm_simps]:
  "hm_get (fold hm_remove ks m) k = (if k \<in> set ks then None else hm_get m k)"
  by (induction ks arbitrary: m) (auto simp: hm_simps)

subsection \<open>Folding insertions into a map\<close>

lemma hm_wf_fold_insert [hm_wf_intros]:
  "hm_wf m \<Longrightarrow> hm_wf (fold (\<lambda>x. hm_insert (f x) (g x)) xs m)"
  by (induction xs arbitrary: m) auto

lemma hm_get_fold_insert_notin [hm_simps]:
  "k \<notin> f ` set xs \<Longrightarrow> hm_get (fold (\<lambda>x. hm_insert (f x) (g x)) xs m) k = hm_get m k"
  by (induction xs arbitrary: m) (auto simp: hm_simps)

lemma hm_get_fold_insert_mem:
  "distinct (map f xs) \<Longrightarrow> x \<in> set xs \<Longrightarrow>
     hm_get (fold (\<lambda>x. hm_insert (f x) (g x)) xs m) (f x) = Some (g x)"
proof (induction xs arbitrary: m)
  case (Cons y ys)
  show ?case
  proof (cases "x = y")
    case True
    with Cons.prems have "f x \<notin> f ` set ys" by auto
    with True show ?thesis by (simp add: hm_simps)
  next
    case False
    with Cons show ?thesis by auto
  qed
qed simp

subsection \<open>Lists\<close>

text \<open>\<open>skip_while\<close>, \<open>skip\<close> and \<open>take\<close> of Rust iterators are the list functions below.\<close>

lemma list_all_True [simp]: "list_all (\<lambda>_. True) xs"
  by (simp add: list_all_iff)

lemma dropWhile_split:
  "dropWhile (\<lambda>x. x \<noteq> a) (xs @ a # ys) = a # ys" if "a \<notin> set xs"
  using that by (induction xs) auto

lemma dropWhile_neq_Nil_iff: "dropWhile P xs = [] \<longleftrightarrow> (\<forall>x \<in> set xs. P x)"
  by (simp add: dropWhile_eq_Nil_conv)

lemma concat_take_drop_pages:
  "take n xs @ take m (drop n xs) = take (n + m) xs"
  by (simp add: take_add)

end
