(* ===== verification/F64.thy ===== *)
theory F64
  imports Ersha_Prelude
begin

text \<open>
  The part of Rust's \<open>f64\<close> the program uses: the casts between small integers and
  \<open>f64\<close>, division by a constant and \<open>NotNan::new\<close>.  A finite binary64 number is its exact
  rational value (so the two zeros, which \<open>==\<close> on \<open>NotNan\<close> identifies, are one value);
  an operation computes the exact result and rounds it to nearest, ties to even.
\<close>

datatype f64 = F64_NaN | F64_Inf (f64_negative: bool) | F64_Fin (f64_val: rat)

subsection \<open>Rounding to binary64\<close>

fun bit_length :: "nat \<Rightarrow> nat" where
  "bit_length n = (if n = 0 then 0 else Suc (bit_length (n div 2)))"

declare bit_length.simps [simp del]

lemma bit_length_0 [simp]: "bit_length 0 = 0"
  by (simp add: bit_length.simps)

lemma bit_length_bounds: "0 < n \<Longrightarrow> 2 ^ (bit_length n - 1) \<le> n \<and> n < 2 ^ bit_length n"
proof (induction n rule: bit_length.induct)
  case (1 n)
  show ?case
  proof (cases "n div 2 = 0")
    case True
    with 1(2) have "n = 1" by simp
    moreover have "bit_length 1 = 1" by (simp add: bit_length.simps)
    ultimately show ?thesis by simp
  next
    case False
    with 1 have IH: "2 ^ (bit_length (n div 2) - 1) \<le> n div 2" "n div 2 < 2 ^ bit_length (n div 2)"
      by auto
    have "bit_length (n div 2) \<noteq> 0"
      using False IH(2) by (metis less_one power_0)
    then obtain k where k: "bit_length (n div 2) = Suc k"
      by (auto simp: gr0_conv_Suc)
    have "bit_length n = Suc (Suc k)"
      using 1(2) k by (simp add: bit_length.simps [of n])
    moreover have "2 ^ k \<le> n div 2" "n div 2 < 2 * 2 ^ k"
      using IH k by simp_all
    then have "2 * 2 ^ k \<le> n" "n < 4 * 2 ^ k"
      by linarith+
    ultimately show ?thesis by simp
  qed
qed

definition floor_log2 :: "rat \<Rightarrow> int" where
  "floor_log2 r =
     (let (n, d) = quotient_of r;
          k = int (bit_length (nat n)) - int (bit_length (nat d))
      in if 2 powi k \<le> r then k else k - 1)"

definition round_half_even :: "rat \<Rightarrow> int" where
  "round_half_even x =
     (let f = \<lfloor>x\<rfloor>; frac = x - of_int f
      in if frac < 1 / 2 then f
         else if 1 / 2 < frac then f + 1
         else if even f then f else f + 1)"

definition f64_ulp :: "rat \<Rightarrow> rat" where
  "f64_ulp r = 2 powi (max (floor_log2 \<bar>r\<bar>) (-1022) - 52)"

definition f64_round :: "rat \<Rightarrow> f64" where
  "f64_round r =
     (if r = 0 then F64_Fin 0
      else let q = of_int (round_half_even (r / f64_ulp r)) * f64_ulp r
           in if 2 ^ 1024 \<le> \<bar>q\<bar> then F64_Inf (r < 0) else F64_Fin q)"

subsection \<open>The operations of the source\<close>

definition int_as_f64 :: "int \<Rightarrow> f64" where
  "int_as_f64 i = f64_round (of_int i)"

fun f64_div_const :: "f64 \<Rightarrow> rat \<Rightarrow> f64" where
  "f64_div_const F64_NaN c = F64_NaN"
| "f64_div_const (F64_Inf neg) c = F64_Inf (neg \<noteq> (c < 0))"
| "f64_div_const (F64_Fin a) c = f64_round (a / c)"

fun f64_as_u8 :: "f64 \<Rightarrow> u8" where
  "f64_as_u8 F64_NaN = 0"
| "f64_as_u8 (F64_Inf neg) = (if neg then 0 else 255)"
| "f64_as_u8 (F64_Fin r) =
     word_of_int (max 0 (min 255 (if 0 \<le> r then \<lfloor>r\<rfloor> else \<lceil>r\<rceil>)))"

text \<open>\<open>NotNan::new\<close>: \<open>None\<close> is its error, on which the source's \<open>unwrap\<close> panics.\<close>

definition NotNan_new :: "f64 \<Rightarrow> f64 option" where
  "NotNan_new x = (if x = F64_NaN then None else Some x)"

subsection \<open>Accuracy of the rounding\<close>

lemma two_powi_less_iff: "(2::rat) powi a < 2 powi b \<longleftrightarrow> a < b"
proof
  assume "(2::rat) powi a < 2 powi b"
  then show "a < b"
    using power_int_increasing [of b a "2::rat"] by fastforce
next
  assume "a < b"
  then show "(2::rat) powi a < 2 powi b"
    by (rule power_int_strict_increasing) simp
qed

lemma bit_length_powi_bounds:
  assumes "0 < m"
  shows "(2::rat) powi (int (bit_length (nat m)) - 1) \<le> of_int m \<and>
    (of_int m :: rat) < 2 powi int (bit_length (nat m))"
proof -
  define c where "c = bit_length (nat m)"
  have c: "2 ^ (c - 1) \<le> nat m" "nat m < 2 ^ c"
    using bit_length_bounds [of "nat m"] assms by (auto simp: c_def)
  then have "c \<noteq> 0"
    using assms by (auto intro!: gr0I)
  then have "(2::rat) powi (int c - 1) = of_nat (2 ^ (c - 1))"
    by (simp add: power_int_def nat_diff_distrib)
  moreover have "(of_int m :: rat) = of_nat (nat m)" and "(2::rat) powi int c = of_nat (2 ^ c)"
    using assms by simp_all
  ultimately show ?thesis
    using c unfolding c_def by (metis of_nat_le_iff of_nat_less_iff)
qed

lemma floor_log2_bounds:
  assumes "0 < r"
  shows "2 powi floor_log2 r \<le> r \<and> r < 2 powi (floor_log2 r + 1)"
proof -
  obtain n d where nd: "quotient_of r = (n, d)" by force
  then have r: "r = of_int n / of_int d" and d: "0 < d"
    by (auto simp: quotient_of_div quotient_of_denom_pos)
  with assms have n: "0 < n"
    by (simp add: zero_less_divide_iff)
  define a where "a = bit_length (nat n)"
  define b where "b = bit_length (nat d)"
  have rn: "(2::rat) powi (int a - 1) \<le> of_int n" "(of_int n :: rat) < 2 powi int a"
    and rd: "(2::rat) powi (int b - 1) \<le> of_int d" "(of_int d :: rat) < 2 powi int b"
    using bit_length_powi_bounds [OF n] bit_length_powi_bounds [OF d] by (auto simp: a_def b_def)
  define k where "k = int a - int b"
  have dpos: "(0::rat) < of_int d" using d by simp
  have "(2::rat) powi (k - 1) * of_int d \<le> 2 powi (k - 1) * 2 powi int b"
    using rd by (intro mult_left_mono) auto
  also have "\<dots> = 2 powi (int a - 1)"
    using power_int_add [of "2::rat" "k - 1" "int b"] by (simp add: k_def)
  also have "\<dots> \<le> of_int n" using rn by simp
  finally have lo: "2 powi (k - 1) \<le> r"
    using dpos by (simp add: r pos_le_divide_eq)
  have "(of_int n :: rat) < 2 powi int a" using rn by simp
  also have "\<dots> = 2 powi (k + 1) * 2 powi (int b - 1)"
    using power_int_add [of "2::rat" "k + 1" "int b - 1"] by (simp add: k_def)
  also have "\<dots> \<le> 2 powi (k + 1) * of_int d"
    using rd by (intro mult_left_mono) auto
  finally have hi: "r < 2 powi (k + 1)"
    using dpos by (simp add: r pos_divide_less_eq)
  have "floor_log2 r = (if 2 powi k \<le> r then k else k - 1)"
    by (simp add: floor_log2_def nd a_def b_def k_def)
  with lo hi show ?thesis by auto
qed

lemma round_half_even_error: "\<bar>of_int (round_half_even x) - x\<bar> \<le> 1 / 2"
proof -
  have "of_int \<lfloor>x\<rfloor> \<le> x" "x < of_int \<lfloor>x\<rfloor> + 1" by linarith+
  then show ?thesis
    by (auto simp: round_half_even_def Let_def abs_le_iff)
qed

lemma round_half_even_of_int [simp]: "round_half_even (of_int i) = i"
  by (simp add: round_half_even_def)

lemma f64_ulp_pos: "0 < f64_ulp r"
  by (simp add: f64_ulp_def)

text \<open>Half a unit in the last place bounds the rounding error of a number below \<open>2 ^ k\<close>.\<close>

lemma f64_ulp_le:
  assumes "r \<noteq> 0" and "\<bar>r\<bar> < 2 ^ k"
  shows "f64_ulp r \<le> 2 powi (int k - 53)"
proof -
  have "2 powi floor_log2 \<bar>r\<bar> < (2::rat) powi int k"
    using floor_log2_bounds [of "\<bar>r\<bar>"] assms by simp
  then have "floor_log2 \<bar>r\<bar> < int k"
    by (simp only: two_powi_less_iff)
  then have "max (floor_log2 \<bar>r\<bar>) (-1022) - 52 \<le> int k - 53"
    by simp
  then show ?thesis
    unfolding f64_ulp_def by (intro power_int_increasing) auto
qed

lemma f64_round_error:
  assumes "\<bar>r\<bar> < 2 ^ k" and "k \<le> 1000"
  obtains q where "f64_round r = F64_Fin q" and "\<bar>q - r\<bar> \<le> 2 powi (int k - 54)"
proof (cases "r = 0")
  case True
  then show ?thesis by (intro that [of 0]) (auto simp: f64_round_def)
next
  case False
  define u where "u = f64_ulp r"
  define q where "q = of_int (round_half_even (r / u)) * u"
  have u: "0 < u" "u \<le> 2 powi (int k - 53)"
    using f64_ulp_pos f64_ulp_le [OF False assms(1)] by (simp_all add: u_def)
  have "\<bar>q - r\<bar> = \<bar>of_int (round_half_even (r / u)) - r / u\<bar> * u"
    using u(1) by (simp add: q_def abs_mult_pos left_diff_distrib)
  also have "\<dots> \<le> 1 / 2 * u"
    using u(1) by (intro mult_right_mono round_half_even_error) auto
  also have "\<dots> \<le> 1 / 2 * 2 powi (int k - 53)"
    using u(2) by simp
  also have "\<dots> = 2 powi (int k - 54)"
    using power_int_add [of "2::rat" "-1" "int k - 53"] by (simp add: power_int_minus)
  finally have err: "\<bar>q - r\<bar> \<le> 2 powi (int k - 54)" .
  have "(2::rat) powi (int k - 54) \<le> 2 powi int k"
    by (intro power_int_increasing) auto
  with err assms(1) have "\<bar>q\<bar> < 2 * 2 ^ k" by simp
  also have "\<dots> = 2 ^ Suc k" by simp
  also have "\<dots> \<le> (2::rat) ^ 1024"
    using assms(2) by (intro power_increasing) auto
  finally have "f64_round r = F64_Fin q"
    using False by (simp add: f64_round_def Let_def q_def u_def)
  with err show ?thesis by (intro that)
qed

text \<open>Integers of up to 53 bits are exact.\<close>

lemma int_as_f64_exact:
  assumes "\<bar>i\<bar> < 2 ^ 53"
  shows "int_as_f64 i = F64_Fin (of_int i)"
proof (cases "i = 0")
  case True
  then show ?thesis by (simp add: int_as_f64_def f64_round_def)
next
  case False
  define u where "u = f64_ulp (of_int i :: rat)"
  have i1: "(1::rat) \<le> \<bar>of_int i\<bar>" and i2: "\<bar>of_int i\<bar> < (2::rat) ^ 53"
  proof -
    have "1 \<le> \<bar>i\<bar>" using False by simp
    then have "(of_int 1 :: rat) \<le> of_int \<bar>i\<bar>" by (simp only: of_int_le_iff)
    then show "(1::rat) \<le> \<bar>of_int i\<bar>" by simp
    have "(of_int \<bar>i\<bar> :: rat) < of_int (2 ^ 53)" using assms by (simp only: of_int_less_iff)
    then show "\<bar>of_int i\<bar> < (2::rat) ^ 53" by simp
  qed
  define e where "e = floor_log2 \<bar>of_int i\<bar>"
  have eb: "2 powi e \<le> \<bar>of_int i :: rat\<bar>" "\<bar>of_int i :: rat\<bar> < 2 powi (e + 1)"
    using floor_log2_bounds [of "\<bar>of_int i\<bar>"] False by (simp_all add: e_def)
  have "2 powi e < (2::rat) powi 53" "(2::rat) powi 0 < 2 powi (e + 1)"
    using le_less_trans [OF eb(1) i2] le_less_trans [OF i1 eb(2)] by simp_all
  then have "e < 53" "0 < e + 1"
    by (simp_all only: two_powi_less_iff)
  then have "u = 2 powi (e - 52)" and "0 \<le> 52 - e"
    by (simp_all add: u_def f64_ulp_def e_def)
  then have "of_int i / u = of_int (i * 2 ^ nat (52 - e))"
    using power_int_minus [of "2::rat" "52 - e"] by (simp add: power_int_def divide_inverse)
  then have "of_int (round_half_even (of_int i / u)) * u = (of_int i :: rat)"
    using f64_ulp_pos [of "of_int i"] by (metis nonzero_eq_divide_eq order_less_irrefl round_half_even_of_int u_def)
  moreover have "\<bar>of_int i\<bar> < (2::rat) ^ 1024"
    using i2 power_increasing [of 53 1024 "2::rat"] by linarith
  ultimately show ?thesis
    using False by (simp add: int_as_f64_def f64_round_def Let_def u_def)
qed

text \<open>The database column of a percentage is an \<open>f64\<close>; the casts there and back are inverse.\<close>

lemma f64_as_u8_int_as_f64 [simp]: "f64_as_u8 (int_as_f64 (uint (p :: u8))) = p"
proof -
  have "uint p < 256" "0 \<le> uint p"
    using uint_lt2p [of p] by simp_all
  then have "int_as_f64 (uint p) = F64_Fin (of_int (uint p))"
    by (simp add: int_as_f64_exact del: of_int_uint)
  then have "f64_as_u8 (int_as_f64 (uint p)) = word_of_int (max 0 (min 255 (uint p)))"
    by (simp del: of_int_uint)
  with \<open>uint p < 256\<close> show ?thesis by simp
qed

end
