(* ===== verification/Core_Types.thy ===== *)
theory Core_Types
  imports F64
begin

text \<open>
  The domain types of \<open>ersha-core/src/lib.rs\<close>.  A newtype is a datatype with one
  constructor of the same name, a struct is a record whose fields carry a short prefix (record
  fields are global names), an enum is a datatype with the source's variants.

  A \<open>Ulid\<close> wraps a \<open>u128\<close>; a \<open>jiff::Timestamp\<close> is an instant counted in
  nanoseconds since the Unix epoch; a string is its sequence of UTF-8 bytes.
\<close>

type_synonym ulid = u128
type_synonym timestamp = int

datatype DeviceId = DeviceId (device_ulid: ulid)
datatype ReadingId = ReadingId (reading_ulid: ulid)
datatype StatusId = StatusId (status_ulid: ulid)
datatype DispatcherId = DispatcherId (dispatcher_ulid: ulid)
datatype BatchId = BatchId (batch_ulid: ulid)
datatype SensorId = SensorId (sensor_ulid: ulid)
datatype H3Cell = H3Cell (h3_index: u64)
datatype Percentage = Percentage (percent: u8)

text \<open>Identifiers are ordered by their \<open>Ulid\<close>, as \<open>a.0.cmp(&b.0)\<close> does in the registries.\<close>

instantiation DeviceId :: linorder
begin

definition less_eq_DeviceId :: "DeviceId \<Rightarrow> DeviceId \<Rightarrow> bool" where
  "less_eq_DeviceId a b \<longleftrightarrow> device_ulid a \<le> device_ulid b"

definition less_DeviceId :: "DeviceId \<Rightarrow> DeviceId \<Rightarrow> bool" where
  "less_DeviceId a b \<longleftrightarrow> device_ulid a < device_ulid b"

instance
  by standard (auto simp: less_eq_DeviceId_def less_DeviceId_def DeviceId.expand)

end

instantiation Percentage :: linorder
begin

definition less_eq_Percentage :: "Percentage \<Rightarrow> Percentage \<Rightarrow> bool" where
  "less_eq_Percentage a b \<longleftrightarrow> percent a \<le> percent b"

definition less_Percentage :: "Percentage \<Rightarrow> Percentage \<Rightarrow> bool" where
  "less_Percentage a b \<longleftrightarrow> percent a < percent b"

instance
  by standard (auto simp: less_eq_Percentage_def less_Percentage_def Percentage.expand)

end

subsection \<open>Devices and sensors\<close>

datatype SensorKind = SK_SoilMoisture | SK_SoilTemp | SK_AirTemp | SK_Humidity | SK_Rainfall

datatype SensorMetric =
    SoilMoisture Percentage
  | SoilTemp f64
  | AirTemp f64
  | Humidity Percentage
  | Rainfall f64

datatype MetricUnit = Percent | Celsius | Mm

datatype DeviceKind = DK_Sensor

datatype DeviceState = Device_Active | Device_Suspended

record Sensor =
  sensor_id :: SensorId
  sensor_metric :: SensorMetric
  sensor_kind :: SensorKind

record Device =
  dev_id :: DeviceId
  dev_kind :: DeviceKind
  dev_state :: DeviceState
  dev_location :: H3Cell
  dev_manufacturer :: "string option"
  dev_provisioned_at :: timestamp
  dev_sensors :: "Sensor list"

text \<open>The value of a metric is a \<open>NotNan<f64>\<close>: no metric of a well-typed program holds a NaN.\<close>

fun metric_not_nan :: "SensorMetric \<Rightarrow> bool" where
  "metric_not_nan (SoilTemp v) = (v \<noteq> F64_NaN)"
| "metric_not_nan (AirTemp v) = (v \<noteq> F64_NaN)"
| "metric_not_nan (Rainfall v) = (v \<noteq> F64_NaN)"
| "metric_not_nan _ = True"

subsection \<open>Readings and status reports\<close>

record SensorReading =
  rd_id :: ReadingId
  rd_device_id :: DeviceId
  rd_dispatcher_id :: DispatcherId
  rd_metric :: SensorMetric
  rd_location :: H3Cell
  rd_confidence :: Percentage
  rd_timestamp :: timestamp
  rd_sensor_id :: SensorId

datatype SensorState = Sensor_Active | Sensor_Faulty | Sensor_Inactive

record SensorStatus =
  ss_sensor_id :: SensorId
  ss_state :: SensorState
  ss_last_reading :: "timestamp option"

datatype DeviceErrorCode = LowBattery | SensorFault | RadioFault | UnknownError

record DeviceError =
  de_code :: DeviceErrorCode
  de_message :: "string option"

record DeviceStatus =
  ds_id :: StatusId
  ds_device_id :: DeviceId
  ds_dispatcher_id :: DispatcherId
  ds_battery_percent :: Percentage
  ds_uptime_seconds :: u64
  ds_signal_rssi :: i16
  ds_errors :: "DeviceError list"
  ds_timestamp :: timestamp
  ds_sensor_statuses :: "SensorStatus list"

subsection \<open>Dispatchers\<close>

datatype DispatcherState = Dispatcher_Active | Dispatcher_Suspended

record Dispatcher =
  disp_id :: DispatcherId
  disp_location :: H3Cell
  disp_state :: DispatcherState
  disp_provisioned_at :: timestamp

subsection \<open>Requests and responses between dispatcher and prime\<close>

record BatchUploadRequest =
  bu_id :: BatchId
  bu_dispatcher_id :: DispatcherId
  bu_readings :: "SensorReading list"
  bu_statuses :: "DeviceStatus list"
  bu_timestamp :: timestamp

record BatchUploadResponse =
  br_id :: BatchId
  br_readings_stored :: u32
  br_readings_rejected :: u32
  br_statuses_stored :: u32
  br_statuses_rejected :: u32

record HelloRequest =
  hello_dispatcher_id :: DispatcherId
  hello_location :: H3Cell

datatype HelloRejectionReason = UnknownDispatcher | DispatcherSuspended | InternalError

datatype HelloResponse =
    Accepted DispatcherId
  | Rejected HelloRejectionReason

datatype AlertId = AlertId (alert_ulid: ulid)

datatype AlertSeverity = Critical | Warning | Info

datatype AlertType =
    CriticalBattery
  | SensorFailure
  | DeviceOffline
  | CommunicationError
  | SecurityEvent
  | Custom string

record AlertRequest =
  al_id :: AlertId
  al_dispatcher_id :: DispatcherId
  al_device_id :: "DeviceId option"
  al_severity :: AlertSeverity
  al_type :: AlertType
  al_message :: string
  al_timestamp :: timestamp

record AlertResponse =
  ar_alert_id :: AlertId
  ar_acknowledged :: bool

record DispatcherStatusRequest =
  dsr_dispatcher_id :: DispatcherId
  dsr_connected_devices :: u32
  dsr_uptime_seconds :: u64
  dsr_pending_uploads :: u32
  dsr_timestamp :: timestamp

record DispatcherStatusResponse =
  dsresp_dispatcher_id :: DispatcherId

datatype DisconnectionReason = Timeout | GracefulClose | DisconnectError string | UnknownReason

record DeviceDisconnectionRequest =
  ddr_device_id :: DeviceId
  ddr_dispatcher_id :: DispatcherId
  ddr_timestamp :: timestamp
  ddr_reason :: "DisconnectionReason option"

record DeviceDisconnectionResponse =
  ddresp_device_id :: DeviceId

end
