(* ===== verification/Edge.thy ===== *)
theory Edge
  imports Core_Types "HOL-Library.Sublist"
begin

text \<open>
  The firmware of an edge device (\<open>ersha-edge\<close>): sensor metrics and their calibration
  (\<open>sensor.rs\<close>), the sensor tasks that feed a bounded queue (\<open>lib.rs\<close>), the engine that numbers
  and sends the readings (\<open>engine.rs\<close>), and the Wi-Fi transport (\<open>transport/wifi.rs\<close>).

  The network stack (\<open>embassy_net\<close>) and the codec (\<open>postcard\<close>) are not code of the repository.
  The socket is a set of functions on a socket state, the codec a pair of functions; both are
  arguments of the definitions.
\<close>

subsection \<open>Metrics and calibration (\<open>sensor.rs\<close>)\<close>

datatype SensorError = SensorTimeout | InvalidData

datatype EdgeMetric =
    EdgeSoilMoisture u8
  | EdgeSoilTemp i16
  | EdgeAirTemp i16
  | EdgeHumidity u8
  | EdgeRainfall u16

record SensorConfig =
  cfg_sampling_rate :: nat
  cfg_sensor_id :: ulid

text \<open>
  Rust's \<open>+\<close> on \<open>i16\<close> panics on overflow when the overflow checks are on (debug builds) and
  wraps otherwise; \<open>None\<close> is the panic.
\<close>

definition i16_add :: "bool \<Rightarrow> i16 \<Rightarrow> i16 \<Rightarrow> i16 option" where
  "i16_add checks a b =
     (if checks \<and> \<not> (-32768 \<le> sint a + sint b \<and> sint a + sint b \<le> 32767) then None else Some (a + b))"

definition i16_saturating_add :: "i16 \<Rightarrow> i16 \<Rightarrow> i16" where
  "i16_saturating_add a b = word_of_int (max (-32768) (min 32767 (sint a + sint b)))"

definition i16_clamp :: "int \<Rightarrow> int \<Rightarrow> i16 \<Rightarrow> i16" where
  "i16_clamp lo hi a = word_of_int (max lo (min hi (sint a)))"

definition calibrate :: "bool \<Rightarrow> EdgeMetric \<Rightarrow> i16 \<Rightarrow> EdgeMetric option" where
  "calibrate checks metric offset =
     (case metric of
        EdgeSoilMoisture val \<Rightarrow>
          (case i16_add checks (ucast val) offset of
             None \<Rightarrow> None
           | Some v \<Rightarrow> Some (EdgeSoilMoisture (ucast (i16_clamp 0 100 v))))
      | EdgeHumidity val \<Rightarrow>
          (case i16_add checks (ucast val) offset of
             None \<Rightarrow> None
           | Some v \<Rightarrow> Some (EdgeHumidity (ucast (i16_clamp 0 100 v))))
      | EdgeSoilTemp val \<Rightarrow> Some (EdgeSoilTemp (i16_saturating_add val offset))
      | EdgeAirTemp val \<Rightarrow> Some (EdgeAirTemp (i16_saturating_add val offset))
      | EdgeRainfall val \<Rightarrow>
          (let v = uint val + sint offset  \<comment> \<open>in \<open>i32\<close>, where the sum always fits\<close>
           in Some (EdgeRainfall (word_of_int (max 0 (min 65535 v))))))"

subsection \<open>Packets (\<open>lib.rs\<close>, \<open>transport/mod.rs\<close>)\<close>

record ReadingPacket =
  pkt_device_id :: u128
  pkt_sensor_id :: u128
  pkt_reading_id :: u16
  pkt_metric :: EdgeMetric

record TaggedReading =
  tag_sensor_id :: u128
  tag_metric :: EdgeMetric

datatype EdgeError = UnableToSend | SerializationFailed | ServerNotFound | TooManySensors

definition PACKET_PREAMBLE :: u16 where "PACKET_PREAMBLE = 0xE45A"
definition PROTOCOL_VERSION :: u8 where "PROTOCOL_VERSION = 0x01"
definition MAX_PACKET_SIZE :: nat where "MAX_PACKET_SIZE = 128"
definition PREAMBLE_SIZE :: nat where "PREAMBLE_SIZE = 2"
definition PACKET_HEADER_SIZE :: nat where "PACKET_HEADER_SIZE = 6"
definition MAX_PAYLOAD_SIZE :: nat where
  "MAX_PAYLOAD_SIZE = MAX_PACKET_SIZE - PREAMBLE_SIZE - PACKET_HEADER_SIZE"

datatype MsgType = MsgReading

record Msg =
  msg_preamble :: u16
  msg_version :: u8
  msg_type :: MsgType
  msg_payload :: bytes

subsection \<open>The sensor tasks and the engine (\<open>lib.rs\<close>, \<open>engine.rs\<close>)\<close>

definition READING_QUEUE_DEPTH :: nat where "READING_QUEUE_DEPTH = 16"

text \<open>
  One round of a sensor task: a good sample is offered to the queue and dropped when the queue
  is full; a failed sample is logged.  The second result says whether a sample was dropped.
\<close>

definition sensor_task ::
    "SensorConfig \<Rightarrow> (EdgeMetric, SensorError) result \<Rightarrow> TaggedReading list \<Rightarrow> TaggedReading list \<times> bool"
where
  "sensor_task config sample queue =
     (case sample of
        Inr metric \<Rightarrow>
          (let reading = \<lparr>tag_sensor_id = cfg_sensor_id config, tag_metric = metric\<rparr>
           in if length queue < READING_QUEUE_DEPTH then (queue @ [reading], False)
              else (queue, True))
      | Inl e \<Rightarrow> (queue, False))"

record 't Engine =
  transport :: 't
  engine_device_id :: u128
  reading_seq :: u16

definition Engine_new ::
    "(u64 \<Rightarrow> 't \<Rightarrow> (u128, EdgeError) result \<times> 't) \<Rightarrow> 't \<Rightarrow> u64 \<Rightarrow> ('t Engine, EdgeError) result" where
  "Engine_new provision tr location =
     (case provision location tr of
        (Inl e, _) \<Rightarrow> Err e
      | (Inr device_id, tr') \<Rightarrow> Ok \<lparr>transport = tr', engine_device_id = device_id, reading_seq = 0\<rparr>)"

text \<open>One round of \<open>Engine::run\<close>; it waits while the queue is empty.\<close>

definition engine_round ::
    "(ReadingPacket \<Rightarrow> 't \<Rightarrow> (unit, EdgeError) result \<times> 't) \<Rightarrow> TaggedReading list \<Rightarrow> 't Engine \<Rightarrow>
     (TaggedReading list \<times> 't Engine) option" where
  "engine_round send_reading queue e =
     (case queue of
        [] \<Rightarrow> None
      | reading # rest \<Rightarrow>
          (let packet = \<lparr>pkt_device_id = engine_device_id e, pkt_sensor_id = tag_sensor_id reading,
                         pkt_reading_id = reading_seq e, pkt_metric = tag_metric reading\<rparr>;
               (_, tr') = send_reading packet (transport e)
           in Some (rest, e\<lparr>transport := tr', reading_seq := reading_seq e + 1\<rparr>)))"

subsection \<open>The Wi-Fi transport (\<open>transport/wifi.rs\<close>)\<close>

text \<open>
  The operations of the socket that the source uses: whether it is established, \<open>connect\<close>,
  \<open>write\<close> (the number of bytes taken) and \<open>read\<close> of at most a number of bytes.
\<close>

record 's socket_ops =
  sock_established :: "'s \<Rightarrow> bool"
  sock_connect :: "'s \<Rightarrow> (unit, unit) result \<times> 's"
  sock_write :: "bytes \<Rightarrow> 's \<Rightarrow> (nat, unit) result \<times> 's"
  sock_read :: "nat \<Rightarrow> 's \<Rightarrow> (bytes, unit) result \<times> 's"

record 's Wifi =
  wifi_socket :: 's
  wifi_device_id :: "u128 option"

text \<open>
  The two loops run until the buffer is full or empty.  \<open>None\<close> means that the loop does not end
  (a socket that keeps taking no bytes).
\<close>

partial_function (option) wifi_read_exact ::
    "'s socket_ops \<Rightarrow> nat \<Rightarrow> bytes \<Rightarrow> 's \<Rightarrow> ((bytes, EdgeError) result \<times> 's) option" where
  "wifi_read_exact ops n got s =
     (if n = 0 then Some (Ok got, s)
      else case sock_read ops n s of
        (Inl _, s') \<Rightarrow> Some (Err UnableToSend, s')
      | (Inr bs, s') \<Rightarrow>
          if length bs = 0 then Some (Err ServerNotFound, s')
          else wifi_read_exact ops (n - length bs) (got @ bs) s')"

partial_function (option) wifi_write_all ::
    "'s socket_ops \<Rightarrow> bytes \<Rightarrow> 's \<Rightarrow> ((unit, EdgeError) result \<times> 's) option" where
  "wifi_write_all ops buf s =
     (if buf = [] then Some (Ok (), s)
      else case sock_write ops buf s of
        (Inl _, s') \<Rightarrow> Some (Err UnableToSend, s')
      | (Inr n, s') \<Rightarrow> wifi_write_all ops (drop n buf) s')"

definition hello_magic :: bytes where
  "hello_magic = [0x48, 0x45, 0x4C, 0x4C, 0x4F]"  \<comment> \<open>\<open>b"HELLO"\<close>\<close>

definition provision ::
    "'s socket_ops \<Rightarrow> u64 \<Rightarrow> 's Wifi \<Rightarrow> ((u128, EdgeError) result \<times> 's Wifi) option" where
  "provision ops location w =
     (let (connected, s1) =
        (if sock_established ops (wifi_socket w) then (Ok (), wifi_socket w)
         else sock_connect ops (wifi_socket w))
      in case connected of
           Inl _ \<Rightarrow> Some (Err ServerNotFound, w\<lparr>wifi_socket := s1\<rparr>)
         | Inr _ \<Rightarrow>
             (case sock_write ops hello_magic s1 of
                (Inl _, s2) \<Rightarrow> Some (Err UnableToSend, w\<lparr>wifi_socket := s2\<rparr>)
              | (Inr _, s2) \<Rightarrow>
                  (case sock_write ops (be_bytes 8 (unat location)) s2 of
                     (Inl _, s3) \<Rightarrow> Some (Err UnableToSend, w\<lparr>wifi_socket := s3\<rparr>)
                   | (Inr _, s3) \<Rightarrow>
                       (case wifi_read_exact ops 16 [] s3 of
                          None \<Rightarrow> None
                        | Some (Inl _, s4) \<Rightarrow> Some (Err UnableToSend, w\<lparr>wifi_socket := s4\<rparr>)
                        | Some (Inr buf, s4) \<Rightarrow>
                            (let device = of_nat (be_value buf)
                             in Some (Ok device, w\<lparr>wifi_socket := s4, wifi_device_id := Some device\<rparr>))))))"

text \<open>\<open>postcard::to_slice\<close> fails when the encoding does not fit the buffer given.\<close>

definition to_slice :: "('m \<Rightarrow> (bytes, unit) result) \<Rightarrow> nat \<Rightarrow> 'm \<Rightarrow> (bytes, unit) result" where
  "to_slice encode capacity msg =
     (case encode msg of
        Inl e \<Rightarrow> Err e
      | Inr bs \<Rightarrow> if length bs \<le> capacity then Ok bs else Err ())"

definition frame_reading ::
    "(ReadingPacket \<Rightarrow> (bytes, unit) result) \<Rightarrow> (Msg \<Rightarrow> (bytes, unit) result) \<Rightarrow> ReadingPacket \<Rightarrow>
     (bytes, EdgeError) result" where
  "frame_reading enc_packet enc_msg packet =
     (case to_slice enc_packet MAX_PAYLOAD_SIZE packet of
        Inl _ \<Rightarrow> Err SerializationFailed
      | Inr pl \<Rightarrow>
          (let msg = \<lparr>msg_preamble = PACKET_PREAMBLE, msg_version = PROTOCOL_VERSION,
                      msg_type = MsgReading, msg_payload = pl\<rparr>
           in case to_slice enc_msg MAX_PACKET_SIZE msg of
                Inl _ \<Rightarrow> Err SerializationFailed
              | Inr used \<Rightarrow> Ok used))"

definition send_reading ::
    "(ReadingPacket \<Rightarrow> (bytes, unit) result) \<Rightarrow> (Msg \<Rightarrow> (bytes, unit) result) \<Rightarrow> 's socket_ops \<Rightarrow>
     ReadingPacket \<Rightarrow> 's Wifi \<Rightarrow> ((unit, EdgeError) result \<times> 's Wifi) option" where
  "send_reading enc_packet enc_msg ops packet w =
     (case frame_reading enc_packet enc_msg packet of
        Inl e \<Rightarrow> Some (Err e, w)
      | Inr used \<Rightarrow>
          map_option (\<lambda>(r, s). (r, w\<lparr>wifi_socket := s\<rparr>)) (wifi_write_all ops used (wifi_socket w)))"

subsection \<open>Calibration\<close>

lemma sint_i16_bounds: "-32768 \<le> sint (a :: i16) \<and> sint a \<le> 32767"
  using sint_lt [of a] sint_ge [of a] by simp

lemma sint_word_of_int_i16: "-32768 \<le> i \<Longrightarrow> i \<le> 32767 \<Longrightarrow> sint (word_of_int i :: i16) = i"
  by (simp add: signed_of_int signed_take_bit_int_eq_self)

lemma sint_ucast_u8 [simp]: "sint (ucast (v :: u8) :: i16) = uint v"
proof -
  have "uint v < 256" using uint_lt2p [of v] by simp
  then have "signed_take_bit 15 (uint v) = uint v"
    by (intro signed_take_bit_int_eq_self) (simp_all add: order_trans [of _ 0])
  then show ?thesis by (simp add: sint_uint uint_up_ucast is_up)
qed

lemma sint_i16_sum: "sint (a + b :: i16) = (sint a + sint b + 32768) mod 65536 - 32768"
  by (simp add: sint_word_ariths signed_take_bit_eq_take_bit_shift take_bit_eq_mod)

lemma ucast_u8_of_int: "0 \<le> k \<Longrightarrow> k \<le> 100 \<Longrightarrow> (ucast (word_of_int k :: i16) :: u8) = word_of_int k"
  by (rule word_uint_eqI) (simp add: unsigned_ucast_eq uint_word_of_int take_bit_eq_mod)

lemma sint_percent_sum:
  "sint ((ucast (val :: u8) :: i16) + offset) =
     (if uint val + sint offset \<le> 32767 then uint val + sint offset
      else uint val + sint offset - 65536)"
proof -
  have "(x + y + 32768) mod 65536 - 32768 = (if x + y \<le> 32767 then x + y else x + y - 65536)"
    if "0 \<le> x" "x < 256" "-32768 \<le> y" "y \<le> 32767" for x y :: int
    using that by (auto simp: mod_pos_pos_trivial mod_pos_geq)
  from this [of "uint val" "sint offset"] show ?thesis
    using uint_lt2p [of val] sint_i16_bounds [of offset] by (simp add: sint_i16_sum)
qed

text \<open>
  The two percentages: the exact sum clamped to 0..100 unless the \<open>i16\<close> addition overflows.
\<close>

lemma calibrate_percent:
  "map_option (\<lambda>v. ucast (i16_clamp 0 100 v) :: u8) (i16_add checks (ucast (val :: u8)) offset) =
     (if uint val + sint offset \<le> 32767 then Some (word_of_int (max 0 (min 100 (uint val + sint offset))))
      else if checks then None else Some 0)"
proof -
  have low: "-32768 \<le> uint val + sint offset"
    using uint_ge_0 [of val] sint_i16_bounds [of offset] by linarith
  have high: "uint val + sint offset - 65536 \<le> 0"
    using uint_lt2p [of val] sint_i16_bounds [of offset] by simp
  show ?thesis
    using low high by (auto simp: i16_add_def i16_clamp_def sint_percent_sum ucast_u8_of_int)
qed

subsection \<open>The pipeline from the sensors to the transport\<close>

datatype edge_act = Sample SensorConfig "(EdgeMetric, SensorError) result" | Uplink

text \<open>
  An interleaving of the sensor tasks and the engine.  Beside the queue and the engine it keeps
  the readings put into the queue; the transport keeps the packets handed to it.
\<close>

definition logged :: "('p \<Rightarrow> 't \<Rightarrow> 'r \<times> 't) \<Rightarrow> 'p \<Rightarrow> 't \<times> 'p list \<Rightarrow> 'r \<times> 't \<times> 'p list" where
  "logged send_fn packet tr = (let (r, t) = send_fn packet (fst tr) in (r, t, snd tr @ [packet]))"

record 't edge_run =
  run_queue :: "TaggedReading list"
  run_engine :: "('t \<times> ReadingPacket list) Engine"
  run_accepted :: "TaggedReading list"

fun edge_step ::
    "(ReadingPacket \<Rightarrow> 't \<Rightarrow> (unit, EdgeError) result \<times> 't) \<Rightarrow> edge_act \<Rightarrow> 't edge_run \<Rightarrow> 't edge_run" where
  "edge_step send_fn (Sample config sample) s =
     (let (q, dropped) = sensor_task config sample (run_queue s)
      in s\<lparr>run_queue := q, run_accepted := run_accepted s @ drop (length (run_queue s)) q\<rparr>)"
| "edge_step send_fn Uplink s =
     (case engine_round (logged send_fn) (run_queue s) (run_engine s) of
        None \<Rightarrow> s
      | Some (q, e) \<Rightarrow> s\<lparr>run_queue := q, run_engine := e\<rparr>)"

definition edge_start :: "'t \<Rightarrow> u128 \<Rightarrow> 't edge_run" where
  "edge_start t device =
     \<lparr>run_queue = [],
      run_engine = \<lparr>transport = (t, []), engine_device_id = device, reading_seq = 0\<rparr>,
      run_accepted = []\<rparr>"

fun good_samples :: "edge_act list \<Rightarrow> TaggedReading list" where
  "good_samples [] = []"
| "good_samples (Sample c (Inr m) # acts) =
     \<lparr>tag_sensor_id = cfg_sensor_id c, tag_metric = m\<rparr> # good_samples acts"
| "good_samples (_ # acts) = good_samples acts"

abbreviation uplinked :: "'t edge_run \<Rightarrow> ReadingPacket list" where
  "uplinked s \<equiv> snd (transport (run_engine s))"

definition packet_tag :: "ReadingPacket \<Rightarrow> TaggedReading" where
  "packet_tag p = \<lparr>tag_sensor_id = pkt_sensor_id p, tag_metric = pkt_metric p\<rparr>"

definition edge_inv :: "u128 \<Rightarrow> TaggedReading list \<Rightarrow> 't edge_run \<Rightarrow> bool" where
  "edge_inv device good s \<longleftrightarrow>
     map packet_tag (uplinked s) @ run_queue s = run_accepted s \<and>
     map pkt_reading_id (uplinked s) = map of_nat [0..<length (uplinked s)] \<and>
     reading_seq (run_engine s) = of_nat (length (uplinked s)) \<and>
     engine_device_id (run_engine s) = device \<and>
     (\<forall>p \<in> set (uplinked s). pkt_device_id p = device) \<and>
     length (run_queue s) \<le> READING_QUEUE_DEPTH \<and>
     subseq (run_accepted s) good"

lemma tagged_reading_eta: "\<lparr>tag_sensor_id = tag_sensor_id r, tag_metric = tag_metric r\<rparr> = r"
  by simp

lemma edge_step_inv:
  assumes "edge_inv device good s"
  shows "edge_inv device (good @ good_samples [a]) (edge_step send_fn a s)"
proof (cases a)
  case (Sample c r)
  with assms show ?thesis
    by (cases r) (auto simp: edge_inv_def sensor_task_def Let_def subseq_append' intro: subseq_order.trans)
next
  case Uplink
  with assms show ?thesis
    by (auto simp: edge_inv_def engine_round_def logged_def packet_tag_def tagged_reading_eta Let_def
        split: list.splits prod.splits)
qed

lemma edge_run_inv:
  "edge_inv device good s \<Longrightarrow>
     edge_inv device (good @ good_samples acts) (fold (edge_step send_fn) acts s)"
proof (induction acts arbitrary: good s)
  case (Cons a acts)
  have "good_samples (a # acts) = good_samples [a] @ good_samples acts"
    by (induction "[a]" rule: good_samples.induct) auto
  then show ?case using Cons.IH [OF edge_step_inv [OF Cons.prems]] by simp
qed simp

subsection \<open>The transport over a socket\<close>

text \<open>
  What the source relies on of the socket: a successful write of a non-empty buffer takes at
  least one of its bytes, in order; a read returns the next bytes, at most as many as asked for.
  \<open>wire\<close> is what was sent so far and \<open>incoming\<close> what is still to be read.
\<close>

definition writer_law :: "'s socket_ops \<Rightarrow> ('s \<Rightarrow> bytes) \<Rightarrow> bool" where
  "writer_law ops wire \<longleftrightarrow>
     (\<forall>buf s n s'. buf \<noteq> [] \<and> sock_write ops buf s = (Ok n, s') \<longrightarrow>
        0 < n \<and> n \<le> length buf \<and> wire s' = wire s @ take n buf)"

definition reader_law :: "'s socket_ops \<Rightarrow> ('s \<Rightarrow> bytes) \<Rightarrow> bool" where
  "reader_law ops incoming \<longleftrightarrow>
     (\<forall>n s bs s'. sock_read ops n s = (Ok bs, s') \<longrightarrow>
        length bs \<le> n \<and> incoming s = bs @ incoming s')"

lemma wifi_write_all_total:
  assumes "writer_law ops wire"
  shows "\<exists>r s'. wifi_write_all ops buf s = Some (r, s') \<and> (r = Ok () \<longrightarrow> wire s' = wire s @ buf)"
proof (induction buf arbitrary: s rule: length_induct)
  case (1 buf)
  show ?case
  proof (cases "buf = []")
    case True
    then show ?thesis by (simp add: wifi_write_all.simps)
  next
    case False
    obtain r s1 where w: "sock_write ops buf s = (r, s1)" by fastforce
    show ?thesis
    proof (cases r)
      case (Inl e)
      with w False show ?thesis by (simp add: wifi_write_all.simps [of ops buf])
    next
      case (Inr n)
      with assms w False have n: "0 < n" "n \<le> length buf" "wire s1 = wire s @ take n buf"
        by (auto simp: writer_law_def)
      then have "length (drop n buf) < length buf" using False by simp
      with 1 obtain r' s' where "wifi_write_all ops (drop n buf) s1 = Some (r', s')"
          "r' = Ok () \<longrightarrow> wire s' = wire s1 @ drop n buf"
        by blast
      with w False n Inr show ?thesis by (simp add: wifi_write_all.simps [of ops buf])
    qed
  qed
qed

lemma wifi_read_exact_total:
  assumes "reader_law ops incoming"
  shows "\<exists>r s'. wifi_read_exact ops n got s = Some (r, s') \<and>
    (\<forall>bs. r = Ok bs \<longrightarrow> length bs = length got + n \<and> got @ incoming s = bs @ incoming s')"
proof (induction n arbitrary: got s rule: less_induct)
  case (less n)
  show ?case
  proof (cases "n = 0")
    case True
    then show ?thesis by (simp add: wifi_read_exact.simps)
  next
    case False
    obtain r s1 where rd: "sock_read ops n s = (r, s1)" by fastforce
    show ?thesis
    proof (cases "\<exists>b bs. r = Ok (b # bs)")
      case True
      then obtain bs where r: "r = Ok bs" "bs \<noteq> []" by blast
      with assms rd have bs: "length bs \<le> n" "incoming s = bs @ incoming s1"
        by (auto simp: reader_law_def)
      then have "n - length bs < n" using r False by simp
      from less [OF this, of "got @ bs" s1] rd r False bs show ?thesis
        by (auto simp: wifi_read_exact.simps [of ops n])
    next
      case False
      with rd \<open>n \<noteq> 0\<close> show ?thesis
        by (cases r) (auto simp: wifi_read_exact.simps [of ops n] neq_Nil_conv)
    qed
  qed
qed

subsection \<open>Properties\<close>

text \<open>
  C38.  Calibration on every branch.  Moisture and humidity become the exact sum of value and
  offset clamped to 0..100, except when the sum exceeds 32767: there a build with overflow
  checks panics and one without them reports 0 (where the clamped sum would be 100).
  Temperatures saturate at the bounds of \<open>i16\<close>, and rainfall is clamped to the range of \<open>u16\<close>.
\<close>

theorem calibrate_correct:
  "calibrate checks metric offset =
     (case metric of
        EdgeSoilMoisture val \<Rightarrow>
          if uint val + sint offset \<le> 32767
          then Some (EdgeSoilMoisture (word_of_int (max 0 (min 100 (uint val + sint offset)))))
          else if checks then None else Some (EdgeSoilMoisture 0)
      | EdgeHumidity val \<Rightarrow>
          if uint val + sint offset \<le> 32767
          then Some (EdgeHumidity (word_of_int (max 0 (min 100 (uint val + sint offset)))))
          else if checks then None else Some (EdgeHumidity 0)
      | EdgeSoilTemp val \<Rightarrow>
          Some (EdgeSoilTemp (word_of_int (max (-32768) (min 32767 (sint val + sint offset)))))
      | EdgeAirTemp val \<Rightarrow>
          Some (EdgeAirTemp (word_of_int (max (-32768) (min 32767 (sint val + sint offset)))))
      | EdgeRainfall val \<Rightarrow>
          Some (EdgeRainfall (word_of_int (max 0 (min 65535 (uint val + sint offset))))))"
proof -
  have percent: "(case i16_add checks (ucast val) offset of None \<Rightarrow> None
      | Some v \<Rightarrow> Some (C (ucast (i16_clamp 0 100 v)))) =
    (if uint val + sint offset \<le> 32767 then Some (C (word_of_int (max 0 (min 100 (uint val + sint offset)))))
     else if checks then None else Some (C 0))" for val :: u8 and C :: "u8 \<Rightarrow> EdgeMetric"
    using calibrate_percent [of checks val offset]
    by (cases "i16_add checks (ucast val) offset") (auto split: if_splits)
  show ?thesis
    by (cases metric) (simp_all add: calibrate_def percent i16_saturating_add_def)
qed

text \<open>
  C39.  From the sensors to the uplink.  Over any interleaving of sensor rounds and engine rounds,
  the packets handed to the transport followed by the queue are exactly the readings that were
  put into the queue, in order; those are a subsequence of the good samples; the packets carry
  the device's identifier and are numbered 0, 1, 2, ... modulo 2^16, whether or not sending
  succeeds; and the queue never exceeds its depth of 16.
\<close>

theorem edge_uplink_in_order:
  "let s = fold (edge_step send_fn) acts (edge_start t device)
   in map packet_tag (uplinked s) @ run_queue s = run_accepted s \<and>
      subseq (run_accepted s) (good_samples acts) \<and>
      map pkt_reading_id (uplinked s) = map of_nat [0..<length (uplinked s)] \<and>
      pkt_device_id ` set (uplinked s) \<subseteq> {device} \<and>
      length (run_queue s) \<le> READING_QUEUE_DEPTH"
proof -
  have "edge_inv device [] (edge_start t device)"
    by (simp add: edge_inv_def edge_start_def READING_QUEUE_DEPTH_def)
  from edge_run_inv [OF this, of acts send_fn] show ?thesis
    by (auto simp: edge_inv_def Let_def)
qed

text \<open>
  C40.  Sending a reading ends and sends all of it.  Over a socket whose writes take at least one
  byte each, \<open>send_reading\<close> returns, and when it returns success the whole encoded message, and
  nothing else, has been sent.
\<close>

theorem send_reading_complete:
  assumes "writer_law ops wire" and "frame_reading enc_packet enc_msg packet = Ok used"
  shows "\<exists>r w'. send_reading enc_packet enc_msg ops packet w = Some (r, w') \<and>
    (r = Ok () \<longrightarrow> wire (wifi_socket w') = wire (wifi_socket w) @ used)"
  using wifi_write_all_total [OF assms(1), of used "wifi_socket w"] assms(2)
  by (auto simp: send_reading_def)

text \<open>A socket that takes two bytes at a time; its state is the wire.\<close>

definition trickle_ops :: "bytes socket_ops" where
  "trickle_ops =
     \<lparr>sock_established = (\<lambda>_. True), sock_connect = (\<lambda>s. (Ok (), s)),
      sock_write = (\<lambda>buf s. (Ok (min 2 (length buf)), s @ take (min 2 (length buf)) buf)),
      sock_read = (\<lambda>n s. (Ok [], s))\<rparr>"

lemma trickle_writer_law: "writer_law trickle_ops (\<lambda>s. s)"
  by (auto simp: writer_law_def trickle_ops_def)

definition sample_packet :: ReadingPacket where
  "sample_packet =
     \<lparr>pkt_device_id = 5, pkt_sensor_id = 6, pkt_reading_id = 0, pkt_metric = EdgeHumidity 40\<rparr>"

theorem send_reading_complete_witness:
  "\<exists>w'. send_reading (\<lambda>_. Ok [7]) (\<lambda>m. Ok (1 # 2 # 3 # msg_payload m)) trickle_ops sample_packet
       \<lparr>wifi_socket = [9], wifi_device_id = None\<rparr> = Some (Ok (), w') \<and>
     wifi_socket w' = [9] @ [1, 2, 3, 7]"
proof -
  let ?ep = "\<lambda>_ :: ReadingPacket. Ok [7]" and ?em = "\<lambda>m. Ok (1 # 2 # 3 # msg_payload m)"
  let ?w = "\<lparr>wifi_socket = [9], wifi_device_id = None\<rparr>"
  have frame: "frame_reading ?ep ?em sample_packet = Ok [1, 2, 3, 7]"
    by (simp add: frame_reading_def to_slice_def MAX_PAYLOAD_SIZE_def MAX_PACKET_SIZE_def
        PREAMBLE_SIZE_def PACKET_HEADER_SIZE_def)
  have "fst (the (send_reading ?ep ?em trickle_ops sample_packet ?w)) = Ok ()"
    by (simp add: send_reading_def frame wifi_write_all.simps trickle_ops_def)
  with send_reading_complete [OF trickle_writer_law frame, of ?w] show ?thesis by auto
qed

end
