(* ===== verification/Dispatch_State.thy ===== *)
theory Dispatch_State
  imports Core_Types
begin

text \<open>
  The state shared by the tasks of a dispatcher (\<open>ersha-dispatch/src/state.rs\<close>): the set of
  connected devices and the queue of events for prime.  Every method takes the mutex, so a
  method is one atomic function on the inner state; an interleaving of the tasks is a list of
  such operations (\<open>run_ops\<close>).
\<close>

datatype PrimeEvent =
    DeviceDisconnection DeviceId DisconnectionReason
  | Alert AlertRequest

text \<open>An \<open>Instant\<close> is counted in nanoseconds of the monotonic clock.\<close>

record DispatcherInner =
  connected_devices :: "DeviceId set"
  pending_events :: "PrimeEvent list"
  startup_time :: nat

definition DispatcherState_new :: "nat \<Rightarrow> DispatcherInner" where
  "DispatcherState_new now =
     \<lparr>connected_devices = {}, pending_events = [], startup_time = now\<rparr>"

definition device_connected :: "DeviceId \<Rightarrow> DispatcherInner \<Rightarrow> DispatcherInner" where
  "device_connected d s = s\<lparr>connected_devices := insert d (connected_devices s)\<rparr>"

definition device_disconnected ::
    "DeviceId \<Rightarrow> DisconnectionReason \<Rightarrow> DispatcherInner \<Rightarrow> DispatcherInner" where
  "device_disconnected d reason s =
     s\<lparr>connected_devices := connected_devices s - {d},
       pending_events := pending_events s @ [DeviceDisconnection d reason]\<rparr>"

definition queue_alert :: "AlertRequest \<Rightarrow> DispatcherInner \<Rightarrow> DispatcherInner" where
  "queue_alert a s = s\<lparr>pending_events := pending_events s @ [Alert a]\<rparr>"

definition take_pending_events :: "DispatcherInner \<Rightarrow> PrimeEvent list \<times> DispatcherInner" where
  "take_pending_events s = (pending_events s, s\<lparr>pending_events := []\<rparr>)"

definition connected_count :: "DispatcherInner \<Rightarrow> u32" where
  "connected_count s = usize_as_u32 (card (connected_devices s))"

definition uptime_secs :: "nat \<Rightarrow> DispatcherInner \<Rightarrow> u64" where
  "uptime_secs now s = of_nat ((now - startup_time s) div 1000000000)"

lemmas dispatcher_state_defs =
  DispatcherState_new_def device_connected_def device_disconnected_def queue_alert_def
  take_pending_events_def connected_count_def uptime_secs_def

subsection \<open>Interleavings of the tasks\<close>

datatype state_op =
    Op_connected DeviceId
  | Op_disconnected DeviceId DisconnectionReason
  | Op_alert AlertRequest
  | Op_take

text \<open>A run keeps, beside the state, the events handed out by \<open>take_pending_events\<close> so far.\<close>

fun run_op :: "state_op \<Rightarrow> DispatcherInner \<times> PrimeEvent list \<Rightarrow> DispatcherInner \<times> PrimeEvent list"
where
  "run_op (Op_connected d) (s, out) = (device_connected d s, out)"
| "run_op (Op_disconnected d r) (s, out) = (device_disconnected d r s, out)"
| "run_op (Op_alert a) (s, out) = (queue_alert a s, out)"
| "run_op Op_take (s, out) = (let (evs, s') = take_pending_events s in (s', out @ evs))"

definition run_ops ::
    "state_op list \<Rightarrow> DispatcherInner \<times> PrimeEvent list \<Rightarrow> DispatcherInner \<times> PrimeEvent list" where
  "run_ops = fold run_op"

text \<open>What an operation adds to the queue, and whether a device is connected after a run.\<close>

fun op_event :: "state_op \<Rightarrow> PrimeEvent list" where
  "op_event (Op_disconnected d r) = [DeviceDisconnection d r]"
| "op_event (Op_alert a) = [Alert a]"
| "op_event _ = []"

fun last_seen_connected :: "DeviceId \<Rightarrow> state_op list \<Rightarrow> bool \<Rightarrow> bool" where
  "last_seen_connected d [] c = c"
| "last_seen_connected d (Op_connected d' # ops) c = last_seen_connected d ops (d = d' \<or> c)"
| "last_seen_connected d (Op_disconnected d' r # ops) c = last_seen_connected d ops (c \<and> d \<noteq> d')"
| "last_seen_connected d (_ # ops) c = last_seen_connected d ops c"

lemma run_ops_simps [simp]:
  "run_ops [] so = so"
  "run_ops (oper # ops) so = run_ops ops (run_op oper so)"
  by (simp_all add: run_ops_def)

text \<open>One operation: what it does to the queue, to the connected set and to the start time.\<close>

lemma run_op_events:
  "snd (run_op oper so) @ pending_events (fst (run_op oper so)) =
     snd so @ pending_events (fst so) @ op_event oper"
  by (cases oper; cases so) (auto simp: dispatcher_state_defs)

lemma run_op_frame:
  "finite (connected_devices (fst so)) \<Longrightarrow>
     finite (connected_devices (fst (run_op oper so))) \<and>
     startup_time (fst (run_op oper so)) = startup_time (fst so)"
  by (cases oper; cases so) (auto simp: dispatcher_state_defs)

lemma run_ops_events:
  "snd (run_ops ops so) @ pending_events (fst (run_ops ops so)) =
     snd so @ pending_events (fst so) @ concat (map op_event ops)"
  by (induction ops arbitrary: so) (simp_all add: run_op_events)

lemma run_ops_connected:
  "d \<in> connected_devices (fst (run_ops ops so)) \<longleftrightarrow>
     last_seen_connected d ops (d \<in> connected_devices (fst so))"
proof (induction ops arbitrary: so)
  case (Cons oper ops)
  then show ?case
    by (cases oper; cases so) (simp_all add: dispatcher_state_defs)
qed simp

lemma run_ops_frame:
  "finite (connected_devices (fst so)) \<Longrightarrow>
     finite (connected_devices (fst (run_ops ops so))) \<and>
     startup_time (fst (run_ops ops so)) = startup_time (fst so)"
  by (induction ops arbitrary: so) (simp_all add: run_op_frame)

text \<open>
  The recursive description of a device's state says what one reads off the history: some
  connection of the device has no disconnection after it.
\<close>

lemma split_Cons_iff:
  "(\<exists>before after. x # xs = before @ y # after \<and> P after) \<longleftrightarrow>
     (x = y \<and> P xs) \<or> (\<exists>before after. xs = before @ y # after \<and> P after)"
  by (simp add: Cons_eq_append_conv ex_disj_distrib conj_disj_distribR) blast

lemma last_seen_connected_iff:
  "last_seen_connected d ops c \<longleftrightarrow>
     (\<exists>before after. ops = before @ Op_connected d # after \<and> (\<forall>r. Op_disconnected d r \<notin> set after)) \<or>
     (c \<and> (\<forall>r. Op_disconnected d r \<notin> set ops))"
proof (induction ops arbitrary: c)
  case (Cons oper ops)
  then show ?case
    by (cases oper) (auto simp only: split_Cons_iff last_seen_connected.simps set_simps insert_iff
        state_op.simps simp_thms)
qed simp

subsection \<open>Properties\<close>

text \<open>
  C21.  No event for prime is lost, duplicated or reordered by the shared state: after any
  interleaving of connections, disconnections, alerts and drains, the events handed out by the
  drains followed by those still queued are exactly the disconnections and alerts reported, in
  the order in which they were reported.
\<close>

theorem dispatcher_events_exactly_once:
  "run_ops ops (DispatcherState_new now, []) = (s, out) \<Longrightarrow>
     out @ pending_events s = concat (map op_event ops)"
  using run_ops_events [of ops "(DispatcherState_new now, [])"]
  by (simp add: DispatcherState_new_def)

theorem dispatcher_events_exactly_once_witness:
  "[DeviceDisconnection (DeviceId 1) Timeout] @
     pending_events (DispatcherState_new 0\<lparr>pending_events := [DeviceDisconnection (DeviceId 2) GracefulClose]\<rparr>) =
   concat (map op_event
     [Op_connected (DeviceId 1), Op_disconnected (DeviceId 1) Timeout, Op_take,
      Op_disconnected (DeviceId 2) GracefulClose])"
  by (rule dispatcher_events_exactly_once [where now = 0])
    (simp add: dispatcher_state_defs)

text \<open>
  The connected set is what the history says: a device is in it exactly when some
  connection of it has no later disconnection, and the count reported to prime is the size of
  that set as a \<open>u32\<close>.
\<close>

lemma dispatcher_connected_devices:
  "let s = fst (run_ops ops (DispatcherState_new now, []))
   in connected_devices s =
        {d. \<exists>before after. ops = before @ Op_connected d # after \<and>
              (\<forall>r. Op_disconnected d r \<notin> set after)} \<and>
      finite (connected_devices s) \<and>
      unat (connected_count s) = card (connected_devices s) mod 2 ^ 32"
  using run_ops_connected [of _ ops "(DispatcherState_new now, [])"]
    run_ops_frame [of "(DispatcherState_new now, [])" ops]
  by (auto simp: DispatcherState_new_def last_seen_connected_iff connected_count_def
      unat_usize_as_u32 Let_def)

end
