(* ===== verification/Dispatch_Edge_Tcp.thy ===== *)
theory Dispatch_Edge_Tcp
  imports Edge Dispatch_State
begin

text \<open>
  The dispatcher's TCP endpoint for edge devices (\<open>ersha-dispatch/src/edge/tcp.rs\<close> and the data
  type of \<open>edge/mod.rs\<close>): the accept loop, and for each device the handshake, the reassembly of
  messages from the byte stream, the conversion of metrics and the bookkeeping of connections.

  The codec (\<open>postcard\<close>), fresh identifiers, the clock and the channel to the data collector are
  the fields of an environment record; what the stream delivers is a list of events.
\<close>

datatype EdgeData = EdgeReading SensorReading | EdgeStatus DeviceStatus

text \<open>
  Of \<open>postcard::Error\<close> the source distinguishes one value; the others carry their text.
\<close>

datatype postcard_error = DeserializeUnexpectedEnd | PostcardOther string

datatype EdgeConnectionError =
    HandshakeMismatch bytes
  | EdgePostcard postcard_error
  | EdgeIo string
  | InvalidPreamble u16
  | EdgeChannelClosed

subsection \<open>Conversion of metrics\<close>

text \<open>\<open>None\<close> is the panic of \<open>unwrap\<close>.\<close>

definition centi :: "int \<Rightarrow> f64 option" where
  "centi v = NotNan_new (f64_div_const (int_as_f64 v) 100)"

definition convert_metric :: "EdgeMetric \<Rightarrow> SensorMetric option" where
  "convert_metric source =
     (case source of
        EdgeSoilMoisture v \<Rightarrow> Some (SoilMoisture (Percentage v))
      | EdgeSoilTemp v \<Rightarrow> map_option SoilTemp (centi (sint v))
      | EdgeAirTemp v \<Rightarrow> map_option AirTemp (centi (sint v))
      | EdgeHumidity v \<Rightarrow> Some (Humidity (Percentage v))
      | EdgeRainfall v \<Rightarrow> map_option Rainfall (centi (uint v)))"

subsection \<open>One device\<close>

record 'c edge_env =
  take_msg :: "bytes \<Rightarrow> (Msg \<times> bytes, postcard_error) result"
  dec_packet :: "bytes \<Rightarrow> (ReadingPacket, postcard_error) result"
  fresh_reading :: "nat \<Rightarrow> ulid"
  now_at :: "nat \<Rightarrow> timestamp"
  tx_send :: "EdgeData \<Rightarrow> 'c \<Rightarrow> (unit, unit) result \<times> 'c"

text \<open>
  The channel, the dispatcher's shared state, and the number of readings made so far, which
  indexes fresh identifiers and times.
\<close>

record 'c edge_session =
  ses_chan :: 'c
  ses_state :: DispatcherInner
  ses_count :: nat

datatype edge_outcome = Finished | Failed EdgeConnectionError | Panicked | Running bytes

definition disconnect :: "DeviceId \<Rightarrow> DisconnectionReason \<Rightarrow> 'c edge_session \<Rightarrow> 'c edge_session" where
  "disconnect d reason s = s\<lparr>ses_state := device_disconnected d reason (ses_state s)\<rparr>"

definition make_reading ::
    "'c edge_env \<Rightarrow> DeviceId \<Rightarrow> DispatcherId \<Rightarrow> u64 \<Rightarrow> nat \<Rightarrow> ReadingPacket \<Rightarrow> SensorMetric \<Rightarrow> SensorReading"
where
  "make_reading env device dispatcher location_raw k packet metric =
     \<lparr>rd_id = ReadingId (fresh_reading env k), rd_device_id = device, rd_dispatcher_id = dispatcher,
      rd_metric = metric, rd_location = H3Cell location_raw, rd_confidence = Percentage 100,
      rd_timestamp = now_at env k, rd_sensor_id = SensorId (pkt_sensor_id packet)\<rparr>"

text \<open>
  The inner loop, \<open>while !buf.is_empty()\<close>.  \<open>None\<close> means that it does not end, which the law of
  the codec below excludes.
\<close>

partial_function (option) drain_buffer ::
    "'c edge_env \<Rightarrow> DeviceId \<Rightarrow> DispatcherId \<Rightarrow> u64 \<Rightarrow> bytes \<Rightarrow> 'c edge_session \<Rightarrow>
     ((bytes, edge_outcome) result \<times> 'c edge_session) option" where
  "drain_buffer env device dispatcher location_raw buf s =
     (if buf = [] then Some (Ok buf, s)
      else case take_msg env buf of
        Inl DeserializeUnexpectedEnd \<Rightarrow> Some (Ok buf, s)
      | Inl (PostcardOther text) \<Rightarrow>
          Some (Err (Failed (EdgePostcard (PostcardOther text))),
                disconnect device (DisconnectError text) s)
      | Inr (msg, rest) \<Rightarrow>
          if msg_preamble msg \<noteq> PACKET_PREAMBLE
          then Some (Err (Failed (InvalidPreamble (msg_preamble msg))),
                     disconnect device (DisconnectError ''Invalid preamble'') s)
          else
            (case msg_type msg of
               MsgReading \<Rightarrow>
                 (case dec_packet env (msg_payload msg) of
                    Inl e \<Rightarrow> Some (Err (Failed (EdgePostcard e)), s)
                  | Inr packet \<Rightarrow>
                      (case convert_metric (pkt_metric packet) of
                         None \<Rightarrow> Some (Err Panicked, s)
                       | Some metric \<Rightarrow>
                           (let reading = make_reading env device dispatcher location_raw
                                            (ses_count s) packet metric;
                                (sent_ok, chan) = tx_send env (EdgeReading reading) (ses_chan s);
                                s' = s\<lparr>ses_chan := chan, ses_count := Suc (ses_count s)\<rparr>
                            in case sent_ok of
                                 Inl _ \<Rightarrow>
                                   Some (Err (Failed EdgeChannelClosed),
                                     disconnect device (DisconnectError ''Channel closed'') s')
                               | Inr _ \<Rightarrow> drain_buffer env device dispatcher location_raw rest s')))))"

text \<open>The outer loop.  A chunk of no bytes is the end of the stream.\<close>

datatype edge_event = Shutdown | Read_chunk bytes | Read_error string

fun serve_device ::
    "'c edge_env \<Rightarrow> DeviceId \<Rightarrow> DispatcherId \<Rightarrow> u64 \<Rightarrow> edge_event list \<Rightarrow> bytes \<Rightarrow> 'c edge_session \<Rightarrow>
     (edge_outcome \<times> 'c edge_session) option" where
  "serve_device env device dispatcher loc [] buf s = Some (Running buf, s)"
| "serve_device env device dispatcher loc (Shutdown # evs) buf s =
     Some (Finished, disconnect device GracefulClose s)"
| "serve_device env device dispatcher loc (Read_error e # evs) buf s =
     Some (Failed (EdgeIo e), disconnect device (DisconnectError e) s)"
| "serve_device env device dispatcher loc (Read_chunk chunk # evs) buf s =
     (if chunk = [] then Some (Finished, disconnect device GracefulClose s)
      else case drain_buffer env device dispatcher loc (buf @ chunk) s of
        None \<Rightarrow> None
      | Some (Inl out, s') \<Rightarrow> Some (out, s')
      | Some (Inr buf', s') \<Rightarrow> serve_device env device dispatcher loc evs buf' s')"

text \<open>
  The handshake: five bytes, the location, the reply with the new identifier.  The last result
  is what was written to the device.
\<close>

record edge_script =
  scr_hello :: "(bytes, string) result"
  scr_location :: "(bytes, string) result"
  scr_reply :: "(unit, string) result"
  scr_events :: "edge_event list"

definition handle_edge_device ::
    "'c edge_env \<Rightarrow> DispatcherId \<Rightarrow> ulid \<Rightarrow> edge_script \<Rightarrow> 'c edge_session \<Rightarrow>
     ((edge_outcome \<times> 'c edge_session) \<times> bytes) option" where
  "handle_edge_device env dispatcher new_ulid script s =
     (case scr_hello script of
        Inl e \<Rightarrow> Some ((Failed (EdgeIo e), s), [])
      | Inr hello \<Rightarrow>
          if hello \<noteq> hello_magic then Some ((Failed (HandshakeMismatch hello), s), [])
          else
            (case scr_location script of
               Inl e \<Rightarrow> Some ((Failed (EdgeIo e), s), [])
             | Inr location \<Rightarrow>
                 (let location_raw = (of_nat (be_value location) :: u64);
                      device = DeviceId new_ulid;
                      reply = be_bytes 16 (unat new_ulid)
                  in case scr_reply script of
                       Inl e \<Rightarrow> Some ((Failed (EdgeIo e), s), reply)
                     | Inr _ \<Rightarrow>
                         (let s' = s\<lparr>ses_state := device_connected device (ses_state s)\<rparr>
                          in map_option (\<lambda>r. (r, reply))
                               (serve_device env device dispatcher location_raw (scr_events script) [] s')))))"

subsection \<open>The accept loop\<close>

datatype ErrorKind = ConnectionRefused | ConnectionAborted | ConnectionReset | OutOfMemory | OtherKind
  | Unlisted_kind

definition is_transient_error :: "ErrorKind \<Rightarrow> bool" where
  "is_transient_error e =
     (e \<in> {ConnectionRefused, ConnectionAborted, ConnectionReset, OutOfMemory, OtherKind})"

datatype accept_event = Acc_cancelled | Acc_client edge_script | Acc_failed ErrorKind

text \<open>The clients for which a task is spawned, and whether the loop has ended.\<close>

fun run_server_loop :: "accept_event list \<Rightarrow> edge_script list \<times> bool" where
  "run_server_loop [] = ([], False)"
| "run_server_loop (Acc_cancelled # evs) = ([], True)"
| "run_server_loop (Acc_client script # evs) =
     (let (spawned, ended) = run_server_loop evs in (script # spawned, ended))"
| "run_server_loop (Acc_failed e # evs) =
     (if is_transient_error e then run_server_loop evs else ([], True))"

subsection \<open>Accuracy of the conversion\<close>

lemma centi_accurate:
  assumes "\<bar>v\<bar> < 2 ^ 16"
  obtains q where "centi v = Some (F64_Fin q)" and "\<bar>q - of_int v / 100\<bar> \<le> 1 / 2 ^ 38"
    and "round (q * 100) = v"
proof -
  have "\<bar>of_int v / 100 :: rat\<bar> < 2 ^ 16"
  proof -
    have "\<bar>of_int v :: rat\<bar> < 2 ^ 16" using assms by (metis of_int_abs of_int_less_iff of_int_numeral of_int_power)
    then show ?thesis by simp
  qed
  then obtain q where q: "f64_round (of_int v / 100) = F64_Fin q"
      "\<bar>q - of_int v / 100\<bar> \<le> 2 powi (int 16 - 54)"
    by (rule f64_round_error) simp_all
  have "(2::rat) powi (int 16 - 54) = 1 / 2 ^ 38"
    by (simp add: power_int_def field_simps)
  with q(2) have err: "\<bar>q - of_int v / 100\<bar> \<le> 1 / 2 ^ 38" by simp
  have "int_as_f64 v = F64_Fin (of_int v)"
    using assms by (intro int_as_f64_exact) simp
  with q(1) have c: "centi v = Some (F64_Fin q)" by (simp add: centi_def NotNan_new_def)
  have "\<bar>q * 100 - of_int v\<bar> = 100 * \<bar>q - of_int v / 100\<bar>" by (simp add: abs_if field_simps)
  also have "\<dots> < 1 / 2" using err by simp
  finally have "round (q * 100) = v" by (intro round_unique') simp
  with c err show ?thesis by (rule that)
qed

fun metric_close :: "EdgeMetric \<Rightarrow> SensorMetric \<Rightarrow> bool" where
  "metric_close (EdgeSoilMoisture v) (SoilMoisture p) = (p = Percentage v)"
| "metric_close (EdgeHumidity v) (Humidity p) = (p = Percentage v)"
| "metric_close (EdgeSoilTemp v) (SoilTemp (F64_Fin q)) =
     (\<bar>q - of_int (sint v) / 100\<bar> \<le> 1 / 2 ^ 38 \<and> round (q * 100) = sint v)"
| "metric_close (EdgeAirTemp v) (AirTemp (F64_Fin q)) =
     (\<bar>q - of_int (sint v) / 100\<bar> \<le> 1 / 2 ^ 38 \<and> round (q * 100) = sint v)"
| "metric_close (EdgeRainfall v) (Rainfall (F64_Fin q)) =
     (\<bar>q - of_int (uint v) / 100\<bar> \<le> 1 / 2 ^ 38 \<and> round (q * 100) = uint v)"
| "metric_close _ _ = False"

lemma convert_metric_close: "\<exists>metric. convert_metric source = Some metric \<and> metric_close source metric"
proof -
  have i: "\<bar>sint v\<bar> < 2 ^ 16" for v :: i16 using sint_i16_bounds [of v] by (auto simp: abs_if)
  have u: "\<bar>uint v\<bar> < 2 ^ 16" for v :: u16 using uint_lt2p [of v] by simp
  show ?thesis
  proof (cases source)
    case (EdgeSoilTemp v)
    then show ?thesis by (rule_tac centi_accurate [OF i [of v]]) (simp add: convert_metric_def)
  next
    case (EdgeAirTemp v)
    then show ?thesis by (rule_tac centi_accurate [OF i [of v]]) (simp add: convert_metric_def)
  next
    case (EdgeRainfall v)
    then show ?thesis by (rule_tac centi_accurate [OF u [of v]]) (simp add: convert_metric_def)
  qed (simp_all add: convert_metric_def)
qed

lemma convert_metric_total: "\<exists>metric. convert_metric source = Some metric"
  using convert_metric_close by blast

subsection \<open>Reassembly\<close>

text \<open>
  What the code relies on of \<open>postcard\<close>: a message decodes from the front of any input that
  starts with its encoding, leaving the rest; of a non-empty proper part of an encoding, decoding
  reports that the input ended; a packet decodes from its encoding.
\<close>

definition edge_codec_law ::
    "(ReadingPacket \<Rightarrow> (bytes, unit) result) \<Rightarrow> (Msg \<Rightarrow> (bytes, unit) result) \<Rightarrow> 'c edge_env \<Rightarrow> bool" where
  "edge_codec_law enc_packet enc_msg env \<longleftrightarrow>
     (\<forall>m bs. enc_msg m = Ok bs \<longrightarrow> bs \<noteq> [] \<and>
        (\<forall>rest. take_msg env (bs @ rest) = Ok (m, rest)) \<and>
        (\<forall>p. p \<noteq> [] \<and> strict_prefix p bs \<longrightarrow> take_msg env p = Err DeserializeUnexpectedEnd)) \<and>
     (\<forall>p bs. enc_packet p = Ok bs \<longrightarrow> dec_packet env bs = Ok p)"

text \<open>The readings that a list of packets becomes, numbered from \<open>k\<close>.\<close>

fun readings_of ::
    "'c edge_env \<Rightarrow> DeviceId \<Rightarrow> DispatcherId \<Rightarrow> u64 \<Rightarrow> nat \<Rightarrow> ReadingPacket list \<Rightarrow> EdgeData list" where
  "readings_of env device dispatcher loc k [] = []"
| "readings_of env device dispatcher loc k (p # ps) =
     EdgeReading (make_reading env device dispatcher loc k p (the (convert_metric (pkt_metric p)))) #
     readings_of env device dispatcher loc (Suc k) ps"

definition open_channel :: "EdgeData \<Rightarrow> EdgeData list \<Rightarrow> (unit, unit) result \<times> EdgeData list" where
  "open_channel x c = (Ok (), c @ [x])"

definition took :: "EdgeData list \<Rightarrow> nat \<Rightarrow> EdgeData list edge_session \<Rightarrow> EdgeData list edge_session" where
  "took xs n s = s\<lparr>ses_chan := ses_chan s @ xs, ses_count := ses_count s + n\<rparr>"

lemma frame_reading_OkD:
  assumes "frame_reading enc_packet enc_msg p = Ok f"
  obtains pl where "enc_packet p = Ok pl"
    and "enc_msg \<lparr>msg_preamble = PACKET_PREAMBLE, msg_version = PROTOCOL_VERSION,
           msg_type = MsgReading, msg_payload = pl\<rparr> = Ok f"
  using assms by (auto simp: frame_reading_def to_slice_def Let_def split: sum.splits if_splits)

lemma drain_one_frame:
  assumes law: "edge_codec_law enc_packet enc_msg env" and "tx_send env = open_channel"
    and frame: "frame_reading enc_packet enc_msg p = Ok f"
  shows "drain_buffer env device dispatcher loc (f @ rest) s =
    drain_buffer env device dispatcher loc rest
      (took (readings_of env device dispatcher loc (ses_count s) [p]) 1 s)"
proof -
  obtain pl where pl: "enc_packet p = Ok pl"
    "enc_msg \<lparr>msg_preamble = PACKET_PREAMBLE, msg_version = PROTOCOL_VERSION,
       msg_type = MsgReading, msg_payload = pl\<rparr> = Ok f"
    using frame by (rule frame_reading_OkD)
  then have "f \<noteq> []" "dec_packet env pl = Ok p"
      "take_msg env (f @ rest) = Ok (\<lparr>msg_preamble = PACKET_PREAMBLE, msg_version = PROTOCOL_VERSION,
         msg_type = MsgReading, msg_payload = pl\<rparr>, rest)"
    using law by (auto simp: edge_codec_law_def)
  moreover obtain metric where "convert_metric (pkt_metric p) = Some metric"
    using convert_metric_total by blast
  ultimately show ?thesis
    using assms(2)
    by (subst drain_buffer.simps) (simp add: open_channel_def took_def)
qed

lemma took_took: "took ys m (took xs n s) = took (xs @ ys) (n + m) s"
  by (simp add: took_def)

lemma took_Nil: "took [] 0 s = s"
  by (simp add: took_def)

lemma drain_frames:
  assumes law: "edge_codec_law enc_packet enc_msg env" "tx_send env = open_channel"
    and "list_all2 (\<lambda>p f. frame_reading enc_packet enc_msg p = Ok f) ps fs"
    and "rest = [] \<or> take_msg env rest = Err DeserializeUnexpectedEnd"
  shows "drain_buffer env device dispatcher loc (concat fs @ rest) s =
    Some (Ok rest, took (readings_of env device dispatcher loc (ses_count s) ps) (length ps) s)"
  using assms(3)
proof (induction ps fs arbitrary: s rule: list_all2_induct)
  case Nil
  then show ?case using assms(4) by (subst drain_buffer.simps) (auto simp: took_Nil)
next
  case (Cons p ps f fs)
  then show ?case
    using drain_one_frame [OF law Cons.hyps(1), of device dispatcher loc "concat fs @ rest" s]
    by (simp add: took_took) (simp add: took_def)
qed

text \<open>A prefix of a concatenation ends within one of its parts.\<close>

lemma prefix_concat_split:
  assumes "x @ y = concat fs"
  shows "\<exists>k p. k \<le> length fs \<and> x = concat (take k fs) @ p \<and> p @ y = concat (drop k fs) \<and>
    (p = [] \<or> (k < length fs \<and> strict_prefix p (fs ! k)))"
  using assms
proof (induction fs arbitrary: x)
  case (Cons f fs)
  then obtain vs where "x = f @ vs \<and> vs @ y = concat fs \<or> x @ vs = f \<and> y = vs @ concat fs"
    by (auto simp: append_eq_append_conv2)
  then consider us where "x = f @ us" "us @ y = concat fs" | us where "x @ us = f" "us \<noteq> []" "y = us @ concat fs"
    by (cases "vs = []") auto
  then show ?case
  proof cases
    case 1
    from Cons.IH [OF 1(2)] obtain k p where "k \<le> length fs" "us = concat (take k fs) @ p"
        "p @ y = concat (drop k fs)" "p = [] \<or> (k < length fs \<and> strict_prefix p (fs ! k))" by blast
    with 1 show ?thesis by (intro exI [of _ "Suc k"] exI [of _ p]) auto
  next
    case 2
    then show ?thesis
      by (intro exI [of _ 0] exI [of _ x]) (auto simp: strict_prefix_def)
  qed
qed simp

text \<open>
  Any cutting of the stream into chunks gives the same readings.  The buffer between two chunks
  is empty or a proper part of the next frame.
\<close>

lemma serve_chunks:
  assumes law: "edge_codec_law enc_packet enc_msg env" "tx_send env = open_channel"
    and "list_all2 (\<lambda>p f. frame_reading enc_packet enc_msg p = Ok f) ps fs"
    and "buf @ concat chunks = concat fs" and "[] \<notin> set chunks"
    and "buf = [] \<or> (fs \<noteq> [] \<and> strict_prefix buf (hd fs))"
  shows "serve_device env device dispatcher loc (map Read_chunk chunks @ evs) buf s =
    serve_device env device dispatcher loc evs []
      (took (readings_of env device dispatcher loc (ses_count s) ps) (length ps) s)"
  using assms(3-)
proof (induction chunks arbitrary: ps fs buf s)
  case Nil
  have "f \<noteq> []" if "f \<in> set fs" for f
  proof -
    from that Nil.prems(1) obtain p where "frame_reading enc_packet enc_msg p = Ok f"
      by (auto simp: list_all2_conv_all_nth in_set_conv_nth)
    then show ?thesis using law(1) by (auto simp: edge_codec_law_def elim: frame_reading_OkD)
  qed
  then have "fs = []"
    using Nil.prems(2,4) by (cases fs) (auto simp: strict_prefix_def)
  then show ?case using Nil.prems by (simp add: took_Nil)
next
  case (Cons c chunks)
  have "(buf @ c) @ concat chunks = concat fs" using Cons.prems(2) by simp
  then obtain k p where k: "k \<le> length fs" "buf @ c = concat (take k fs) @ p"
      "p @ concat chunks = concat (drop k fs)" "p = [] \<or> (k < length fs \<and> strict_prefix p (fs ! k))"
    using prefix_concat_split by blast
  have len: "length ps = length fs" using Cons.prems(1) by (rule list_all2_lengthD)
  have "take_msg env p = Err DeserializeUnexpectedEnd" if "p \<noteq> []"
  proof -
    have "frame_reading enc_packet enc_msg (ps ! k) = Ok (fs ! k)"
      using that k len Cons.prems(1) by (auto simp: list_all2_conv_all_nth)
    then show ?thesis using law(1) k(4) that by (auto simp: edge_codec_law_def elim: frame_reading_OkD)
  qed
  then have rest: "p = [] \<or> take_msg env p = Err DeserializeUnexpectedEnd" by blast
  have drop: "drop k fs \<noteq> [] \<and> strict_prefix p (hd (drop k fs))" if "p \<noteq> []"
    using that k by (simp add: hd_drop_conv_nth)
  have split: "readings_of env device dispatcher loc n ps =
      readings_of env device dispatcher loc n (take k ps) @
      readings_of env device dispatcher loc (n + k) (drop k ps)" for n
    using k(1) len
  proof (induction k arbitrary: ps fs n)
    case (Suc k)
    then show ?case by (cases ps; cases fs) auto
  qed simp
  let ?s = "took (readings_of env device dispatcher loc (ses_count s) (take k ps)) k s"
  have "drain_buffer env device dispatcher loc (buf @ c) s = Some (Ok p, ?s)"
    using drain_frames [OF law list_all2_takeI [OF Cons.prems(1), of k] rest, of device dispatcher loc s]
      k len by simp
  moreover have "serve_device env device dispatcher loc (map Read_chunk chunks @ evs) p ?s =
      serve_device env device dispatcher loc evs []
        (took (readings_of env device dispatcher loc (ses_count ?s) (drop k ps)) (length (drop k ps)) ?s)"
    using Cons.prems(3) k drop list_all2_dropI [OF Cons.prems(1), of k] by (intro Cons.IH) auto
  ultimately show ?case
    using Cons.prems(3) k(1) len split [of "ses_count s"] by (simp add: took_took) (auto simp: took_def)
qed

subsection \<open>Bookkeeping of connections\<close>

text \<open>
  How a session may leave the shared state when it ends: the disconnection is recorded, or the
  payload of a message was malformed and nothing is recorded.
\<close>

definition ended_ok :: "'c edge_env \<Rightarrow> DeviceId \<Rightarrow> DispatcherInner \<Rightarrow> edge_outcome \<Rightarrow> DispatcherInner \<Rightarrow> bool"
where
  "ended_ok env device st out st' \<longleftrightarrow>
     (\<exists>reason. st' = device_disconnected device reason st) \<or>
     (st' = st \<and> (\<exists>e pl. out = Failed (EdgePostcard e) \<and> dec_packet env pl = Err e))"

definition drain_ok :: "'c edge_env \<Rightarrow> DeviceId \<Rightarrow> 'c edge_session \<Rightarrow>
    (bytes, edge_outcome) result \<times> 'c edge_session \<Rightarrow> bool" where
  "drain_ok env device s res \<longleftrightarrow>
     (case fst res of
        Inr _ \<Rightarrow> ses_state (snd res) = ses_state s
      | Inl out \<Rightarrow> ended_ok env device (ses_state s) out (ses_state (snd res)) \<and> (\<forall>b. out \<noteq> Running b))"

lemma drain_buffer_ok:
  assumes "drain_buffer env device dispatcher loc buf s = Some res"
  shows "drain_ok env device s res"
  using assms
proof (rule drain_buffer.raw_induct [where P = "\<lambda>env device _ _ _ s res. drain_ok env device s res", rotated],
    goal_cases)
  case (1 rec env device dispatcher loc buf s res)
  obtain metric where "convert_metric m = Some (metric m)" for m
    using convert_metric_total by metis
  with 1(2) show ?case
    by (auto simp: drain_ok_def ended_ok_def disconnect_def Let_def
        split: if_splits sum.splits postcard_error.splits MsgType.splits prod.splits dest!: 1(1))
qed

lemma serve_device_ok:
  assumes "serve_device env device dispatcher loc evs buf s = Some (out, s')"
  shows "if \<exists>b. out = Running b then ses_state s' = ses_state s
    else ended_ok env device (ses_state s) out (ses_state s')"
  using assms
proof (induction env device dispatcher loc evs buf s rule: serve_device.induct)
  case (4 env device dispatcher loc chunk evs buf s)
  show ?case
  proof (cases "chunk = []")
    case True
    with 4(2) show ?thesis by (auto simp: ended_ok_def disconnect_def)
  next
    case False
    with 4(2) obtain r s1 where d: "drain_buffer env device dispatcher loc (buf @ chunk) s = Some (r, s1)"
      by (auto split: option.splits)
    from drain_buffer_ok [OF d] have ok: "drain_ok env device s (r, s1)" .
    show ?thesis
    proof (cases r)
      case (Inl o1)
      with 4(2) d ok False show ?thesis by (simp add: drain_ok_def)
    next
      case (Inr buf')
      with ok have "ses_state s1 = ses_state s" by (simp add: drain_ok_def)
      with 4(1) [OF False d refl, of buf'] 4(2) Inr d False show ?thesis by (simp split: if_splits)
    qed
  qed
qed (auto simp: ended_ok_def disconnect_def)

subsection \<open>A codec to run on\<close>

text \<open>A message is its payload preceded by its length; one packet is known.\<close>

definition toy_enc_packet :: "ReadingPacket \<Rightarrow> (bytes, unit) result" where
  "toy_enc_packet p = (if p = sample_packet then Ok [40] else Err ())"

definition toy_enc_msg :: "Msg \<Rightarrow> (bytes, unit) result" where
  "toy_enc_msg m =
     (if msg_preamble m = PACKET_PREAMBLE \<and> msg_version m = PROTOCOL_VERSION \<and> length (msg_payload m) < 256
      then Ok (of_nat (length (msg_payload m)) # msg_payload m) else Err ())"

fun toy_take_msg :: "bytes \<Rightarrow> (Msg \<times> bytes, postcard_error) result" where
  "toy_take_msg [] = Err DeserializeUnexpectedEnd"
| "toy_take_msg (n # bs) =
     (if length bs < unat n then Err DeserializeUnexpectedEnd
      else Ok (\<lparr>msg_preamble = PACKET_PREAMBLE, msg_version = PROTOCOL_VERSION, msg_type = MsgReading,
               msg_payload = take (unat n) bs\<rparr>, drop (unat n) bs))"

definition toy_env :: "EdgeData list edge_env" where
  "toy_env =
     \<lparr>take_msg = toy_take_msg,
      dec_packet = (\<lambda>bs. if bs = [40] then Ok sample_packet else Err (PostcardOther ''bad packet'')),
      fresh_reading = (\<lambda>k. 100 + of_nat k), now_at = int, tx_send = open_channel\<rparr>"

definition toy_session :: "EdgeData list edge_session" where
  "toy_session = \<lparr>ses_chan = [], ses_state = DispatcherState_new 0, ses_count = 0\<rparr>"

lemma toy_codec_law: "edge_codec_law toy_enc_packet toy_enc_msg toy_env"
proof -
  have "\<lparr>msg_preamble = PACKET_PREAMBLE, msg_version = PROTOCOL_VERSION, msg_type = MsgReading,
      msg_payload = msg_payload m\<rparr> = m"
    if "msg_preamble m = PACKET_PREAMBLE" "msg_version m = PROTOCOL_VERSION" for m :: Msg
    using that by (cases m, rename_tac pre ver ty pl, case_tac ty) simp
  moreover have "unat (of_nat a + of_nat b :: u8) = a + b" if "a + b < 256" for a b
    using that by (simp add: unat_of_nat flip: of_nat_add)
  ultimately show ?thesis
    by (auto simp: edge_codec_law_def toy_enc_packet_def toy_enc_msg_def toy_env_def unat_of_nat
        strict_prefix_def prefix_def Cons_eq_append_conv split: if_splits)
qed

lemma toy_frame: "frame_reading toy_enc_packet toy_enc_msg sample_packet = Ok [1, 40]"
  by (simp add: frame_reading_def to_slice_def toy_enc_packet_def toy_enc_msg_def MAX_PAYLOAD_SIZE_def
      MAX_PACKET_SIZE_def PREAMBLE_SIZE_def PACKET_HEADER_SIZE_def)

subsection \<open>Properties\<close>

text \<open>
  The conversion of metrics never panics.  Percentages are copied; a temperature or
  rainfall of \<open>v\<close> hundredths becomes a finite double within 2^-38 of \<open>v / 100\<close>, from which
  rounding recovers \<open>v\<close>.
\<close>

lemma edge_metric_conversion:
  "\<exists>metric. convert_metric source = Some metric \<and> metric_close source metric"
  by (rule convert_metric_close)

text \<open>
  Reassembly is independent of how the stream is cut.  When an edge device sends a list of
  packets with \<open>frame_reading\<close> and then closes the connection, and the bytes arrive in any
  non-empty chunks, the dispatcher passes on exactly one reading per packet, in order, each
  built from its packet, and records one graceful disconnection.
\<close>

lemma edge_stream_reassembly:
  assumes "edge_codec_law enc_packet enc_msg env" and "tx_send env = open_channel"
    and "list_all2 (\<lambda>p f. frame_reading enc_packet enc_msg p = Ok f) ps fs"
    and "concat chunks = concat fs" and "[] \<notin> set chunks"
  shows "serve_device env device dispatcher loc (map Read_chunk chunks @ [Read_chunk []]) [] s =
    Some (Finished,
      \<lparr>ses_chan = ses_chan s @ readings_of env device dispatcher loc (ses_count s) ps,
       ses_state = device_disconnected device GracefulClose (ses_state s),
       ses_count = ses_count s + length ps\<rparr>)"
  using serve_chunks [OF assms(1-3), of "[]" chunks device dispatcher loc "[Read_chunk []]" s] assms(4,5)
  by (simp add: took_def disconnect_def)



text \<open>
  A malformed payload leaves a ghost connection.  A device that completes the handshake and
  sends a well-formed message whose payload does not decode is dropped with an error, but it
  stays in the set of connected devices and no disconnection is queued for prime.
\<close>

lemma edge_malformed_payload_leak:
  assumes "scr_hello script = Ok hello_magic" and "scr_location script = Ok location"
    and "scr_reply script = Ok ()" and "scr_events script = Read_chunk chunk # evs" and "chunk \<noteq> []"
    and "take_msg env chunk = Ok (msg, rest)" and "msg_preamble msg = PACKET_PREAMBLE"
    and "dec_packet env (msg_payload msg) = Err e"
  shows "\<exists>s'. handle_edge_device env dispatcher new_ulid script s =
      Some ((Failed (EdgePostcard e), s'), be_bytes 16 (unat new_ulid)) \<and>
    DeviceId new_ulid \<in> connected_devices (ses_state s') \<and>
    pending_events (ses_state s') = pending_events (ses_state s)"
proof -
  have "msg_type msg = MsgReading" by (cases "msg_type msg")
  with assms show ?thesis
    by (simp add: handle_edge_device_def drain_buffer.simps [of _ _ _ _ chunk] device_connected_def Let_def)
qed

end
