(* ===== verification/Dispatch_Storage.thy ===== *)
theory Dispatch_Storage
  imports Core_Types
begin

text \<open>
  The storage traits of a dispatcher (\<open>ersha-dispatch/src/storage/mod.rs\<close>).  The methods a
  generic caller may use are a record of functions, Rust's trait dictionary; a method that
  changes the store returns its result and the new store.  The locale \<open>event_store\<close> states
  what \<open>SensorReadingsStorage\<close> and \<open>DeviceStatusStorage\<close> promise, in terms of the events that
  are pending, and proves what the uploader needs of it.
\<close>

record ('s, 'err) storage_ops =
  op_store_reading :: "SensorReading \<Rightarrow> 's \<Rightarrow> (unit, 'err) result \<times> 's"
  op_store_readings :: "SensorReading list \<Rightarrow> 's \<Rightarrow> (unit, 'err) result \<times> 's"
  op_fetch_readings :: "'s \<Rightarrow> (SensorReading list, 'err) result"
  op_mark_readings :: "ReadingId list \<Rightarrow> 's \<Rightarrow> (unit, 'err) result \<times> 's"
  op_store_status :: "DeviceStatus \<Rightarrow> 's \<Rightarrow> (unit, 'err) result \<times> 's"
  op_store_statuses :: "DeviceStatus list \<Rightarrow> 's \<Rightarrow> (unit, 'err) result \<times> 's"
  op_fetch_statuses :: "'s \<Rightarrow> (DeviceStatus list, 'err) result"
  op_mark_statuses :: "StatusId list \<Rightarrow> 's \<Rightarrow> (unit, 'err) result \<times> 's"

record StorageStats =
  sensor_readings_pending :: nat
  sensor_readings_uploaded :: nat
  sensor_readings_total :: nat
  device_statuses_pending :: nat
  device_statuses_uploaded :: nat
  device_statuses_total :: nat

record CleanupStats =
  sensor_readings_deleted :: nat
  device_statuses_deleted :: nat

text \<open>Storing events one after the other, as the collector task does.\<close>

definition store_each :: "('e \<Rightarrow> 's \<Rightarrow> (unit, 'err) result \<times> 's) \<Rightarrow> 'e list \<Rightarrow> 's \<Rightarrow> 's" where
  "store_each store es s = fold (\<lambda>e s. snd (store e s)) es s"

lemma store_each_simps [simp]:
  "store_each store [] s = s"
  "store_each store (e # es) s = store_each store es (snd (store e s))"
  by (simp_all add: store_each_def)

text \<open>
  \<open>pend s\<close> is the abstract content of a store: the pending events by identifier.  A failing
  operation leaves it unchanged.  \<open>valid\<close> are the events the store can represent.
\<close>

locale event_store =
  fixes store :: "'e \<Rightarrow> 's \<Rightarrow> (unit, 'err) result \<times> 's"
    and fetch :: "'s \<Rightarrow> ('e list, 'err) result"
    and mark :: "'i list \<Rightarrow> 's \<Rightarrow> (unit, 'err) result \<times> 's"
    and eid :: "'e \<Rightarrow> 'i"
    and valid :: "'e \<Rightarrow> bool"
    and inv :: "'s \<Rightarrow> bool"
    and pend :: "'s \<Rightarrow> 'i \<Rightarrow> 'e option"
  assumes inv_store: "inv s \<Longrightarrow> valid e \<Longrightarrow> inv (snd (store e s))"
    and inv_mark: "inv s \<Longrightarrow> inv (snd (mark is s))"
    and fetch_distinct: "inv s \<Longrightarrow> fetch s = Ok es \<Longrightarrow> distinct (map eid es)"
    and fetch_pending: "inv s \<Longrightarrow> fetch s = Ok es \<Longrightarrow> pend s i = Some e \<longleftrightarrow> e \<in> set es \<and> eid e = i"
    and store_ok: "inv s \<Longrightarrow> valid e \<Longrightarrow> fst (store e s) = Ok () \<Longrightarrow>
      pend (snd (store e s)) = (pend s)(eid e \<mapsto> e)"
    and store_err: "inv s \<Longrightarrow> fst (store e s) = Err x \<Longrightarrow> pend (snd (store e s)) = pend s"
    and mark_ok: "inv s \<Longrightarrow> fst (mark is s) = Ok () \<Longrightarrow>
      pend (snd (mark is s)) = (\<lambda>i. if i \<in> set is then None else pend s i)"
    and mark_err: "inv s \<Longrightarrow> fst (mark is s) = Err x \<Longrightarrow> pend (snd (mark is s)) = pend s"
begin

lemma inv_store_each: "inv s \<Longrightarrow> list_all valid es \<Longrightarrow> inv (store_each store es s)"
  by (induction es arbitrary: s) (auto simp: inv_store)

text \<open>Every identifier that is not stored anew keeps its pending event while others are stored.\<close>

lemma pend_store_each_other:
  "inv s \<Longrightarrow> list_all valid es \<Longrightarrow> i \<notin> eid ` set es \<Longrightarrow> pend (store_each store es s) i = pend s i"
proof (induction es arbitrary: s)
  case (Cons e es)
  have "pend (snd (store e s)) i = pend s i"
  proof (cases "fst (store e s)")
    case (Inl x)
    with Cons.prems show ?thesis by (simp add: store_err)
  next
    case (Inr u)
    with Cons.prems show ?thesis by (simp add: store_ok)
  qed
  with Cons show ?case by (simp add: inv_store)
qed simp

lemma pend_store_each_mem:
  assumes "inv s" and "list_all valid es" and "distinct (map eid es)" and "e \<in> set es"
    and "\<And>e s. inv s \<Longrightarrow> fst (store e s) = Ok ()"
  shows "pend (store_each store es s) (eid e) = Some e"
  using assms(1-4)
proof (induction es arbitrary: s)
  case (Cons d es)
  show ?case
  proof (cases "e = d")
    case True
    with Cons.prems have "eid e \<notin> eid ` set es" by auto
    with True Cons.prems show ?thesis
      by (simp add: pend_store_each_other inv_store store_ok assms(5))
  next
    case False
    with Cons.prems have "e \<in> set es" by simp
    with Cons show ?thesis by (simp add: inv_store)
  qed
qed simp

text \<open>
  What an upload leaves behind.  Events \<open>new\<close> are stored between fetching the batch and
  marking it: the fetched events are no longer pending, the new ones are.
\<close>

lemma pending_after_upload:
  assumes "inv s" and "fetch s = Ok es"
    and "fst (mark (map eid es) (store_each store new s)) = Ok ()"
    and "eid ` set new \<inter> eid ` set es = {}" and "list_all valid new"
  shows "pend (snd (mark (map eid es) (store_each store new s))) i =
    (if i \<in> eid ` set new then pend (store_each store new s) i else None)"
proof -
  have inv: "inv (store_each store new s)"
    using assms(1,5) by (rule inv_store_each)
  have eq: "pend (snd (mark (map eid es) (store_each store new s))) i =
      (if i \<in> eid ` set es then None else pend (store_each store new s) i)"
    using mark_ok [OF inv assms(3)] by simp
  show ?thesis
  proof (cases "i \<in> eid ` set new")
    case True
    with assms(4) have "i \<notin> eid ` set es" by auto
    with True show ?thesis by (simp add: eq)
  next
    case False
    then have "pend (store_each store new s) i = pend s i"
      by (rule pend_store_each_other [OF assms(1,5)])
    moreover have "pend s i = None" if "i \<notin> eid ` set es"
    proof (cases "pend s i")
      case (Some e)
      then have "e \<in> set es \<and> eid e = i"
        by (simp add: fetch_pending [OF assms(1,2)])
      with that show ?thesis by auto
    qed
    ultimately show ?thesis using False by (simp add: eq)
  qed
qed

lemma fetch_after_upload:
  assumes "inv s" and "fetch s = Ok es" and "\<And>e s. inv s \<Longrightarrow> fst (store e s) = Ok ()"
    and "fst (mark (map eid es) (store_each store new s)) = Ok ()"
    and "eid ` set new \<inter> eid ` set es = {}" and "distinct (map eid new)" and "list_all valid new"
    and "fetch (snd (mark (map eid es) (store_each store new s))) = Ok es'"
  shows "set es' = set new"
proof -
  let ?s' = "snd (mark (map eid es) (store_each store new s))"
  have inv: "inv ?s'"
    using assms(1,7) by (intro inv_mark inv_store_each)
  have mem: "e \<in> set es' \<longleftrightarrow> pend ?s' (eid e) = Some e" for e
    using fetch_pending [OF inv assms(8), of "eid e" e] by simp
  note pend = pending_after_upload [OF assms(1,2,4,5,7)]
  show ?thesis
  proof (rule set_eqI)
    fix e
    show "e \<in> set es' \<longleftrightarrow> e \<in> set new"
    proof
      assume "e \<in> set es'"
      then have p: "pend ?s' (eid e) = Some e" by (simp add: mem)
      then have new: "eid e \<in> eid ` set new"
        using pend [of "eid e"] by (metis option.distinct(1))
      then obtain d where d: "d \<in> set new" "eid e = eid d"
        by (rule imageE)
      have "pend (store_each store new s) (eid d) = Some d"
        using assms(1,7,6) d(1) assms(3) by (rule pend_store_each_mem)
      with p new d have "d = e"
        using pend [of "eid e"] by simp
      with d(1) show "e \<in> set new" by simp
    next
      assume e: "e \<in> set new"
      have "pend (store_each store new s) (eid e) = Some e"
        using assms(1,7,6) e assms(3) by (rule pend_store_each_mem)
      with e show "e \<in> set es'" by (simp only: mem pend if_P imageI)
    qed
  qed
qed

end

text \<open>
  A whole storage: both traits on one store, where marking readings does not touch the statuses
  and the other way round.
\<close>

locale dispatch_store =
  readings: event_store "op_store_reading ops" "op_fetch_readings ops" "op_mark_readings ops" rd_id valid_r inv pend_r +
  statuses: event_store "op_store_status ops" "op_fetch_statuses ops" "op_mark_statuses ops" ds_id valid_s inv pend_s
  for ops :: "('s, 'err) storage_ops" and valid_r and valid_s and inv and pend_r and pend_s +
  assumes mark_readings_frame: "inv s \<Longrightarrow> pend_s (snd (op_mark_readings ops rids s)) = pend_s s"
    and mark_statuses_frame: "inv s \<Longrightarrow> pend_r (snd (op_mark_statuses ops sids s)) = pend_r s"
begin

text \<open>Marking a whole batch, as the uploader does.\<close>

definition mark_batch :: "SensorReading list \<Rightarrow> DeviceStatus list \<Rightarrow> 's \<Rightarrow> 's" where
  "mark_batch rs sts s =
     snd (op_mark_statuses ops (map ds_id sts) (snd (op_mark_readings ops (map rd_id rs) s)))"

lemma inv_mark_batch: "inv s \<Longrightarrow> inv (mark_batch rs sts s)"
  by (simp add: mark_batch_def readings.inv_mark statuses.inv_mark)

lemma pend_mark_readings:
  "inv s \<Longrightarrow> pend_r (snd (op_mark_readings ops is s)) i =
     (if i \<in> set is \<and> fst (op_mark_readings ops is s) = Ok () then None else pend_r s i)"
  by (cases "fst (op_mark_readings ops is s)") (simp_all add: readings.mark_ok readings.mark_err)

lemma pend_mark_statuses:
  "inv s \<Longrightarrow> pend_s (snd (op_mark_statuses ops is s)) i =
     (if i \<in> set is \<and> fst (op_mark_statuses ops is s) = Ok () then None else pend_s s i)"
  by (cases "fst (op_mark_statuses ops is s)") (simp_all add: statuses.mark_ok statuses.mark_err)

lemma mark_batch_readings:
  "inv s \<Longrightarrow> pend_r (mark_batch rs sts s) i =
     (if i \<in> rd_id ` set rs \<and> fst (op_mark_readings ops (map rd_id rs) s) = Ok () then None
      else pend_r s i)"
  by (simp add: mark_batch_def mark_statuses_frame readings.inv_mark pend_mark_readings)

lemma mark_batch_statuses:
  "inv s \<Longrightarrow> pend_s (mark_batch rs sts s) i =
     (if i \<in> ds_id ` set sts \<and>
         fst (op_mark_statuses ops (map ds_id sts) (snd (op_mark_readings ops (map rd_id rs) s))) = Ok ()
      then None else pend_s s i)"
  by (simp add: mark_batch_def mark_readings_frame readings.inv_mark pend_mark_statuses)

end

end
