(* ===== verification/Fixtures.thy ===== *)
theory Fixtures
  imports Core_Types
begin

text \<open>
  Concrete values on which the witnesses of the development evaluate its theorems, in the style
  of \<open>dummy_reading\<close>, \<open>dummy_status\<close> and \<open>mock_device\<close> of the source's tests.
\<close>

definition sample_reading :: "ulid \<Rightarrow> ulid \<Rightarrow> SensorReading" where
  "sample_reading i d =
     \<lparr>rd_id = ReadingId i, rd_device_id = DeviceId d, rd_dispatcher_id = DispatcherId 7,
      rd_metric = SoilMoisture (Percentage 42), rd_location = H3Cell 123,
      rd_confidence = Percentage 95, rd_timestamp = 0, rd_sensor_id = SensorId 9\<rparr>"

definition sample_status :: "ulid \<Rightarrow> ulid \<Rightarrow> u8 \<Rightarrow> SensorStatus list \<Rightarrow> DeviceStatus" where
  "sample_status i d battery sensors =
     \<lparr>ds_id = StatusId i, ds_device_id = DeviceId d, ds_dispatcher_id = DispatcherId 7,
      ds_battery_percent = Percentage battery, ds_uptime_seconds = 3600, ds_signal_rssi = - 65,
      ds_errors = [], ds_timestamp = 0, ds_sensor_statuses = sensors\<rparr>"

definition sample_device :: "ulid \<Rightarrow> string \<Rightarrow> Device" where
  "sample_device i m =
     \<lparr>dev_id = DeviceId i, dev_kind = DK_Sensor, dev_state = Device_Active,
      dev_location = H3Cell 123, dev_manufacturer = Some m, dev_provisioned_at = 0,
      dev_sensors = []\<rparr>"

definition sample_dispatcher :: "ulid \<Rightarrow> DispatcherState \<Rightarrow> Dispatcher" where
  "sample_dispatcher i st =
     \<lparr>disp_id = DispatcherId i, disp_location = H3Cell 123, disp_state = st,
      disp_provisioned_at = 0\<rparr>"

lemma sample_reading_simps [simp]:
  "rd_id (sample_reading i d) = ReadingId i" "rd_device_id (sample_reading i d) = DeviceId d"
  by (simp_all add: sample_reading_def)

lemma sample_status_simps [simp]:
  "ds_id (sample_status i d b ss) = StatusId i" "ds_device_id (sample_status i d b ss) = DeviceId d"
  "ds_battery_percent (sample_status i d b ss) = Percentage b"
  "ds_sensor_statuses (sample_status i d b ss) = ss"
  by (simp_all add: sample_status_def)

lemma sample_device_simps [simp]:
  "dev_id (sample_device i m) = DeviceId i" "dev_state (sample_device i m) = Device_Active"
  "dev_manufacturer (sample_device i m) = Some m" "dev_sensors (sample_device i m) = []"
  by (simp_all add: sample_device_def)

lemma sample_dispatcher_simps [simp]:
  "disp_id (sample_dispatcher i st) = DispatcherId i" "disp_state (sample_dispatcher i st) = st"
  by (simp_all add: sample_dispatcher_def)

end
