(* ===== verification/Dispatch_Memory.thy ===== *)
theory Dispatch_Memory
  imports Dispatch_Storage Fixtures
begin

text \<open>
  The in-memory store of a dispatcher (\<open>ersha-dispatch/src/storage/memory.rs\<close>): two hash maps
  from identifiers to stored rows.  The error type of the source has no values, so every
  operation succeeds.  The map of readings and the map of statuses have the same shape; the
  locale \<open>stored_rows\<close> holds the reasoning they share and is interpreted for both.
\<close>

datatype StorageState = Pending | Uploaded

record StoredSensorReading =
  ssr_id :: ReadingId
  ssr_reading :: SensorReading
  ssr_state :: StorageState

record StoredDeviceStatus =
  sds_id :: StatusId
  sds_status :: DeviceStatus
  sds_state :: StorageState

record MemoryStorage =
  sensor_readings :: "(ReadingId, StoredSensorReading) hashmap"
  device_statuses :: "(StatusId, StoredDeviceStatus) hashmap"

definition MemoryStorage_default :: MemoryStorage where
  "MemoryStorage_default = \<lparr>sensor_readings = [], device_statuses = []\<rparr>"

subsection \<open>Sensor readings\<close>

definition insert_reading ::
    "SensorReading \<Rightarrow> (ReadingId, StoredSensorReading) hashmap \<Rightarrow> (ReadingId, StoredSensorReading) hashmap"
where
  "insert_reading reading m =
     hm_insert (rd_id reading)
       \<lparr>ssr_id = rd_id reading, ssr_reading = reading, ssr_state = Pending\<rparr> m"

definition mem_store_reading :: "SensorReading \<Rightarrow> MemoryStorage \<Rightarrow> (unit, 'err) result \<times> MemoryStorage" where
  "mem_store_reading reading s =
     (Ok (), s\<lparr>sensor_readings := insert_reading reading (sensor_readings s)\<rparr>)"

definition mem_store_readings :: "SensorReading list \<Rightarrow> MemoryStorage \<Rightarrow> (unit, 'err) result \<times> MemoryStorage" where
  "mem_store_readings readings s =
     (Ok (), s\<lparr>sensor_readings := fold insert_reading readings (sensor_readings s)\<rparr>)"

definition mem_fetch_readings ::
    "(ReadingId, StoredSensorReading) hash_order \<Rightarrow> MemoryStorage \<Rightarrow> (SensorReading list, 'err) result" where
  "mem_fetch_readings ord s =
     Ok (map ssr_reading (filter (\<lambda>r. ssr_state r = Pending) (hm_values ord (sensor_readings s))))"

definition mem_mark_readings :: "ReadingId list \<Rightarrow> MemoryStorage \<Rightarrow> (unit, 'err) result \<times> MemoryStorage" where
  "mem_mark_readings ids s =
     (Ok (), s\<lparr>sensor_readings :=
        fold (\<lambda>id. hm_modify id (\<lambda>entry. entry\<lparr>ssr_state := Uploaded\<rparr>)) ids (sensor_readings s)\<rparr>)"

subsection \<open>Device statuses\<close>

definition insert_status ::
    "DeviceStatus \<Rightarrow> (StatusId, StoredDeviceStatus) hashmap \<Rightarrow> (StatusId, StoredDeviceStatus) hashmap"
where
  "insert_status status m =
     hm_insert (ds_id status)
       \<lparr>sds_id = ds_id status, sds_status = status, sds_state = Pending\<rparr> m"

definition mem_store_status :: "DeviceStatus \<Rightarrow> MemoryStorage \<Rightarrow> (unit, 'err) result \<times> MemoryStorage" where
  "mem_store_status status s =
     (Ok (), s\<lparr>device_statuses := insert_status status (device_statuses s)\<rparr>)"

definition mem_store_statuses :: "DeviceStatus list \<Rightarrow> MemoryStorage \<Rightarrow> (unit, 'err) result \<times> MemoryStorage" where
  "mem_store_statuses statuses s =
     (Ok (), s\<lparr>device_statuses := fold insert_status statuses (device_statuses s)\<rparr>)"

definition mem_fetch_statuses ::
    "(StatusId, StoredDeviceStatus) hash_order \<Rightarrow> MemoryStorage \<Rightarrow> (DeviceStatus list, 'err) result" where
  "mem_fetch_statuses ord s =
     Ok (map sds_status (filter (\<lambda>r. sds_state r = Pending) (hm_values ord (device_statuses s))))"

definition mem_mark_statuses :: "StatusId list \<Rightarrow> MemoryStorage \<Rightarrow> (unit, 'err) result \<times> MemoryStorage" where
  "mem_mark_statuses ids s =
     (Ok (), s\<lparr>device_statuses :=
        fold (\<lambda>id. hm_modify id (\<lambda>entry. entry\<lparr>sds_state := Uploaded\<rparr>)) ids (device_statuses s)\<rparr>)"

text \<open>The trait dictionary of the in-memory store.\<close>

definition memory_ops ::
    "(ReadingId, StoredSensorReading) hash_order \<Rightarrow> (StatusId, StoredDeviceStatus) hash_order \<Rightarrow>
     (MemoryStorage, 'err) storage_ops" where
  "memory_ops ro so =
     \<lparr>op_store_reading = mem_store_reading, op_store_readings = mem_store_readings,
      op_fetch_readings = mem_fetch_readings ro, op_mark_readings = mem_mark_readings,
      op_store_status = mem_store_status, op_store_statuses = mem_store_statuses,
      op_fetch_statuses = mem_fetch_statuses so, op_mark_statuses = mem_mark_statuses\<rparr>"

subsection \<open>Maintenance\<close>

definition mem_get_stats ::
    "(ReadingId, StoredSensorReading) hash_order \<Rightarrow> (StatusId, StoredDeviceStatus) hash_order \<Rightarrow>
     MemoryStorage \<Rightarrow> StorageStats" where
  "mem_get_stats ro so s =
     (let readings_total = length (sensor_readings s);
          readings_pending = length (filter (\<lambda>r. ssr_state r = Pending) (hm_values ro (sensor_readings s)));
          statuses_total = length (device_statuses s);
          statuses_pending = length (filter (\<lambda>r. sds_state r = Pending) (hm_values so (device_statuses s)))
      in \<lparr>sensor_readings_pending = readings_pending,
          sensor_readings_uploaded = readings_total - readings_pending,
          sensor_readings_total = readings_total,
          device_statuses_pending = statuses_pending,
          device_statuses_uploaded = statuses_total - statuses_pending,
          device_statuses_total = statuses_total\<rparr>)"

text \<open>The duration argument of \<open>cleanup_uploaded\<close> is ignored, as in the source.\<close>

definition mem_cleanup_uploaded ::
    "(ReadingId, StoredSensorReading) hash_order \<Rightarrow> (StatusId, StoredDeviceStatus) hash_order \<Rightarrow>
     nat \<Rightarrow> MemoryStorage \<Rightarrow> CleanupStats \<times> MemoryStorage" where
  "mem_cleanup_uploaded ro so older_than s =
     (let sensor_keys = map fst (filter (\<lambda>(_, v). ssr_state v = Uploaded) (iterate ro (sensor_readings s)));
          device_keys = map fst (filter (\<lambda>(_, v). sds_state v = Uploaded) (iterate so (device_statuses s)))
      in (\<lparr>sensor_readings_deleted = length sensor_keys,
           device_statuses_deleted = length device_keys\<rparr>,
          s\<lparr>sensor_readings := fold hm_remove sensor_keys (sensor_readings s),
            device_statuses := fold hm_remove device_keys (device_statuses s)\<rparr>))"

lemmas mem_reading_defs =
  mem_store_reading_def mem_store_readings_def mem_fetch_readings_def mem_mark_readings_def

lemmas mem_status_defs =
  mem_store_status_def mem_store_statuses_def mem_fetch_statuses_def mem_mark_statuses_def

subsection \<open>Rows of a store, generically\<close>

locale stored_rows =
  fixes rid :: "'r \<Rightarrow> 'i" and ev :: "'r \<Rightarrow> 'e" and eid :: "'e \<Rightarrow> 'i"
    and state :: "'r \<Rightarrow> StorageState" and row :: "'e \<Rightarrow> 'r" and upload :: "'r \<Rightarrow> 'r"
  assumes rid_row: "rid (row e) = eid e" and ev_row: "ev (row e) = e"
    and state_row: "state (row e) = Pending"
    and rid_upload: "rid (upload r) = rid r" and ev_upload: "ev (upload r) = ev r"
    and state_upload: "state (upload r) = Uploaded"
    and upload_idem: "upload (upload r) = upload r"
begin

definition rows_inv :: "('i, 'r) hashmap \<Rightarrow> bool" where
  "rows_inv m \<longleftrightarrow> hm_wf m \<and> (\<forall>i r. hm_get m i = Some r \<longrightarrow> rid r = i \<and> eid (ev r) = i)"

definition rows_pend :: "('i, 'r) hashmap \<Rightarrow> 'i \<Rightarrow> 'e option" where
  "rows_pend m i =
     (case hm_get m i of None \<Rightarrow> None | Some r \<Rightarrow> if state r = Pending then Some (ev r) else None)"

lemma rows_inv_insert: "rows_inv m \<Longrightarrow> rows_inv (hm_insert (eid e) (row e) m)"
  by (auto simp: rows_inv_def hm_simps rid_row ev_row)

lemma rows_inv_fold_insert: "rows_inv m \<Longrightarrow> rows_inv (fold (\<lambda>e. hm_insert (eid e) (row e)) es m)"
  by (induction es arbitrary: m) (simp_all add: rows_inv_insert)

lemma rows_inv_modify: "rows_inv m \<Longrightarrow> rows_inv (hm_modify i upload m)"
  by (auto simp: rows_inv_def hm_simps rid_upload ev_upload)

lemma rows_inv_fold_modify: "rows_inv m \<Longrightarrow> rows_inv (fold (\<lambda>i. hm_modify i upload) is m)"
  by (induction "is" arbitrary: m) (simp_all add: rows_inv_modify)

lemma rows_inv_fold_remove: "rows_inv m \<Longrightarrow> rows_inv (fold hm_remove is m)"
  by (auto simp: rows_inv_def hm_simps split: if_splits)

lemma rows_pend_insert: "rows_pend (hm_insert (eid e) (row e) m) = (rows_pend m)(eid e \<mapsto> e)"
  by (rule ext) (simp add: rows_pend_def hm_simps ev_row state_row)

lemma rows_pend_fold_modify:
  "rows_pend (fold (\<lambda>i. hm_modify i upload) is m) = (\<lambda>i. if i \<in> set is then None else rows_pend m i)"
  by (rule ext) (simp add: rows_pend_def hm_simps upload_idem state_upload split: option.split)

lemma pending_rows_mem:
  assumes "rows_inv m"
  shows "rows_pend m i = Some e \<longleftrightarrow>
    e \<in> set (map ev (filter (\<lambda>r. state r = Pending) (hm_values ord m))) \<and> eid e = i"
proof -
  have wf: "hm_wf m" using assms by (simp add: rows_inv_def)
  show ?thesis
    using assms by (auto simp: rows_inv_def rows_pend_def hm_values_mem [OF wf] split: option.splits if_splits)
qed

lemma pending_rows_distinct:
  assumes "rows_inv m"
  shows "distinct (map eid (map ev (filter (\<lambda>r. state r = Pending) (hm_values ord m))))"
proof -
  have "distinct (map (eid \<circ> ev) (hm_values ord m))"
    using assms by (intro distinct_hm_values) (auto simp: rows_inv_def)
  then show ?thesis
    by (simp add: distinct_map_filter)
qed

text \<open>Removing the uploaded rows removes nothing that is pending.\<close>

lemma hm_get_cleanup:
  assumes "hm_wf m"
  shows "hm_get (fold hm_remove (map fst (filter (\<lambda>(_, v). state v = Uploaded) (iterate ord m))) m) i =
    (case hm_get m i of None \<Rightarrow> None | Some r \<Rightarrow> if state r = Pending then Some r else None)"
proof -
  have "i \<in> set (map fst (filter (\<lambda>(_, v). state v = Uploaded) (iterate ord m))) \<longleftrightarrow>
      (\<exists>r. hm_get m i = Some r \<and> state r = Uploaded)"
    using assms by (force simp: hm_get_iff_mem)
  then show ?thesis
    by (auto simp: hm_simps split: option.split) (metis StorageState.exhaust)+
qed

end

interpretation reading_rows: stored_rows ssr_id ssr_reading rd_id ssr_state
    "\<lambda>r. \<lparr>ssr_id = rd_id r, ssr_reading = r, ssr_state = Pending\<rparr>"
    "\<lambda>entry. entry\<lparr>ssr_state := Uploaded\<rparr>"
  by unfold_locales simp_all

interpretation status_rows: stored_rows sds_id sds_status ds_id sds_state
    "\<lambda>r. \<lparr>sds_id = ds_id r, sds_status = r, sds_state = Pending\<rparr>"
    "\<lambda>entry. entry\<lparr>sds_state := Uploaded\<rparr>"
  by unfold_locales simp_all

subsection \<open>The invariant and the abstract content\<close>

definition MemoryStorage_inv :: "MemoryStorage \<Rightarrow> bool" where
  "MemoryStorage_inv s \<longleftrightarrow>
     hm_wf (sensor_readings s) \<and> hm_wf (device_statuses s) \<and>
     (\<forall>i r. hm_get (sensor_readings s) i = Some r \<longrightarrow> ssr_id r = i \<and> rd_id (ssr_reading r) = i) \<and>
     (\<forall>i r. hm_get (device_statuses s) i = Some r \<longrightarrow> sds_id r = i \<and> ds_id (sds_status r) = i)"

lemma MemoryStorage_inv_rows:
  "MemoryStorage_inv s \<longleftrightarrow>
     reading_rows.rows_inv (sensor_readings s) \<and> status_rows.rows_inv (device_statuses s)"
  by (auto simp: MemoryStorage_inv_def reading_rows.rows_inv_def status_rows.rows_inv_def)

definition pending_readings :: "MemoryStorage \<Rightarrow> ReadingId \<Rightarrow> SensorReading option" where
  "pending_readings s i =
     (case hm_get (sensor_readings s) i of
        Some r \<Rightarrow> if ssr_state r = Pending then Some (ssr_reading r) else None
      | None \<Rightarrow> None)"

definition pending_statuses :: "MemoryStorage \<Rightarrow> StatusId \<Rightarrow> DeviceStatus option" where
  "pending_statuses s i =
     (case hm_get (device_statuses s) i of
        Some r \<Rightarrow> if sds_state r = Pending then Some (sds_status r) else None
      | None \<Rightarrow> None)"

lemma pending_readings_rows: "pending_readings s = reading_rows.rows_pend (sensor_readings s)"
  by (rule ext) (simp add: pending_readings_def reading_rows.rows_pend_def split: option.split)

lemma pending_statuses_rows: "pending_statuses s = status_rows.rows_pend (device_statuses s)"
  by (rule ext) (simp add: pending_statuses_def status_rows.rows_pend_def split: option.split)

lemma insert_reading_fun: "insert_reading = (\<lambda>r. hm_insert (rd_id r)
    \<lparr>ssr_id = rd_id r, ssr_reading = r, ssr_state = Pending\<rparr>)"
  by (rule ext)+ (simp add: insert_reading_def)

lemma insert_status_fun: "insert_status = (\<lambda>r. hm_insert (ds_id r)
    \<lparr>sds_id = ds_id r, sds_status = r, sds_state = Pending\<rparr>)"
  by (rule ext)+ (simp add: insert_status_def)

lemma MemoryStorage_inv_default: "MemoryStorage_inv MemoryStorage_default"
  by (simp add: MemoryStorage_inv_def MemoryStorage_default_def)

lemmas mem_inv_simps =
  MemoryStorage_inv_rows insert_reading_fun insert_status_fun
  reading_rows.rows_inv_insert reading_rows.rows_inv_fold_insert reading_rows.rows_inv_fold_modify
  reading_rows.rows_inv_fold_remove
  status_rows.rows_inv_insert status_rows.rows_inv_fold_insert status_rows.rows_inv_fold_modify
  status_rows.rows_inv_fold_remove

subsection \<open>The store implements the trait contracts\<close>

interpretation mem_readings: event_store mem_store_reading "mem_fetch_readings ord" mem_mark_readings
    rd_id "\<lambda>_. True" MemoryStorage_inv pending_readings for ord
proof (unfold_locales, goal_cases)
  case (3 s es)
  then show ?case
    using reading_rows.pending_rows_distinct [of "sensor_readings s" ord]
    by (auto simp: mem_fetch_readings_def MemoryStorage_inv_rows)
next
  case (4 s es i e)
  then show ?case
    using reading_rows.pending_rows_mem [of "sensor_readings s" i e ord]
    by (auto simp: mem_fetch_readings_def MemoryStorage_inv_rows pending_readings_rows)
qed (simp_all add: mem_reading_defs mem_inv_simps pending_readings_rows
       reading_rows.rows_pend_insert reading_rows.rows_pend_fold_modify cong: if_cong)

interpretation mem_statuses: event_store mem_store_status "mem_fetch_statuses ord" mem_mark_statuses
    ds_id "\<lambda>_. True" MemoryStorage_inv pending_statuses for ord
proof (unfold_locales, goal_cases)
  case (3 s es)
  then show ?case
    using status_rows.pending_rows_distinct [of "device_statuses s" ord]
    by (auto simp: mem_fetch_statuses_def MemoryStorage_inv_rows)
next
  case (4 s es i e)
  then show ?case
    using status_rows.pending_rows_mem [of "device_statuses s" i e ord]
    by (auto simp: mem_fetch_statuses_def MemoryStorage_inv_rows pending_statuses_rows)
qed (simp_all add: mem_status_defs mem_inv_simps pending_statuses_rows
       status_rows.rows_pend_insert status_rows.rows_pend_fold_modify cong: if_cong)

interpretation memory_store:
  dispatch_store "memory_ops ro so" "\<lambda>_. True" "\<lambda>_. True" MemoryStorage_inv pending_readings pending_statuses for ro so
proof -
  have "event_store (op_store_reading (memory_ops ro so)) (op_fetch_readings (memory_ops ro so))
      (op_mark_readings (memory_ops ro so)) rd_id (\<lambda>_. True) MemoryStorage_inv pending_readings"
    by (simp add: memory_ops_def mem_readings.event_store_axioms)
  moreover have "event_store (op_store_status (memory_ops ro so)) (op_fetch_statuses (memory_ops ro so))
      (op_mark_statuses (memory_ops ro so)) ds_id (\<lambda>_. True) MemoryStorage_inv pending_statuses"
    by (simp add: memory_ops_def mem_statuses.event_store_axioms)
  ultimately show "dispatch_store (memory_ops ro so) (\<lambda>_. True) (\<lambda>_. True) MemoryStorage_inv pending_readings
      pending_statuses"
    by (simp add: dispatch_store_def dispatch_store_axioms_def memory_ops_def mem_mark_readings_def
        mem_mark_statuses_def pending_readings_rows pending_statuses_rows)
qed

lemma memory_ops_total:
  "fst (op_mark_readings (memory_ops ro so) rids s) = Ok ()"
  "fst (op_mark_statuses (memory_ops ro so) sids s) = Ok ()"
  "\<exists>rs. op_fetch_readings (memory_ops ro so) s = Ok rs"
  "\<exists>sts. op_fetch_statuses (memory_ops ro so) s = Ok sts"
  by (simp_all add: memory_ops_def mem_reading_defs mem_status_defs)

subsection \<open>Runs of the store\<close>

datatype mem_op =
    M_store_reading SensorReading
  | M_store_readings "SensorReading list"
  | M_mark_readings "ReadingId list"
  | M_store_status DeviceStatus
  | M_store_statuses "DeviceStatus list"
  | M_mark_statuses "StatusId list"
  | M_cleanup nat

fun mem_step ::
    "(ReadingId, StoredSensorReading) hash_order \<Rightarrow> (StatusId, StoredDeviceStatus) hash_order \<Rightarrow>
     mem_op \<Rightarrow> MemoryStorage \<Rightarrow> MemoryStorage" where
  "mem_step ro so (M_store_reading r) s = snd (mem_store_reading r s :: (unit, unit) result \<times> _)"
| "mem_step ro so (M_store_readings rs) s = snd (mem_store_readings rs s :: (unit, unit) result \<times> _)"
| "mem_step ro so (M_mark_readings ids) s = snd (mem_mark_readings ids s :: (unit, unit) result \<times> _)"
| "mem_step ro so (M_store_status st) s = snd (mem_store_status st s :: (unit, unit) result \<times> _)"
| "mem_step ro so (M_store_statuses sts) s = snd (mem_store_statuses sts s :: (unit, unit) result \<times> _)"
| "mem_step ro so (M_mark_statuses ids) s = snd (mem_mark_statuses ids s :: (unit, unit) result \<times> _)"
| "mem_step ro so (M_cleanup older_than) s = snd (mem_cleanup_uploaded ro so older_than s)"

lemma mem_step_inv: "MemoryStorage_inv s \<Longrightarrow> MemoryStorage_inv (mem_step ro so oper s)"
  by (cases oper)
    (simp_all add: mem_inv_simps mem_reading_defs mem_status_defs mem_cleanup_uploaded_def Let_def)

lemma mem_run_inv:
  "MemoryStorage_inv s \<Longrightarrow> MemoryStorage_inv (fold (mem_step ro so) ops s)"
  by (induction ops arbitrary: s) (simp_all add: mem_step_inv)

subsection \<open>Statistics and cleanup\<close>

lemma length_filter_Uploaded:
  "length (filter (\<lambda>x. f x = Uploaded) xs) = length xs - length (filter (\<lambda>x. f x = Pending) xs)"
proof -
  have "filter (\<lambda>x. f x = Uploaded) xs = filter (\<lambda>x. \<not> f x = Pending) xs"
    by (rule filter_cong) (auto, metis StorageState.exhaust)
  then show ?thesis
    using sum_length_filter_compl [of "\<lambda>x. f x = Pending" xs] by simp
qed

lemma length_uploaded_entries:
  "length (filter (\<lambda>(_, v). f v = Uploaded) (iterate ord m)) =
     length m - length (filter (\<lambda>v. f v = Pending) (hm_values ord m))"
proof -
  have "length (filter (\<lambda>(_, v). f v = Uploaded) (iterate ord m)) =
      length (filter (\<lambda>v. f v = Uploaded) (hm_values ord m))"
    by (simp add: hm_values_def filter_map comp_def case_prod_unfold)
  then show ?thesis by (simp add: length_filter_Uploaded)
qed

subsection \<open>Properties\<close>

text \<open>The results below are stated at the error type \<open>unit\<close>; no operation produces an error.\<close>

type_synonym 'a ures = "('a, unit) result"

abbreviation store_readings_each :: "SensorReading list \<Rightarrow> MemoryStorage \<Rightarrow> MemoryStorage" where
  "store_readings_each \<equiv> store_each (mem_store_reading :: _ \<Rightarrow> _ \<Rightarrow> unit ures \<times> _)"

abbreviation store_statuses_each :: "DeviceStatus list \<Rightarrow> MemoryStorage \<Rightarrow> MemoryStorage" where
  "store_statuses_each \<equiv> store_each (mem_store_status :: _ \<Rightarrow> _ \<Rightarrow> unit ures \<times> _)"

text \<open>
  C17.  No interleaving of the collector and the uploader loses a reading.  Between fetching a
  batch and marking it as uploaded, the collector may store other readings \<open>new\<close> (with
  identifiers not in the batch): the next fetch returns exactly those.
\<close>

theorem mem_upload_keeps_new_readings:
  assumes "MemoryStorage_inv s"
    and "mem_fetch_readings ro s = (Ok batch :: SensorReading list ures)"
    and "rd_id ` set new \<inter> rd_id ` set batch = {}" and "distinct (map rd_id new)"
  shows "\<exists>batch'. mem_fetch_readings ro
      (snd (mem_mark_readings (map rd_id batch) (store_readings_each new s) :: unit ures \<times> _)) =
      (Ok batch' :: SensorReading list ures) \<and> set batch' = set new"
proof -
  have ok: "fst (mem_store_reading r t :: unit ures \<times> _) = Ok ()"
      "fst (mem_mark_readings ids t :: unit ures \<times> _) = Ok ()"
      "\<exists>rs. mem_fetch_readings ro t = (Ok rs :: SensorReading list ures)" for r ids t
    by (simp_all add: mem_reading_defs)
  then show ?thesis
    using mem_readings.fetch_after_upload [OF assms(1,2) ok(1,2) assms(3,4)]
    by simp blast
qed

theorem mem_upload_keeps_new_readings_witness:
  "\<exists>batch'. mem_fetch_readings backward_order
      (snd (mem_mark_readings [ReadingId 1]
         (store_readings_each [sample_reading 2 5, sample_reading 3 5]
           (snd (mem_store_reading (sample_reading 1 5) MemoryStorage_default :: unit ures \<times> _)))
         :: unit ures \<times> _)) =
      (Ok batch' :: SensorReading list ures) \<and>
    set batch' = {sample_reading 2 5, sample_reading 3 5}"
proof -
  let ?s = "snd (mem_store_reading (sample_reading 1 5) MemoryStorage_default :: unit ures \<times> _)"
  have inv: "MemoryStorage_inv ?s"
    by (simp add: mem_store_reading_def mem_inv_simps MemoryStorage_inv_default
        flip: MemoryStorage_inv_rows) (simp add: mem_inv_simps reading_rows.rows_inv_def
        status_rows.rows_inv_def MemoryStorage_default_def hm_simps)
  have "mem_fetch_readings backward_order ?s = (Ok [sample_reading 1 5] :: SensorReading list ures)"
    by (simp add: mem_reading_defs MemoryStorage_default_def insert_reading_def hm_insert_def hm_values_def)
  from mem_upload_keeps_new_readings [OF inv this, of "[sample_reading 2 5, sample_reading 3 5]"]
  show ?thesis by simp
qed

text \<open>
  The same for device statuses.
\<close>

lemma mem_upload_keeps_new_statuses:
  assumes "MemoryStorage_inv s"
    and "mem_fetch_statuses so s = (Ok batch :: DeviceStatus list ures)"
    and "ds_id ` set new \<inter> ds_id ` set batch = {}" and "distinct (map ds_id new)"
  shows "\<exists>batch'. mem_fetch_statuses so
      (snd (mem_mark_statuses (map ds_id batch) (store_statuses_each new s) :: unit ures \<times> _)) =
      (Ok batch' :: DeviceStatus list ures) \<and> set batch' = set new"
proof -
  have ok: "fst (mem_store_status r t :: unit ures \<times> _) = Ok ()"
      "fst (mem_mark_statuses ids t :: unit ures \<times> _) = Ok ()"
      "\<exists>rs. mem_fetch_statuses so t = (Ok rs :: DeviceStatus list ures)" for r ids t
    by (simp_all add: mem_status_defs)
  then show ?thesis
    using mem_statuses.fetch_after_upload [OF assms(1,2) ok(1,2) assms(3,4)]
    by simp blast
qed

text \<open>
  Every sequence of operations of the in-memory store, from the empty store and with every
  iteration order, keeps its invariant: the keys of both maps are distinct and every row is
  stored under the identifier of its event.
\<close>

lemma mem_reachable_inv:
  "MemoryStorage_inv (fold (mem_step ro so) ops MemoryStorage_default)"
  by (rule mem_run_inv [OF MemoryStorage_inv_default])

text \<open>
  The statistics agree with the content: the pending count is the size of the batch the
  next upload fetches, pending and uploaded add up to the total (the subtraction of the source
  never underflows), and cleaning up deletes as many rows as the statistics call uploaded.
\<close>

lemma mem_stats_correct:
  "mem_fetch_readings ro s = (Ok readings :: SensorReading list ures) \<Longrightarrow>
   mem_fetch_statuses so s = (Ok statuses :: DeviceStatus list ures) \<Longrightarrow>
   sensor_readings_pending (mem_get_stats ro so s) = length readings \<and>
   device_statuses_pending (mem_get_stats ro so s) = length statuses \<and>
   sensor_readings_pending (mem_get_stats ro so s) + sensor_readings_uploaded (mem_get_stats ro so s) =
     sensor_readings_total (mem_get_stats ro so s) \<and>
   device_statuses_pending (mem_get_stats ro so s) + device_statuses_uploaded (mem_get_stats ro so s) =
     device_statuses_total (mem_get_stats ro so s) \<and>
   sensor_readings_deleted (fst (mem_cleanup_uploaded ro so t s)) =
     sensor_readings_uploaded (mem_get_stats ro so s) \<and>
   device_statuses_deleted (fst (mem_cleanup_uploaded ro so t s)) =
     device_statuses_uploaded (mem_get_stats ro so s)"
  using length_filter_le [of "\<lambda>r. ssr_state r = Pending" "hm_values ro (sensor_readings s)"]
    length_filter_le [of "\<lambda>r. sds_state r = Pending" "hm_values so (device_statuses s)"]
  by (auto simp: mem_get_stats_def mem_fetch_readings_def mem_fetch_statuses_def
      mem_cleanup_uploaded_def Let_def length_uploaded_entries)

text \<open>
  Cleaning up removes exactly the uploaded rows: every pending event stays pending, and no
  row of the cleaned store is in the uploaded state.
\<close>

lemma mem_cleanup_correct:
  assumes "MemoryStorage_inv s"
  shows "pending_readings (snd (mem_cleanup_uploaded ro so t s)) = pending_readings s \<and>
    pending_statuses (snd (mem_cleanup_uploaded ro so t s)) = pending_statuses s \<and>
    (\<forall>i r. hm_get (sensor_readings (snd (mem_cleanup_uploaded ro so t s))) i = Some r \<longrightarrow>
       ssr_state r = Pending) \<and>
    (\<forall>i r. hm_get (device_statuses (snd (mem_cleanup_uploaded ro so t s))) i = Some r \<longrightarrow>
       sds_state r = Pending)"
proof -
  have wf: "hm_wf (sensor_readings s)" "hm_wf (device_statuses s)"
    using assms by (simp_all add: MemoryStorage_inv_def)
  show ?thesis
    by (auto simp: mem_cleanup_uploaded_def Let_def pending_readings_def pending_statuses_def
        reading_rows.hm_get_cleanup [OF wf(1)] status_rows.hm_get_cleanup [OF wf(2)] fun_eq_iff
        split: option.split if_splits)
qed

end
