(* ===== verification/Rpc_Frame.thy ===== *)
theory Rpc_Frame
  imports Core_Types
begin

text \<open>
  Messages and framing of \<open>ersha-rpc\<close> (\<open>message.rs\<close>, \<open>frame.rs\<close>).  A frame is a big-endian
  \<open>u32\<close> length followed by that many bytes, the postcard encoding of an envelope.

  Two things are not code of the repository and are arguments of the definitions.  The codec
  (\<open>postcard::to_stdvec\<close>, \<open>postcard::from_bytes\<close>) is a pair of functions; where a theorem needs
  it, the hypothesis \<open>codec_roundtrip\<close> says that decoding inverts encoding.  The asynchronous
  streams are functions that write bytes, flush, and read an exact number of bytes; the
  theorems about whole frames use the reliable byte stream \<open>pipe_write\<close>, \<open>pipe_read_exact\<close>,
  the behaviour of \<open>tokio::io::duplex\<close> on which the source tests the framing.
\<close>

subsection \<open>Messages\<close>

datatype MessageId = MessageId (message_ulid: ulid)

datatype WireErrorCode = BadRequest | Unsupported | Internal

record WireError =
  we_code :: WireErrorCode
  we_message :: string

datatype WireMessage =
    Ping
  | Pong
  | MsgHelloRequest HelloRequest
  | MsgHelloResponse HelloResponse
  | MsgBatchUploadRequest BatchUploadRequest
  | MsgBatchUploadResponse BatchUploadResponse
  | MsgAlertRequest AlertRequest
  | MsgAlertResponse AlertResponse
  | MsgDispatcherStatusRequest DispatcherStatusRequest
  | MsgDispatcherStatusResponse DispatcherStatusResponse
  | MsgDeviceDisconnectionRequest DeviceDisconnectionRequest
  | MsgDeviceDisconnectionResponse DeviceDisconnectionResponse
  | MsgError WireError

record Envelope =
  msg_id :: MessageId
  reply_to :: "MessageId option"
  payload :: WireMessage

subsection \<open>Frames\<close>

datatype ('pe, 'io) FrameError = Postcard 'pe | FrameTooLarge | Io 'io

definition MAX_FRAME_BYTES :: u32 where
  "MAX_FRAME_BYTES = 2000000"

definition write_frame ::
    "(Envelope \<Rightarrow> (bytes, 'pe) result) \<Rightarrow> (bytes \<Rightarrow> 'w \<Rightarrow> (unit, 'io) result \<times> 'w) \<Rightarrow>
     ('w \<Rightarrow> (unit, 'io) result \<times> 'w) \<Rightarrow> Envelope \<Rightarrow> 'w \<Rightarrow>
     (unit, ('pe, 'io) FrameError) result \<times> 'w" where
  "write_frame to_stdvec write_all flush msg w =
     (case to_stdvec msg of
        Inl e \<Rightarrow> (Err (Postcard e), w)
      | Inr bs \<Rightarrow>
          let len = usize_as_u32 (length bs)
          in if MAX_FRAME_BYTES < len then (Err FrameTooLarge, w)
             else
               (case write_all (be_bytes 4 (unat len)) w of
                  (Inl e, w1) \<Rightarrow> (Err (Io e), w1)
                | (Inr _, w1) \<Rightarrow>
                    (case write_all bs w1 of
                       (Inl e, w2) \<Rightarrow> (Err (Io e), w2)
                     | (Inr _, w2) \<Rightarrow>
                         (case flush w2 of
                            (Inl e, w3) \<Rightarrow> (Err (Io e), w3)
                          | (Inr _, w3) \<Rightarrow> (Ok (), w3)))))"

definition read_frame ::
    "(bytes \<Rightarrow> (Envelope, 'pe) result) \<Rightarrow> (nat \<Rightarrow> 'r \<Rightarrow> (bytes, 'io) result \<times> 'r) \<Rightarrow> 'r \<Rightarrow>
     (Envelope, ('pe, 'io) FrameError) result \<times> 'r" where
  "read_frame from_bytes read_exact r =
     (case read_exact 4 r of
        (Inl e, r1) \<Rightarrow> (Err (Io e), r1)
      | (Inr hdr, r1) \<Rightarrow>
          let len = (of_nat (be_value hdr) :: u32)
          in if MAX_FRAME_BYTES < len then (Err FrameTooLarge, r1)
             else
               (case read_exact (unat len) r1 of
                  (Inl e, r2) \<Rightarrow> (Err (Io e), r2)
                | (Inr buf, r2) \<Rightarrow>
                    (case from_bytes buf of
                       Inl e \<Rightarrow> (Err (Postcard e), r2)
                     | Inr msg \<Rightarrow> (Ok msg, r2))))"

definition codec_roundtrip :: "('m \<Rightarrow> (bytes, 'pe) result) \<Rightarrow> (bytes \<Rightarrow> ('m, 'pe) result) \<Rightarrow> bool" where
  "codec_roundtrip enc dec \<longleftrightarrow> (\<forall>m bs. enc m = Ok bs \<longrightarrow> dec bs = Ok m)"

subsection \<open>A reliable byte stream\<close>

datatype io_error = UnexpectedEof | BrokenPipe

definition pipe_write :: "bytes \<Rightarrow> bytes \<Rightarrow> (unit, io_error) result \<times> bytes" where
  "pipe_write bs w = (Ok (), w @ bs)"

definition pipe_flush :: "bytes \<Rightarrow> (unit, io_error) result \<times> bytes" where
  "pipe_flush w = (Ok (), w)"

definition pipe_read_exact :: "nat \<Rightarrow> bytes \<Rightarrow> (bytes, io_error) result \<times> bytes" where
  "pipe_read_exact n r = (if n \<le> length r then (Ok (take n r), drop n r) else (Err UnexpectedEof, []))"

lemmas pipe_defs = pipe_write_def pipe_flush_def pipe_read_exact_def

abbreviation pipe_write_frame where
  "pipe_write_frame enc \<equiv> write_frame enc pipe_write pipe_flush"

abbreviation pipe_read_frame where
  "pipe_read_frame dec \<equiv> read_frame dec pipe_read_exact"

text \<open>Frames written, and read, one after the other, up to the first error.\<close>

fun write_frames :: "(Envelope \<Rightarrow> (bytes, 'pe) result) \<Rightarrow> Envelope list \<Rightarrow> bytes \<Rightarrow>
    (unit, ('pe, io_error) FrameError) result \<times> bytes" where
  "write_frames enc [] w = (Ok (), w)"
| "write_frames enc (m # ms) w =
     (case pipe_write_frame enc m w of
        (Inl e, w') \<Rightarrow> (Err e, w')
      | (Inr _, w') \<Rightarrow> write_frames enc ms w')"

fun read_frames :: "(bytes \<Rightarrow> (Envelope, 'pe) result) \<Rightarrow> nat \<Rightarrow> bytes \<Rightarrow>
    (Envelope list, ('pe, io_error) FrameError) result \<times> bytes" where
  "read_frames dec 0 r = (Ok [], r)"
| "read_frames dec (Suc n) r =
     (case pipe_read_frame dec r of
        (Inl e, r') \<Rightarrow> (Err e, r')
      | (Inr m, r') \<Rightarrow>
          (case read_frames dec n r' of
             (Inl e, r'') \<Rightarrow> (Err e, r'')
           | (Inr ms, r'') \<Rightarrow> (Ok (m # ms), r'')))"

subsection \<open>Lemmas\<close>

lemma MAX_FRAME_BYTES_less_iff: "MAX_FRAME_BYTES < len \<longleftrightarrow> 2000000 < unat len"
  by (simp add: MAX_FRAME_BYTES_def word_less_nat_alt)

lemma pipe_write_frame_eq:
  assumes "enc m = Ok bs" and "length bs mod 2 ^ 32 \<le> 2000000"
  shows "pipe_write_frame enc m w = (Ok (), w @ be_bytes 4 (length bs mod 2 ^ 32) @ bs)"
  using assms
  by (simp add: write_frame_def MAX_FRAME_BYTES_less_iff unat_usize_as_u32 pipe_defs)

lemma pipe_write_frame_OkD:
  assumes "pipe_write_frame enc m w = (Ok u, w')"
  obtains bs where "enc m = Ok bs" and "length bs mod 2 ^ 32 \<le> 2000000"
    and "w' = w @ be_bytes 4 (length bs mod 2 ^ 32) @ bs"
proof (cases "enc m")
  case (Inl e)
  with assms show ?thesis by (simp add: write_frame_def)
next
  case (Inr bs)
  with assms have "length bs mod 2 ^ 32 \<le> 2000000"
    by (auto simp: write_frame_def MAX_FRAME_BYTES_less_iff unat_usize_as_u32 Let_def split: if_splits)
  with pipe_write_frame_eq [of enc m bs w] Inr assms show ?thesis
    by (intro that [OF Inr]) auto
qed

lemma pipe_read_frame_eq:
  assumes "length bs \<le> 2000000"
  shows "pipe_read_frame dec (be_bytes 4 (length bs) @ bs @ rest) =
    (case dec bs of Inl e \<Rightarrow> (Err (Postcard e), rest) | Inr m \<Rightarrow> (Ok m, rest))"
proof -
  have "be_value (be_bytes 4 (length bs)) = length bs"
    using assms by (simp add: be_value_be_bytes)
  moreover have "unat (of_nat (length bs) :: u32) = length bs"
    using assms by (simp add: unat_of_nat)
  ultimately show ?thesis
    using assms by (simp add: read_frame_def pipe_defs MAX_FRAME_BYTES_less_iff)
qed

lemma frame_roundtrip:
  assumes "codec_roundtrip enc dec" and "\<forall>bs. enc m = Ok bs \<longrightarrow> length bs < 2 ^ 32"
    and "pipe_write_frame enc m w = (Ok u, w')"
  obtains f where "w' = w @ f" and "\<And>rest. pipe_read_frame dec (f @ rest) = (Ok m, rest)"
proof -
  obtain bs where bs: "enc m = Ok bs" "length bs mod 2 ^ 32 \<le> 2000000"
      "w' = w @ be_bytes 4 (length bs mod 2 ^ 32) @ bs"
    using assms(3) by (rule pipe_write_frame_OkD)
  then have len: "length bs mod 2 ^ 32 = length bs" using assms(2) by simp
  have "dec bs = Ok m" using assms(1) bs(1) by (simp add: codec_roundtrip_def)
  with bs len show ?thesis
    using pipe_read_frame_eq [of bs dec]
    by (intro that [of "be_bytes 4 (length bs) @ bs"]) auto
qed

lemma write_frames_roundtrip:
  assumes "codec_roundtrip enc dec" and "\<forall>m\<in>set ms. \<forall>bs. enc m = Ok bs \<longrightarrow> length bs < 2 ^ 32"
    and "write_frames enc ms w = (Ok u, w')"
  shows "\<exists>f. w' = w @ f \<and> (\<forall>rest. read_frames dec (length ms) (f @ rest) = (Ok ms, rest))"
  using assms(2,3)
proof (induction ms arbitrary: w)
  case (Cons m ms)
  from Cons.prems(2) obtain v w1 where w1: "pipe_write_frame enc m w = (Ok v, w1)"
      "write_frames enc ms w1 = (Ok u, w')"
    by (auto split: prod.splits sum.splits)
  obtain f where f: "w1 = w @ f" "\<And>rest. pipe_read_frame dec (f @ rest) = (Ok m, rest)"
    using frame_roundtrip [OF assms(1) _ w1(1)] Cons.prems(1) by auto
  obtain g where "w' = w1 @ g" "\<And>rest. read_frames dec (length ms) (g @ rest) = (Ok ms, rest)"
    using Cons.IH [OF _ w1(2)] Cons.prems(1) by auto
  with f show ?case by (intro exI [of _ "f @ g"]) simp
qed simp

subsection \<open>Properties\<close>


text \<open>A codec for two envelopes, to run the framing on.\<close>

definition ping_envelope :: "ulid \<Rightarrow> Envelope" where
  "ping_envelope i = \<lparr>msg_id = MessageId i, reply_to = None, payload = Ping\<rparr>"

definition ping_encode :: "Envelope \<Rightarrow> (bytes, unit) result" where
  "ping_encode m =
     (if m = ping_envelope 1 then Ok [1, 0, 0] else if m = ping_envelope 2 then Ok [2, 0, 0] else Err ())"

definition ping_decode :: "bytes \<Rightarrow> (Envelope, unit) result" where
  "ping_decode bs =
     (if bs = [1, 0, 0] then Ok (ping_envelope 1)
      else if bs = [2, 0, 0] then Ok (ping_envelope 2) else Err ())"

lemma ping_codec_roundtrip: "codec_roundtrip ping_encode ping_decode"
  by (auto simp: codec_roundtrip_def ping_encode_def ping_decode_def split: if_splits)


text \<open>
  A message whose encoding exceeds the limit (and is shorter than 4 GiB) is refused before
  anything is written: the writer is unchanged.
\<close>

lemma write_frame_too_large:
  assumes "to_stdvec msg = Ok bs" and "2000000 < length bs" and "length bs < 2 ^ 32"
  shows "write_frame to_stdvec write_all flush msg w = (Err FrameTooLarge, w)"
  using assms by (simp add: write_frame_def MAX_FRAME_BYTES_less_iff)

text \<open>
  The length guard compares the length modulo 2^32.  An encoding of 2^32 + k bytes with
  k at most 2,000,000 passes it: the frame is sent with the header k in front of all 2^32 + k
  bytes, so a reader takes only the first k bytes for the message.
\<close>

lemma write_frame_length_wraps:
  assumes "to_stdvec msg = Ok bs" and "length bs = 2 ^ 32 + k" and "k \<le> 2000000"
  shows "pipe_write_frame to_stdvec msg w = (Ok (), w @ be_bytes 4 k @ bs)"
  using assms by (simp add: pipe_write_frame_eq)

text \<open>
  A reader never accepts a frame longer than the limit: a header above it is refused right
  after its four bytes, and an accepted envelope is the decoding of at most 2,000,000 bytes that
  follow the header.
\<close>

lemma read_frame_bounded:
  "length r \<ge> 4 \<Longrightarrow>
   pipe_read_frame dec r =
     (let n = be_value (take 4 r)
      in if 2000000 < n then (Err FrameTooLarge, drop 4 r)
         else if length r < 4 + n then (Err (Io UnexpectedEof), [])
         else (case dec (take n (drop 4 r)) of
                 Inl e \<Rightarrow> (Err (Postcard e), drop (4 + n) r)
               | Inr m \<Rightarrow> (Ok m, drop (4 + n) r)))"
proof -
  assume len: "length r \<ge> 4"
  have "be_value (take 4 r) < 2 ^ 32"
    using be_value_bound [of "take 4 r"] len by simp
  then have "unat (of_nat (be_value (take 4 r)) :: u32) = be_value (take 4 r)"
    by (simp add: unat_of_nat)
  with len show ?thesis
    by (auto simp: read_frame_def pipe_defs MAX_FRAME_BYTES_less_iff Let_def add.commute
        split: sum.splits)
qed

end
