(* ===== verification/Rpc_Conn.thy ===== *)
theory Rpc_Conn
  imports Rpc_Frame "HOL-Library.Sublist"
begin

text \<open>
  A multiplexed connection (\<open>ersha-rpc/src/rpc.rs\<close>): a writer task that drains the outgoing
  channel, a reader task that routes replies to their callers and everything else to the
  incoming channel, and the methods \<open>send\<close>, \<open>recv\<close>, \<open>call\<close> and \<open>reply\<close>.

  The tasks interleave at their await points, so each function below is the code between two
  of them, and an execution is a list of such actions (\<open>rpc_run\<close>).  A function that would wait
  (a full channel, an empty channel, an unanswered call) returns \<open>None\<close>: the action is not
  enabled.  A oneshot channel belongs to one call and is the field \<open>call_slot\<close> of it; the
  pending map holds the index of the call.  Fresh message identifiers and what the stream does
  are arguments of the actions.
\<close>

subsection \<open>State\<close>

datatype RpcError = SendError Envelope | ChannelClosed | RpcTimeout

datatype oneshot = Slot_empty | Slot_filled Envelope | Slot_closed

text \<open>
  A call is sending its request, waiting for the reply, about to take its entry out of the
  pending map because of an error, or has returned.
\<close>

datatype call_phase = Sending | Waiting | Leaving RpcError | Returned "(Envelope, RpcError) result"

record rpc_call =
  call_msg_id :: MessageId
  call_payload :: WireMessage
  call_phase :: call_phase
  call_slot :: oneshot

datatype reader = Reading | Forwarding Envelope | Reader_stopped "Envelope option"

text \<open>
  \<open>tx_out\<close> and \<open>rx_in\<close> are the contents of the two channels, \<open>written\<close> the frames on the wire
  and \<open>received\<close> what \<open>recv\<close> has returned.
\<close>

record RpcTcp =
  buffer :: nat
  tx_out :: "Envelope list"
  writer_up :: bool
  written :: "Envelope list"
  reader :: reader
  rx_in :: "Envelope list"
  rx_open :: bool
  received :: "Envelope list"
  pending :: "(MessageId, nat) hashmap"
  calls :: "rpc_call list"

definition RpcTcp_new :: "nat \<Rightarrow> RpcTcp" where
  "RpcTcp_new n =
     \<lparr>buffer = n, tx_out = [], writer_up = True, written = [], reader = Reading, rx_in = [],
      rx_open = True, received = [], pending = [], calls = []\<rparr>"

subsection \<open>The methods\<close>

text \<open>\<open>self.tx.send(env)\<close>: an error once the writer is gone, otherwise wait for room.\<close>

definition channel_send :: "Envelope \<Rightarrow> RpcTcp \<Rightarrow> ((unit, RpcError) result \<times> RpcTcp) option" where
  "channel_send env s =
     (if \<not> writer_up s then Some (Err (SendError env), s)
      else if length (tx_out s) < buffer s then Some (Ok (), s\<lparr>tx_out := tx_out s @ [env]\<rparr>)
      else None)"

definition rpc_send ::
    "MessageId \<Rightarrow> WireMessage \<Rightarrow> RpcTcp \<Rightarrow> ((MessageId, RpcError) result \<times> RpcTcp) option" where
  "rpc_send new_id p s =
     (let env = \<lparr>msg_id = new_id, reply_to = None, payload = p\<rparr>
      in map_option (\<lambda>(r, s'). (map_sum id (\<lambda>_. new_id) r, s')) (channel_send env s))"

definition rpc_reply ::
    "MessageId \<Rightarrow> MessageId \<Rightarrow> WireMessage \<Rightarrow> RpcTcp \<Rightarrow> ((MessageId, RpcError) result \<times> RpcTcp) option"
where
  "rpc_reply new_id request_msg_id p s =
     (let env = \<lparr>msg_id = new_id, reply_to = Some request_msg_id, payload = p\<rparr>
      in map_option (\<lambda>(r, s'). (map_sum id (\<lambda>_. new_id) r, s')) (channel_send env s))"

text \<open>
  \<open>recv\<close> returns \<open>None\<close> (here \<open>Some (None, _)\<close>) once the reader has ended and the channel is
  empty.
\<close>

definition rpc_recv :: "RpcTcp \<Rightarrow> (Envelope option \<times> RpcTcp) option" where
  "rpc_recv s =
     (case rx_in s of
        env # envs \<Rightarrow> Some (Some env, s\<lparr>rx_in := envs, received := received s @ [env]\<rparr>)
      | [] \<Rightarrow> (case reader s of Reader_stopped _ \<Rightarrow> Some (None, s) | _ \<Rightarrow> None))"

text \<open>
  \<open>call\<close>, up to its first await: the waiter is registered before the request is sent.  If the
  map held another waiter under the same identifier, that one's sender is dropped.
\<close>

definition call_begin :: "MessageId \<Rightarrow> WireMessage \<Rightarrow> RpcTcp \<Rightarrow> RpcTcp" where
  "call_begin new_id p s =
     (let i = length (calls s);
          cs = (case hm_get (pending s) new_id of
                  None \<Rightarrow> calls s
                | Some j \<Rightarrow> (calls s)[j := (calls s ! j)\<lparr>call_slot := Slot_closed\<rparr>]);
          c = \<lparr>call_msg_id = new_id, call_payload = p, call_phase = Sending, call_slot = Slot_empty\<rparr>
      in s\<lparr>pending := hm_insert new_id i (pending s), calls := cs @ [c]\<rparr>)"

definition set_phase :: "nat \<Rightarrow> call_phase \<Rightarrow> RpcTcp \<Rightarrow> RpcTcp" where
  "set_phase i ph s = s\<lparr>calls := (calls s)[i := (calls s ! i)\<lparr>call_phase := ph\<rparr>]\<rparr>"

definition call_send :: "nat \<Rightarrow> RpcTcp \<Rightarrow> RpcTcp option" where
  "call_send i s =
     (let c = calls s ! i; env = \<lparr>msg_id = call_msg_id c, reply_to = None, payload = call_payload c\<rparr>
      in if i < length (calls s) \<and> call_phase c = Sending
         then (case channel_send env s of
                 None \<Rightarrow> None
               | Some (Inl e, s') \<Rightarrow> Some (set_phase i (Leaving e) s')
               | Some (Inr _, s') \<Rightarrow> Some (set_phase i Waiting s'))
         else None)"

text \<open>
  The wait for the reply.  \<open>tokio::time::timeout\<close> looks at the reply before it looks at the
  clock, so the deadline counts only while the slot is empty.
\<close>

definition call_wait :: "bool \<Rightarrow> nat \<Rightarrow> RpcTcp \<Rightarrow> RpcTcp option" where
  "call_wait elapsed i s =
     (if i < length (calls s) \<and> call_phase (calls s ! i) = Waiting
      then (case call_slot (calls s ! i) of
              Slot_filled env \<Rightarrow> Some (set_phase i (Returned (Ok env)) s)
            | Slot_closed \<Rightarrow> Some (set_phase i (Returned (Err ChannelClosed)) s)
            | Slot_empty \<Rightarrow> if elapsed then Some (set_phase i (Leaving RpcTimeout) s) else None)
      else None)"

text \<open>The two error paths: the entry leaves the pending map and the error is returned.\<close>

definition call_leave :: "nat \<Rightarrow> RpcTcp \<Rightarrow> RpcTcp option" where
  "call_leave i s =
     (if i < length (calls s)
      then (case call_phase (calls s ! i) of
              Leaving e \<Rightarrow>
                Some (set_phase i (Returned (Err e))
                  (s\<lparr>pending := hm_remove (call_msg_id (calls s ! i)) (pending s)\<rparr>))
            | _ \<Rightarrow> None)
      else None)"

subsection \<open>The tasks\<close>

text \<open>The writer takes one envelope and writes it; an error ends it and drops the channel.\<close>

definition writer_step :: "bool \<Rightarrow> RpcTcp \<Rightarrow> RpcTcp option" where
  "writer_step ok s =
     (case tx_out s of
        env # envs \<Rightarrow>
          if \<not> writer_up s then None
          else if ok then Some (s\<lparr>tx_out := envs, written := written s @ [env]\<rparr>)
          else Some (s\<lparr>tx_out := [], writer_up := False\<rparr>)
      | [] \<Rightarrow> None)"

text \<open>The reader gets the result of \<open>read_frame\<close>: \<open>None\<close> stands for any error.\<close>

definition reader_step :: "Envelope option \<Rightarrow> RpcTcp \<Rightarrow> RpcTcp option" where
  "reader_step frame s =
     (if reader s \<noteq> Reading then None
      else case frame of
        None \<Rightarrow> Some (s\<lparr>reader := Reader_stopped None\<rparr>)
      | Some msg \<Rightarrow>
          (case reply_to msg of
             None \<Rightarrow> Some (s\<lparr>reader := Forwarding msg\<rparr>)
           | Some k \<Rightarrow>
               (case hm_get (pending s) k of
                  None \<Rightarrow> Some (s\<lparr>reader := Forwarding msg\<rparr>)
                | Some i \<Rightarrow>
                    Some (s\<lparr>pending := hm_remove k (pending s),
                            calls := (calls s)[i := (calls s ! i)\<lparr>call_slot := Slot_filled msg\<rparr>]\<rparr>))))"

definition reader_forward :: "RpcTcp \<Rightarrow> RpcTcp option" where
  "reader_forward s =
     (case reader s of
        Forwarding msg \<Rightarrow>
          if \<not> rx_open s then Some (s\<lparr>reader := Reader_stopped (Some msg)\<rparr>)
          else if length (rx_in s) < buffer s
          then Some (s\<lparr>reader := Reading, rx_in := rx_in s @ [msg]\<rparr>)
          else None
      | _ \<Rightarrow> None)"

subsection \<open>Executions\<close>

datatype rpc_action =
    Act_send MessageId WireMessage
  | Act_reply MessageId MessageId WireMessage
  | Act_recv
  | Act_call MessageId WireMessage
  | Act_call_send nat
  | Act_call_wait bool nat
  | Act_call_leave nat
  | Act_write bool
  | Act_read "Envelope option"
  | Act_forward
  | Act_drop_receiver

fun rpc_act :: "rpc_action \<Rightarrow> RpcTcp \<Rightarrow> RpcTcp option" where
  "rpc_act (Act_send i p) s = map_option snd (rpc_send i p s)"
| "rpc_act (Act_reply i r p) s = map_option snd (rpc_reply i r p s)"
| "rpc_act Act_recv s = map_option snd (rpc_recv s)"
| "rpc_act (Act_call i p) s = Some (call_begin i p s)"
| "rpc_act (Act_call_send i) s = call_send i s"
| "rpc_act (Act_call_wait elapsed i) s = call_wait elapsed i s"
| "rpc_act (Act_call_leave i) s = call_leave i s"
| "rpc_act (Act_write ok) s = writer_step ok s"
| "rpc_act (Act_read frame) s = reader_step frame s"
| "rpc_act Act_forward s = reader_forward s"
| "rpc_act Act_drop_receiver s = Some (s\<lparr>rx_open := False\<rparr>)"

inductive rpc_run :: "RpcTcp \<Rightarrow> rpc_action list \<Rightarrow> RpcTcp \<Rightarrow> bool" where
  rpc_run_refl: "rpc_run s [] s"
| rpc_run_snoc: "rpc_run s acts t \<Longrightarrow> rpc_act a t = Some u \<Longrightarrow> rpc_run s (acts @ [a]) u"

fun frames_read :: "rpc_action list \<Rightarrow> Envelope list" where
  "frames_read [] = []"
| "frames_read (Act_read (Some m) # acts) = m # frames_read acts"
| "frames_read (_ # acts) = frames_read acts"

fun call_ids :: "rpc_action list \<Rightarrow> MessageId list" where
  "call_ids [] = []"
| "call_ids (Act_call i _ # acts) = i # call_ids acts"
| "call_ids (_ # acts) = call_ids acts"

subsection \<open>Invariants\<close>

definition call_live :: "rpc_call \<Rightarrow> bool" where
  "call_live c \<longleftrightarrow> (\<forall>r. call_phase c \<noteq> Returned r)"

text \<open>Every filled slot holds a frame that was read and that replies to the slot's call.\<close>

definition call_ok :: "Envelope list \<Rightarrow> rpc_call \<Rightarrow> bool" where
  "call_ok fr c \<longleftrightarrow>
     (\<forall>env. call_slot c = Slot_filled env \<longrightarrow> reply_to env = Some (call_msg_id c) \<and> env \<in> set fr) \<and>
     (\<forall>env. call_phase c = Returned (Ok env) \<longrightarrow> call_slot c = Slot_filled env)"

definition pending_ok :: "rpc_call list \<Rightarrow> MessageId \<Rightarrow> nat \<Rightarrow> bool" where
  "pending_ok cs k i \<longleftrightarrow>
     i < length cs \<and> call_msg_id (cs ! i) = k \<and> call_slot (cs ! i) = Slot_empty \<and> call_live (cs ! i)"

definition rpc_inv :: "Envelope list \<Rightarrow> RpcTcp \<Rightarrow> bool" where
  "rpc_inv fr s \<longleftrightarrow>
     (\<forall>k i. hm_get (pending s) k = Some i \<longrightarrow> pending_ok (calls s) k i) \<and>
     (\<forall>c \<in> set (calls s). call_ok fr c)"

text \<open>
  As long as no two calls share an identifier, a call that is still waiting has its entry in the
  pending map and no waiter is ever dropped.
\<close>

definition complete_ok :: "(MessageId, nat) hashmap \<Rightarrow> nat \<Rightarrow> rpc_call \<Rightarrow> bool" where
  "complete_ok pend i c \<longleftrightarrow>
     call_slot c \<noteq> Slot_closed \<and> call_phase c \<noteq> Returned (Err ChannelClosed) \<and>
     call_phase c \<noteq> Leaving ChannelClosed \<and>
     (call_slot c = Slot_empty \<and> call_live c \<longrightarrow> hm_get pend (call_msg_id c) = Some i)"

definition rpc_complete :: "RpcTcp \<Rightarrow> bool" where
  "rpc_complete s \<longleftrightarrow> (\<forall>i < length (calls s). complete_ok (pending s) i (calls s ! i))"

lemmas rpc_defs =
  channel_send_def rpc_send_def rpc_reply_def rpc_recv_def call_begin_def set_phase_def
  call_send_def call_wait_def call_leave_def writer_step_def reader_step_def reader_forward_def

lemmas rpc_splits = if_splits option.splits list.splits sum.splits reader.splits
  oneshot.splits call_phase.splits

lemma rpc_inv_new: "rpc_inv fr (RpcTcp_new n)"
  by (simp add: rpc_inv_def RpcTcp_new_def)

lemma call_ok_mono: "call_ok fr c \<Longrightarrow> set fr \<subseteq> set fr' \<Longrightarrow> call_ok fr' c"
  by (auto simp: call_ok_def)

lemma frames_read_append [simp]: "frames_read (as @ bs) = frames_read as @ frames_read bs"
  by (induction as rule: frames_read.induct) auto

lemma call_ids_append [simp]: "call_ids (as @ bs) = call_ids as @ call_ids bs"
  by (induction as rule: call_ids.induct) auto

lemma rpc_invI:
  assumes "\<And>k i. hm_get (pending s) k = Some i \<Longrightarrow> pending_ok (calls s) k i"
    and "\<And>c. c \<in> set (calls s) \<Longrightarrow> call_ok fr c"
  shows "rpc_inv fr s"
  using assms by (simp add: rpc_inv_def)

lemma rpc_inv_pendingD: "rpc_inv fr s \<Longrightarrow> hm_get (pending s) k = Some i \<Longrightarrow> pending_ok (calls s) k i"
  by (simp add: rpc_inv_def)

lemma rpc_inv_callD: "rpc_inv fr s \<Longrightarrow> c \<in> set (calls s) \<Longrightarrow> call_ok fr c"
  by (simp add: rpc_inv_def)

lemma pending_ok_update_other: "i \<noteq> j \<Longrightarrow> pending_ok (cs[j := c]) k i = pending_ok cs k i"
  by (simp add: pending_ok_def)

lemma pending_ok_snoc: "pending_ok cs k i \<Longrightarrow> pending_ok (cs @ [c]) k i"
  by (simp add: pending_ok_def nth_append)

lemma pending_ok_key: "pending_ok cs k i \<Longrightarrow> pending_ok cs k' i \<Longrightarrow> k = k'"
  by (simp add: pending_ok_def)

text \<open>A step that changes neither the calls nor the pending map.\<close>

lemma rpc_inv_frame:
  "rpc_inv fr s \<Longrightarrow> calls t = calls s \<Longrightarrow> pending t = pending s \<Longrightarrow> set fr \<subseteq> set fr' \<Longrightarrow> rpc_inv fr' t"
  by (auto simp: rpc_inv_def intro: call_ok_mono)

text \<open>
  A step that replaces call \<open>i\<close> and possibly takes entries out of the pending map: either no
  entry for \<open>i\<close> is left, or the new call may still be in the map.
\<close>

lemma rpc_inv_update:
  assumes "rpc_inv fr s" and "i < length (calls s)"
    and "calls t = (calls s)[i := c]" and "set fr \<subseteq> set fr'"
    and "\<And>k j. hm_get (pending t) k = Some j \<Longrightarrow> hm_get (pending s) k = Some j"
    and "call_ok fr' c"
    and "\<And>k. hm_get (pending t) k = Some i \<Longrightarrow> pending_ok (calls t) k i"
  shows "rpc_inv fr' t"
proof (rule rpc_invI)
  fix k j
  assume *: "hm_get (pending t) k = Some j"
  show "pending_ok (calls t) k j"
  proof (cases "j = i")
    case True
    with * assms(7) show ?thesis by simp
  next
    case False
    with * assms(1,3,5) show ?thesis by (simp add: rpc_inv_pendingD pending_ok_update_other)
  qed
next
  fix c'
  assume "c' \<in> set (calls t)"
  then show "call_ok fr' c'"
    using assms(3,6) set_update_subset_insert [of "calls s" i c]
      rpc_inv_callD [OF assms(1), THEN call_ok_mono, OF _ assms(4)] by auto
qed

lemma channel_send_frame:
  "channel_send env s = Some (r, t) \<Longrightarrow> calls t = calls s \<and> pending t = pending s"
  by (auto simp: channel_send_def split: if_splits)

lemma set_phase_inv:
  assumes "rpc_inv fr s" and "i < length (calls s)"
    and "(\<forall>r. ph \<noteq> Returned r) \<or> (\<forall>k. hm_get (pending s) k \<noteq> Some i)"
    and "\<And>env. ph = Returned (Ok env) \<Longrightarrow> call_slot (calls s ! i) = Slot_filled env"
  shows "rpc_inv fr (set_phase i ph s)"
proof -
  have ok: "call_ok fr (calls s ! i)"
    using assms(1,2) by (simp add: rpc_inv_callD)
  show ?thesis
  proof (rule rpc_inv_update [OF assms(1,2)])
    show "calls (set_phase i ph s) = (calls s)[i := (calls s ! i)\<lparr>call_phase := ph\<rparr>]"
      by (simp add: set_phase_def)
    show "call_ok fr ((calls s ! i)\<lparr>call_phase := ph\<rparr>)"
      using ok assms(4) by (auto simp: call_ok_def)
  next
    fix k
    assume "hm_get (pending (set_phase i ph s)) k = Some i"
    with assms(1,3) have "pending_ok (calls s) k i" "\<forall>r. ph \<noteq> Returned r"
      by (auto simp: set_phase_def rpc_inv_pendingD)
    then show "pending_ok (calls (set_phase i ph s)) k i"
      by (simp add: set_phase_def pending_ok_def call_live_def)
  qed (simp_all add: set_phase_def)
qed

lemma call_begin_inv:
  assumes "rpc_inv fr s"
  shows "rpc_inv fr (call_begin new_id p s)"
proof (rule rpc_invI)
  fix k i
  assume *: "hm_get (pending (call_begin new_id p s)) k = Some i"
  show "pending_ok (calls (call_begin new_id p s)) k i"
  proof (cases "k = new_id")
    case True
    with * show ?thesis
      by (auto simp: call_begin_def Let_def hm_simps pending_ok_def nth_append call_live_def
          split: option.splits)
  next
    case False
    with * have k: "hm_get (pending s) k = Some i" by (simp add: call_begin_def Let_def hm_simps)
    then have "pending_ok (calls s) k i" using assms by (simp add: rpc_inv_pendingD)
    moreover have "j \<noteq> i" if "hm_get (pending s) new_id = Some j" for j
      using pending_ok_key [OF rpc_inv_pendingD [OF assms that]] rpc_inv_pendingD [OF assms k] False
      by auto
    ultimately show ?thesis
      by (auto simp: call_begin_def Let_def pending_ok_update_other split: option.splits
          intro!: pending_ok_snoc)
  qed
next
  fix c
  assume "c \<in> set (calls (call_begin new_id p s))"
  moreover have "call_ok fr ((calls s ! j)\<lparr>call_slot := Slot_closed\<rparr>)"
    if "hm_get (pending s) new_id = Some j" for j
    using rpc_inv_pendingD [OF assms that] rpc_inv_callD [OF assms, of "calls s ! j"]
    by (auto simp: pending_ok_def call_ok_def call_live_def)
  ultimately show "call_ok fr c"
    using assms
    by (auto simp: call_begin_def Let_def call_ok_def [of fr "\<lparr>call_msg_id = _, call_payload = _, call_phase = _, call_slot = _\<rparr>"]
        dest: rpc_inv_callD set_update_subset_insert [THEN subsetD] split: option.splits)
qed

lemma call_send_inv: "rpc_inv fr s \<Longrightarrow> call_send i s = Some t \<Longrightarrow> rpc_inv fr t"
  by (auto simp: call_send_def Let_def
      split: if_splits option.splits sum.splits
      dest!: channel_send_frame intro!: set_phase_inv elim: rpc_inv_frame)

lemma call_wait_inv: "rpc_inv fr s \<Longrightarrow> call_wait e i s = Some t \<Longrightarrow> rpc_inv fr t"
  by (auto simp: call_wait_def pending_ok_def split: if_splits oneshot.splits
      intro!: set_phase_inv dest: rpc_inv_pendingD)

lemma call_leave_inv:
  assumes inv: "rpc_inv fr s" and leave: "call_leave i s = Some t"
  shows "rpc_inv fr t"
proof -
  let ?s = "s\<lparr>pending := hm_remove (call_msg_id (calls s ! i)) (pending s)\<rparr>"
  have "rpc_inv fr ?s"
    using inv by (auto simp: rpc_inv_def hm_simps)
  moreover have "hm_get (pending ?s) k \<noteq> Some i" for k
    using rpc_inv_pendingD [OF inv, of k i] by (auto simp: hm_simps pending_ok_def)
  ultimately show ?thesis
    using leave by (auto simp: call_leave_def split: if_splits call_phase.splits intro!: set_phase_inv)
qed

lemma reader_deliver_inv:
  assumes inv: "rpc_inv fr s" and k: "hm_get (pending s) k = Some i" and msg: "reply_to msg = Some k"
  shows "rpc_inv (fr @ [msg])
    (s\<lparr>pending := hm_remove k (pending s),
       calls := (calls s)[i := (calls s ! i)\<lparr>call_slot := Slot_filled msg\<rparr>]\<rparr>)"
proof -
  have ok: "pending_ok (calls s) k i" using inv k by (rule rpc_inv_pendingD)
  then have "k' = k" if "hm_get (pending s) k' = Some i" for k'
    using rpc_inv_pendingD [OF inv that] by (rule pending_ok_key [symmetric])
  then show ?thesis
    using ok msg
    by (intro rpc_inv_update [OF inv, of i])
      (auto simp: hm_simps pending_ok_def call_ok_def call_live_def split: if_splits)
qed

lemma reader_step_inv:
  "rpc_inv fr s \<Longrightarrow> reader_step f s = Some t \<Longrightarrow> rpc_inv (fr @ (case f of None \<Rightarrow> [] | Some m \<Rightarrow> [m])) t"
  by (auto simp: reader_step_def split: if_splits option.splits
      intro: reader_deliver_inv elim: rpc_inv_frame)

lemma rpc_act_inv:
  assumes "rpc_inv fr s" and "rpc_act a s = Some t"
  shows "rpc_inv (fr @ frames_read [a]) t"
proof (cases a)
  case (Act_read f)
  with assms show ?thesis using reader_step_inv [of fr s f t] by (cases f) auto
next
  case (Act_call i p)
  with assms show ?thesis by (auto intro: call_begin_inv)
next
  case (Act_call_send i)
  with assms show ?thesis by (auto intro: call_send_inv)
next
  case (Act_call_wait e i)
  with assms show ?thesis by (auto intro: call_wait_inv)
next
  case (Act_call_leave i)
  with assms show ?thesis by (auto intro: call_leave_inv)
qed (use assms in \<open>auto simp: rpc_defs Let_def split: rpc_splits elim!: rpc_inv_frame\<close>)

lemma rpc_run_inv: "rpc_run (RpcTcp_new n) acts s \<Longrightarrow> rpc_inv (frames_read acts) s"
  by (induction "RpcTcp_new n" acts s rule: rpc_run.induct)
    (auto simp: rpc_inv_new dest: rpc_act_inv)

subsection \<open>Distinct identifiers\<close>

lemma rpc_complete_frame:
  "rpc_complete s \<Longrightarrow> calls t = calls s \<Longrightarrow> pending t = pending s \<Longrightarrow> rpc_complete t"
  by (simp add: rpc_complete_def)

lemma rpc_complete_update:
  assumes "rpc_complete s" and "distinct (map call_msg_id (calls s))" and "i < length (calls s)"
    and "calls t = (calls s)[i := c]"
    and "\<And>k. k \<noteq> call_msg_id (calls s ! i) \<Longrightarrow> hm_get (pending t) k = hm_get (pending s) k"
    and "complete_ok (pending t) i c"
  shows "rpc_complete t"
  unfolding rpc_complete_def
proof (intro allI impI)
  fix j
  assume j: "j < length (calls t)"
  show "complete_ok (pending t) j (calls t ! j)"
  proof (cases "j = i")
    case False
    then have "call_msg_id (calls s ! j) \<noteq> call_msg_id (calls s ! i)"
      using assms(2,3,4) j nth_eq_iff_index_eq [of "map call_msg_id (calls s)" i j] by auto
    then show ?thesis
      using assms(1,4,5) j False by (simp add: rpc_complete_def complete_ok_def)
  qed (use assms in simp)
qed

lemma set_phase_complete:
  assumes "rpc_complete s" and "distinct (map call_msg_id (calls s))" and "i < length (calls s)"
    and "ph \<noteq> Returned (Err ChannelClosed)" and "ph \<noteq> Leaving ChannelClosed"
    and "call_live (calls s ! i) \<or> (\<exists>r. ph = Returned r)"
  shows "rpc_complete (set_phase i ph s)"
  using assms
  by (intro rpc_complete_update [OF assms(1-3), where c = "(calls s ! i)\<lparr>call_phase := ph\<rparr>"])
    (auto simp: set_phase_def rpc_complete_def complete_ok_def call_live_def)

lemma call_begin_complete:
  assumes "rpc_inv fr s" and "rpc_complete s"
    and "distinct (map call_msg_id (calls (call_begin new_id p s)))"
  shows "rpc_complete (call_begin new_id p s)"
proof -
  have ids: "map call_msg_id (calls (call_begin new_id p s)) = map call_msg_id (calls s) @ [new_id]"
    using rpc_inv_pendingD [OF assms(1), of new_id]
    by (auto simp: call_begin_def Let_def map_update pending_ok_def list_update_same_conv
        split: option.splits)
  then have fresh: "new_id \<notin> call_msg_id ` set (calls s)" using assms(3) by auto
  then have "hm_get (pending s) new_id = None"
    using rpc_inv_pendingD [OF assms(1), of new_id] by (cases "hm_get (pending s) new_id")
      (auto simp: pending_ok_def)
  moreover have "call_msg_id (calls s ! j) \<noteq> new_id" if "j < length (calls s)" for j
    using fresh that by (metis image_eqI nth_mem)
  ultimately show ?thesis
    using assms(2)
    by (auto simp: rpc_complete_def call_begin_def complete_ok_def nth_append hm_simps call_live_def
        less_Suc_eq)
qed

lemma call_leave_complete:
  assumes "rpc_complete s" and "distinct (map call_msg_id (calls s))" and "call_leave i s = Some t"
  shows "rpc_complete t"
proof -
  from assms(3) obtain e where i: "i < length (calls s)" and e: "call_phase (calls s ! i) = Leaving e"
    and t: "t = set_phase i (Returned (Err e))
      (s\<lparr>pending := hm_remove (call_msg_id (calls s ! i)) (pending s)\<rparr>)"
    by (auto simp: call_leave_def split: if_splits call_phase.splits)
  then show ?thesis
    using assms(1)
    by (intro rpc_complete_update [OF assms(1,2) i, where c = "(calls s ! i)\<lparr>call_phase := Returned (Err e)\<rparr>"])
      (auto simp: set_phase_def hm_simps rpc_complete_def complete_ok_def call_live_def)
qed

lemma reader_step_complete:
  assumes "rpc_inv fr s" and "rpc_complete s" and "distinct (map call_msg_id (calls s))"
    and "reader_step f s = Some t"
  shows "rpc_complete t"
proof -
  have "rpc_complete (s\<lparr>pending := hm_remove k (pending s),
       calls := (calls s)[i := (calls s ! i)\<lparr>call_slot := Slot_filled msg\<rparr>]\<rparr>)"
    if "hm_get (pending s) k = Some i" for k i msg
    using rpc_inv_pendingD [OF assms(1) that] assms(2)
    by (intro rpc_complete_update [OF assms(2,3), of i])
      (auto simp: pending_ok_def hm_simps rpc_complete_def complete_ok_def)
  then show ?thesis
    using assms(2,4) by (auto simp: reader_step_def split: if_splits option.splits
        elim: rpc_complete_frame)
qed

lemma rpc_act_ids:
  "rpc_inv fr s \<Longrightarrow> rpc_act a s = Some t \<Longrightarrow>
     map call_msg_id (calls t) = map call_msg_id (calls s) @ call_ids [a]"
  by (cases a)
    (auto simp: rpc_defs Let_def map_update list_update_same_conv pending_ok_def
      split: rpc_splits dest!: rpc_inv_pendingD)

lemma call_send_complete:
  assumes "rpc_complete s" and "distinct (map call_msg_id (calls s))" and "call_send i s = Some t"
  shows "rpc_complete t"
  using assms
  by (auto simp: call_send_def Let_def channel_send_def call_live_def
      split: if_splits intro!: set_phase_complete elim: rpc_complete_frame)

lemma call_wait_complete:
  assumes "rpc_complete s" and "distinct (map call_msg_id (calls s))" and "call_wait e i s = Some t"
  shows "rpc_complete t"
  using assms
  by (auto simp: call_wait_def call_live_def rpc_complete_def [of s] complete_ok_def [of "pending s"]
      split: if_splits oneshot.splits intro!: set_phase_complete [OF assms(1,2)])

lemma rpc_act_complete:
  assumes "rpc_inv fr s" and "rpc_complete s" and "distinct (map call_msg_id (calls t))"
    and "rpc_act a s = Some t"
  shows "rpc_complete t"
proof -
  have d: "distinct (map call_msg_id (calls s))"
    using rpc_act_ids [OF assms(1,4)] assms(3) by simp
  show ?thesis
  proof (cases a)
    case (Act_read f)
    with assms(4) show ?thesis by (simp add: reader_step_complete [OF assms(1,2) d])
  next
    case (Act_call i p)
    with assms show ?thesis by (auto intro: call_begin_complete)
  next
    case (Act_call_send i)
    with assms(4) show ?thesis by (simp add: call_send_complete [OF assms(2) d])
  next
    case (Act_call_wait e i)
    with assms(4) show ?thesis by (simp add: call_wait_complete [OF assms(2) d])
  next
    case (Act_call_leave i)
    with assms(4) show ?thesis by (simp add: call_leave_complete [OF assms(2) d])
  qed (use assms(2,4) in \<open>auto simp: rpc_defs Let_def split: rpc_splits elim!: rpc_complete_frame\<close>)
qed

lemma rpc_run_ids: "rpc_run (RpcTcp_new n) acts s \<Longrightarrow> map call_msg_id (calls s) = call_ids acts"
  by (induction "RpcTcp_new n" acts s rule: rpc_run.induct)
    (simp_all add: RpcTcp_new_def rpc_act_ids [OF rpc_run_inv [unfolded RpcTcp_new_def]])

lemma rpc_run_complete:
  "rpc_run (RpcTcp_new n) acts s \<Longrightarrow> distinct (call_ids acts) \<Longrightarrow> rpc_complete s"
proof (induction "RpcTcp_new n" acts s rule: rpc_run.induct)
  case rpc_run_refl
  then show ?case by (simp add: rpc_complete_def RpcTcp_new_def)
next
  case (rpc_run_snoc acts t a u)
  moreover have "map call_msg_id (calls u) = call_ids (acts @ [a])"
    using rpc_run_snoc.hyps by (intro rpc_run_ids) (rule rpc_run.rpc_run_snoc)
  ultimately show ?case
    by (auto intro: rpc_act_complete [OF rpc_run_inv])
qed

subsection \<open>Where the frames go\<close>

fun slot_envs :: "oneshot \<Rightarrow> Envelope list" where
  "slot_envs (Slot_filled env) = [env]"
| "slot_envs _ = []"

fun in_hand :: "reader \<Rightarrow> Envelope list" where
  "in_hand Reading = []"
| "in_hand (Forwarding env) = [env]"
| "in_hand (Reader_stopped m) = (case m of None \<Rightarrow> [] | Some env \<Rightarrow> [env])"

definition delivered :: "RpcTcp \<Rightarrow> Envelope list" where
  "delivered s = concat (map (slot_envs \<circ> call_slot) (calls s))"

definition inbound :: "RpcTcp \<Rightarrow> Envelope list" where
  "inbound s = received s @ rx_in s @ in_hand (reader s)"

lemma mset_concat_map_update:
  assumes "i < length xs" and "f (xs ! i) = []"
  shows "mset (concat (map f (xs[i := x]))) = mset (concat (map f xs)) + mset (f x)"
  using assms by (subst (2) id_take_nth_drop [OF assms(1)]) (simp add: upd_conv_take_nth_drop)

lemma map_update_same: "f x = f (xs ! i) \<Longrightarrow> map f (xs[i := x]) = map f xs"
  by (metis list_update_id map_update)

lemma delivered_set_phase [simp]: "delivered (set_phase i ph s) = delivered s"
  by (simp add: delivered_def set_phase_def map_update_same)

lemma delivered_call_begin:
  assumes "rpc_inv fr s"
  shows "delivered (call_begin new_id p s) = delivered s"
  using rpc_inv_pendingD [OF assms, of new_id]
  by (auto simp: delivered_def call_begin_def Let_def map_update_same pending_ok_def
      split: option.splits)

lemma inbound_set_phase [simp]: "inbound (set_phase i ph s) = inbound s"
  by (simp add: inbound_def set_phase_def)

lemma delivered_cong: "calls t = calls s \<Longrightarrow> delivered t = delivered s"
  by (simp add: delivered_def)

lemma reader_step_frames:
  assumes "rpc_inv fr s" and "reader_step f s = Some t"
  shows "mset (delivered t) + mset (inbound t) =
    mset (delivered s) + mset (inbound s) + mset (case f of None \<Rightarrow> [] | Some m \<Rightarrow> [m])"
  using assms(2) rpc_inv_pendingD [OF assms(1)]
  by (auto simp: reader_step_def delivered_def inbound_def pending_ok_def mset_concat_map_update
      split: if_splits option.splits)

lemma rpc_act_frames:
  assumes "rpc_inv fr s" and "rpc_act a s = Some t"
  shows "mset (delivered t) + mset (inbound t) =
    mset (delivered s) + mset (inbound s) + mset (frames_read [a])"
proof (cases a)
  case (Act_read f)
  with reader_step_frames [OF assms(1)] assms(2) show ?thesis by (cases f) auto
next
  case (Act_call i p)
  with assms show ?thesis
    by (auto simp: delivered_call_begin) (simp add: inbound_def call_begin_def Let_def)
qed (use assms(2) in \<open>auto simp: rpc_defs Let_def delivered_def inbound_def map_update_same
      split: rpc_splits\<close>)

lemma rpc_run_frames:
  "rpc_run (RpcTcp_new n) acts s \<Longrightarrow>
     mset (delivered s) + mset (inbound s) = mset (frames_read acts)"
  by (induction "RpcTcp_new n" acts s rule: rpc_run.induct)
    (auto simp: RpcTcp_new_def delivered_def [of "RpcTcp_new n", unfolded RpcTcp_new_def]
      inbound_def [of "RpcTcp_new n", unfolded RpcTcp_new_def]
      rpc_act_frames [OF rpc_run_inv [unfolded RpcTcp_new_def]])

lemma rpc_act_inbound:
  "rpc_act a s = Some t \<Longrightarrow>
     inbound t = inbound s \<or> (\<exists>m. a = Act_read (Some m) \<and> inbound t = inbound s @ [m])"
  by (cases a) (auto simp: rpc_defs Let_def inbound_def split: rpc_splits)

lemma rpc_run_inbound: "rpc_run (RpcTcp_new n) acts s \<Longrightarrow> subseq (inbound s) (frames_read acts)"
proof (induction "RpcTcp_new n" acts s rule: rpc_run.induct)
  case rpc_run_refl
  then show ?case by (simp add: inbound_def RpcTcp_new_def)
next
  case (rpc_run_snoc acts t a u)
  then show ?case
    using rpc_act_inbound [OF rpc_run_snoc.hyps(3)] by (auto intro: list_emb_append2 simp: subseq_append')
qed

subsection \<open>Running an execution\<close>

fun rpc_exec :: "rpc_action list \<Rightarrow> RpcTcp \<Rightarrow> RpcTcp option" where
  "rpc_exec [] s = Some s"
| "rpc_exec (a # acts) s = (case rpc_act a s of None \<Rightarrow> None | Some t \<Rightarrow> rpc_exec acts t)"

lemma rpc_exec_run: "rpc_run s before t \<Longrightarrow> rpc_exec acts t = Some u \<Longrightarrow> rpc_run s (before @ acts) u"
proof (induction acts arbitrary: before t)
  case (Cons a acts)
  then obtain t' where "rpc_act a t = Some t'" "rpc_exec acts t' = Some u"
    by (auto split: option.splits)
  then show ?case using Cons.IH [OF rpc_run_snoc [OF Cons.prems(1)]] by simp
qed simp

lemmas rpc_exec_run0 = rpc_exec_run [OF rpc_run_refl, simplified]

text \<open>A call that is answered while a request of the peer arrives.\<close>

abbreviation sample_pong :: Envelope where
  "sample_pong \<equiv> \<lparr>msg_id = MessageId 7, reply_to = Some (MessageId 1), payload = Pong\<rparr>"

definition sample_acts :: "rpc_action list" where
  "sample_acts =
     [Act_call (MessageId 1) Ping, Act_call_send 0, Act_write True, Act_read (Some (ping_envelope 2)),
      Act_forward, Act_read (Some sample_pong), Act_call_wait True 0]"

definition sample_conn :: RpcTcp where
  "sample_conn =
     \<lparr>buffer = 2, tx_out = [], writer_up = True, written = [ping_envelope 1], reader = Reading,
      rx_in = [ping_envelope 2], rx_open = True, received = [], pending = [],
      calls = [\<lparr>call_msg_id = MessageId 1, call_payload = Ping,
                call_phase = Returned (Ok sample_pong), call_slot = Slot_filled sample_pong\<rparr>]\<rparr>"

lemma sample_run: "rpc_run (RpcTcp_new 2) sample_acts sample_conn"
  by (rule rpc_exec_run0)
    (simp add: sample_acts_def sample_conn_def RpcTcp_new_def rpc_defs Let_def hm_get_def hm_insert_def
      hm_remove_def ping_envelope_def)

subsection \<open>Properties\<close>

text \<open>
  C1.  A reply reaches the call it answers.  In every execution, a call that returned
  successfully returned an envelope that was read from the peer and whose \<open>reply_to\<close> is the
  call's own message identifier.
\<close>

theorem rpc_reply_routing:
  assumes "rpc_run (RpcTcp_new n) acts s" and "i < length (calls s)"
    and "call_phase (calls s ! i) = Returned (Ok env)"
  shows "reply_to env = Some (call_msg_id (calls s ! i)) \<and> env \<in> set (frames_read acts)"
  using rpc_inv_callD [OF rpc_run_inv [OF assms(1)], of "calls s ! i"] assms(2,3)
  by (simp add: call_ok_def)

theorem rpc_reply_routing_witness:
  "reply_to sample_pong = Some (call_msg_id (calls sample_conn ! 0)) \<and>
     sample_pong \<in> set (frames_read sample_acts)"
  by (rule rpc_reply_routing [OF sample_run]) (simp_all add: sample_conn_def)



text \<open>
  C8.  The pending map holds exactly the unanswered calls.  When no two calls share a message
  identifier, an entry of the map is a call that has neither returned nor been answered and
  every such call has its entry, so returned calls leave nothing behind; and no call fails
  because its waiter was dropped.
\<close>

theorem rpc_pending_exact:
  assumes "rpc_run (RpcTcp_new n) acts s" and "distinct (call_ids acts)"
  shows "(hm_get (pending s) k = Some i \<longleftrightarrow>
      i < length (calls s) \<and> call_msg_id (calls s ! i) = k \<and>
      call_slot (calls s ! i) = Slot_empty \<and> call_live (calls s ! i)) \<and>
    Returned (Err ChannelClosed) \<notin> call_phase ` set (calls s)"
  using rpc_inv_pendingD [OF rpc_run_inv [OF assms(1)], of k i] rpc_run_complete [OF assms]
  by (auto simp: pending_ok_def rpc_complete_def complete_ok_def in_set_conv_nth)

theorem rpc_pending_exact_witness:
  "(hm_get (pending sample_conn) (MessageId 1) = Some 0 \<longleftrightarrow>
      0 < length (calls sample_conn) \<and> call_msg_id (calls sample_conn ! 0) = MessageId 1 \<and>
      call_slot (calls sample_conn ! 0) = Slot_empty \<and> call_live (calls sample_conn ! 0)) \<and>
    Returned (Err ChannelClosed) \<notin> call_phase ` set (calls sample_conn)"
  by (rule rpc_pending_exact [OF sample_run]) (simp add: sample_acts_def)

text \<open>
  C9.  An answered call returns.  When no two calls share a message identifier, a reply read
  while its call is waiting lets that call return the reply, whether or not its deadline has
  passed in between.
\<close>

theorem rpc_reply_wakes_caller:
  assumes "rpc_run (RpcTcp_new n) acts s" and "distinct (call_ids acts)"
    and "i < length (calls s)" and "call_phase (calls s ! i) = Waiting"
    and "call_slot (calls s ! i) = Slot_empty" and "reader s = Reading"
    and "reply_to env = Some (call_msg_id (calls s ! i))"
  shows "\<exists>t u. rpc_act (Act_read (Some env)) s = Some t \<and>
    rpc_act (Act_call_wait elapsed i) t = Some u \<and>
    call_phase (calls u ! i) = Returned (Ok env)"
proof -
  have "hm_get (pending s) (call_msg_id (calls s ! i)) = Some i"
    using rpc_run_complete [OF assms(1,2)] assms(3,4,5)
    by (auto simp: rpc_complete_def complete_ok_def call_live_def)
  with assms(3-) show ?thesis
    by (simp add: reader_step_def call_wait_def set_phase_def)
qed

theorem rpc_reply_wakes_caller_witness:
  "\<exists>s t u. rpc_exec [Act_call (MessageId 1) Ping, Act_call_send 0] (RpcTcp_new 2) = Some s \<and>
     rpc_act (Act_read (Some sample_pong)) s = Some t \<and>
     rpc_act (Act_call_wait False 0) t = Some u \<and>
     call_phase (calls u ! 0) = Returned (Ok sample_pong)"
proof -
  let ?acts = "[Act_call (MessageId 1) Ping, Act_call_send 0]"
  obtain s where s: "rpc_exec ?acts (RpcTcp_new 2) = Some s" "0 < length (calls s)"
      "call_phase (calls s ! 0) = Waiting" "call_slot (calls s ! 0) = Slot_empty"
      "reader s = Reading" "call_msg_id (calls s ! 0) = MessageId 1"
    by (simp add: RpcTcp_new_def rpc_defs Let_def)
  show ?thesis
    using rpc_reply_wakes_caller [OF rpc_exec_run0 [OF s(1)] _ s(2-5), of sample_pong False] s(1,6)
    by auto
qed

end
