(* ===== verification/Rpc_Client.thy ===== *)
theory Rpc_Client
  imports Rpc_Conn
begin

text \<open>
  The typed client (\<open>ersha-rpc/src/client.rs\<close>).  Every method makes one call and turns the
  reply into a value or a \<open>ClientError\<close>.  The methods take \<open>RpcTcp::call\<close> as a function of the
  payload and the timeout on a state that stands for everything the call changes (the
  connection, and whatever answers at its other end).
\<close>

type_synonym 's rpc_call_fn = "WireMessage \<Rightarrow> nat \<Rightarrow> 's \<Rightarrow> (Envelope, RpcError) result \<times> 's"

datatype ClientError = Rpc RpcError | UnexpectedResponse | ErrorResponse WireError

text \<open>Durations are counted in milliseconds.\<close>

definition DEFAULT_TIMEOUT :: nat where
  "DEFAULT_TIMEOUT = 5000"

record Client =
  client_rpc :: RpcTcp
  client_timeout :: nat

definition Client_with_buffer :: "nat \<Rightarrow> Client" where
  "Client_with_buffer n = \<lparr>client_rpc = RpcTcp_new n, client_timeout = DEFAULT_TIMEOUT\<rparr>"

definition Client_new :: Client where
  "Client_new = Client_with_buffer 1024"

definition Client_with_timeout :: "nat \<Rightarrow> Client \<Rightarrow> Client" where
  "Client_with_timeout t c = c\<lparr>client_timeout := t\<rparr>"

subsection \<open>The methods\<close>

definition client_ping ::
    "'s rpc_call_fn \<Rightarrow> nat \<Rightarrow> 's \<Rightarrow> (unit, ClientError) result \<times> 's" where
  "client_ping call t s =
     (case call Ping t s of
        (Inl e, s') \<Rightarrow> (Err (Rpc e), s')
      | (Inr response, s') \<Rightarrow>
          ((case payload response of
              Pong \<Rightarrow> Ok ()
            | MsgError err \<Rightarrow> Err (ErrorResponse err)
            | _ \<Rightarrow> Err UnexpectedResponse), s'))"

definition client_hello ::
    "'s rpc_call_fn \<Rightarrow> nat \<Rightarrow> HelloRequest \<Rightarrow> 's \<Rightarrow> (HelloResponse, ClientError) result \<times> 's" where
  "client_hello call t hello s =
     (case call (MsgHelloRequest hello) t s of
        (Inl e, s') \<Rightarrow> (Err (Rpc e), s')
      | (Inr response, s') \<Rightarrow>
          ((case payload response of
              MsgHelloResponse resp \<Rightarrow> Ok resp
            | MsgError err \<Rightarrow> Err (ErrorResponse err)
            | _ \<Rightarrow> Err UnexpectedResponse), s'))"

definition client_batch_upload ::
    "'s rpc_call_fn \<Rightarrow> nat \<Rightarrow> BatchUploadRequest \<Rightarrow> 's \<Rightarrow>
     (BatchUploadResponse, ClientError) result \<times> 's" where
  "client_batch_upload call t request s =
     (case call (MsgBatchUploadRequest request) t s of
        (Inl e, s') \<Rightarrow> (Err (Rpc e), s')
      | (Inr response, s') \<Rightarrow>
          ((case payload response of
              MsgBatchUploadResponse resp \<Rightarrow> Ok resp
            | MsgError err \<Rightarrow> Err (ErrorResponse err)
            | _ \<Rightarrow> Err UnexpectedResponse), s'))"

definition client_alert ::
    "'s rpc_call_fn \<Rightarrow> nat \<Rightarrow> AlertRequest \<Rightarrow> 's \<Rightarrow> (AlertResponse, ClientError) result \<times> 's" where
  "client_alert call t request s =
     (case call (MsgAlertRequest request) t s of
        (Inl e, s') \<Rightarrow> (Err (Rpc e), s')
      | (Inr response, s') \<Rightarrow>
          ((case payload response of
              MsgAlertResponse resp \<Rightarrow> Ok resp
            | MsgError err \<Rightarrow> Err (ErrorResponse err)
            | _ \<Rightarrow> Err UnexpectedResponse), s'))"

definition client_dispatcher_status ::
    "'s rpc_call_fn \<Rightarrow> nat \<Rightarrow> DispatcherStatusRequest \<Rightarrow> 's \<Rightarrow>
     (DispatcherStatusResponse, ClientError) result \<times> 's" where
  "client_dispatcher_status call t request s =
     (case call (MsgDispatcherStatusRequest request) t s of
        (Inl e, s') \<Rightarrow> (Err (Rpc e), s')
      | (Inr response, s') \<Rightarrow>
          ((case payload response of
              MsgDispatcherStatusResponse resp \<Rightarrow> Ok resp
            | MsgError err \<Rightarrow> Err (ErrorResponse err)
            | _ \<Rightarrow> Err UnexpectedResponse), s'))"

definition client_device_disconnection ::
    "'s rpc_call_fn \<Rightarrow> nat \<Rightarrow> DeviceDisconnectionRequest \<Rightarrow> 's \<Rightarrow>
     (DeviceDisconnectionResponse, ClientError) result \<times> 's" where
  "client_device_disconnection call t request s =
     (case call (MsgDeviceDisconnectionRequest request) t s of
        (Inl e, s') \<Rightarrow> (Err (Rpc e), s')
      | (Inr response, s') \<Rightarrow>
          ((case payload response of
              MsgDeviceDisconnectionResponse resp \<Rightarrow> Ok resp
            | MsgError err \<Rightarrow> Err (ErrorResponse err)
            | _ \<Rightarrow> Err UnexpectedResponse), s'))"

subsection \<open>What the methods have in common\<close>

text \<open>
  A request type: how a request is wrapped into a message, and which replies carry a response.
  The law says that the method makes exactly one call, with the wrapped request, and how it
  reads the reply.
\<close>

locale typed_call =
  fixes wrap :: "'req \<Rightarrow> WireMessage"
    and wrap_response :: "'resp \<Rightarrow> WireMessage"
    and rpc_fn :: "'s rpc_call_fn \<Rightarrow> nat \<Rightarrow> 'req \<Rightarrow> 's \<Rightarrow> ('resp, ClientError) result \<times> 's"
  assumes response_inj: "wrap_response x = wrap_response y \<Longrightarrow> x = y"
    and response_no_error: "wrap_response x \<noteq> MsgError err"
    and method_transport: "call (wrap req) t s = (Inl e, s') \<Longrightarrow> rpc_fn call t req s = (Err (Rpc e), s')"
    and method_response: "call (wrap req) t s = (Inr env, s') \<Longrightarrow> payload env = wrap_response resp \<Longrightarrow>
      rpc_fn call t req s = (Ok resp, s')"
    and method_error: "call (wrap req) t s = (Inr env, s') \<Longrightarrow> payload env = MsgError err \<Longrightarrow>
      rpc_fn call t req s = (Err (ErrorResponse err), s')"
    and method_other: "call (wrap req) t s = (Inr env, s') \<Longrightarrow> \<forall>resp. payload env \<noteq> wrap_response resp \<Longrightarrow>
      \<forall>err. payload env \<noteq> MsgError err \<Longrightarrow> rpc_fn call t req s = (Err UnexpectedResponse, s')"
begin

text \<open>The method as one equation: all four outcomes.\<close>

lemma method_cases:
  assumes "call (wrap req) t s = (r, s')"
  obtains
    (transport) e where "r = Err e" "rpc_fn call t req s = (Err (Rpc e), s')"
  | (response) env resp where "r = Ok env" "payload env = wrap_response resp"
      "rpc_fn call t req s = (Ok resp, s')"
  | (error) env err where "r = Ok env" "payload env = MsgError err"
      "rpc_fn call t req s = (Err (ErrorResponse err), s')"
  | (other) env where "r = Ok env" "\<forall>resp. payload env \<noteq> wrap_response resp"
      "\<forall>err. payload env \<noteq> MsgError err" "rpc_fn call t req s = (Err UnexpectedResponse, s')"
proof (cases r)
  case (Inl e)
  with assms show ?thesis by (intro transport) (auto intro: method_transport)
next
  case (Inr env)
  consider resp where "payload env = wrap_response resp" | err where "payload env = MsgError err"
    | "\<forall>resp. payload env \<noteq> wrap_response resp" "\<forall>err. payload env \<noteq> MsgError err"
    by blast
  then show ?thesis
    using Inr assms by cases (auto intro: response error other method_response method_error method_other)
qed

text \<open>A response is returned exactly when the reply carries it.\<close>

lemma method_ok_iff:
  "rpc_fn call t req s = (Ok resp, s') \<longleftrightarrow>
     (\<exists>env. call (wrap req) t s = (Ok env, s') \<and> payload env = wrap_response resp)"
proof -
  obtain r s1 where call: "call (wrap req) t s = (r, s1)" by (cases "call (wrap req) t s")
  show ?thesis
  proof (cases rule: method_cases [of call req t s r s1, case_names call transport response error other])
    case call
    show ?case by (rule \<open>call (wrap req) t s = (r, s1)\<close>)
  next
    case (response env resp')
    then show ?thesis using call by (auto dest: response_inj)
  next
    case (error env err)
    then show ?thesis using call response_no_error by (metis Inr_inject prod.inject sum.distinct(1))
  qed (use call in auto)
qed

end

lemmas client_defs = client_ping_def client_hello_def client_batch_upload_def client_alert_def
  client_dispatcher_status_def client_device_disconnection_def

interpretation ping: typed_call "\<lambda>_. Ping" "\<lambda>_. Pong" "\<lambda>call t (_::unit). client_ping call t"
  by unfold_locales (auto simp: client_ping_def split: WireMessage.splits)

interpretation hello: typed_call MsgHelloRequest MsgHelloResponse client_hello
  by unfold_locales (auto simp: client_hello_def split: WireMessage.splits)

interpretation batch_upload: typed_call MsgBatchUploadRequest MsgBatchUploadResponse client_batch_upload
  by unfold_locales (auto simp: client_batch_upload_def split: WireMessage.splits)

interpretation alert: typed_call MsgAlertRequest MsgAlertResponse client_alert
  by unfold_locales (auto simp: client_alert_def split: WireMessage.splits)

interpretation dispatcher_status:
  typed_call MsgDispatcherStatusRequest MsgDispatcherStatusResponse client_dispatcher_status
  by unfold_locales (auto simp: client_dispatcher_status_def split: WireMessage.splits)

interpretation device_disconnection:
  typed_call MsgDeviceDisconnectionRequest MsgDeviceDisconnectionResponse client_device_disconnection
  by unfold_locales (auto simp: client_device_disconnection_def split: WireMessage.splits)

end
