(* ===== verification/Rpc_Server.thy ===== *)
theory Rpc_Server
  imports Rpc_Client Fixtures
begin

text \<open>
  The server side of a connection (\<open>ersha-rpc/src/server.rs\<close>): the handler table with its
  builder methods and the loop of \<open>handle_connection\<close>.  A handler is a function on a state
  that stands for everything it can change.  The loop receives the envelopes one by one; what
  it passes to \<open>rpc.reply\<close> is returned as a list of pairs of the request's identifier and the
  reply's payload.  A failed reply is only logged by the source, so it does not change what the
  loop does next.
\<close>

record 'st ServerHandlers =
  h_on_ping :: "(MessageId \<Rightarrow> 'st \<Rightarrow> 'st) option"
  h_on_hello :: "(HelloRequest \<Rightarrow> MessageId \<Rightarrow> 'st \<Rightarrow> HelloResponse \<times> 'st) option"
  h_on_batch_upload ::
    "(BatchUploadRequest \<Rightarrow> MessageId \<Rightarrow> 'st \<Rightarrow> BatchUploadResponse \<times> 'st) option"
  h_on_alert :: "(AlertRequest \<Rightarrow> MessageId \<Rightarrow> 'st \<Rightarrow> AlertResponse \<times> 'st) option"
  h_on_dispatcher_status ::
    "(DispatcherStatusRequest \<Rightarrow> MessageId \<Rightarrow> 'st \<Rightarrow> DispatcherStatusResponse \<times> 'st) option"
  h_on_device_disconnection ::
    "(DeviceDisconnectionRequest \<Rightarrow> MessageId \<Rightarrow> 'st \<Rightarrow> DeviceDisconnectionResponse \<times> 'st) option"

text \<open>The listener and the TLS acceptor are not part of the model.\<close>

record 'st Server =
  server_buffer_size :: nat
  server_state :: 'st
  server_handlers :: "'st ServerHandlers"

definition Server_new :: "'st \<Rightarrow> 'st Server" where
  "Server_new st =
     \<lparr>server_buffer_size = 1024, server_state = st,
      server_handlers =
        \<lparr>h_on_ping = None, h_on_hello = None, h_on_batch_upload = None, h_on_alert = None,
         h_on_dispatcher_status = None, h_on_device_disconnection = None\<rparr>\<rparr>"

definition Server_with_buffer :: "nat \<Rightarrow> 'st Server \<Rightarrow> 'st Server" where
  "Server_with_buffer n s = s\<lparr>server_buffer_size := n\<rparr>"

definition on_hello where
  "on_hello f s = s\<lparr>server_handlers := (server_handlers s)\<lparr>h_on_hello := Some f\<rparr>\<rparr>"

definition on_ping where
  "on_ping f s = s\<lparr>server_handlers := (server_handlers s)\<lparr>h_on_ping := Some f\<rparr>\<rparr>"

definition on_batch_upload where
  "on_batch_upload f s = s\<lparr>server_handlers := (server_handlers s)\<lparr>h_on_batch_upload := Some f\<rparr>\<rparr>"

definition on_alert where
  "on_alert f s = s\<lparr>server_handlers := (server_handlers s)\<lparr>h_on_alert := Some f\<rparr>\<rparr>"

definition on_dispatcher_status where
  "on_dispatcher_status f s =
     s\<lparr>server_handlers := (server_handlers s)\<lparr>h_on_dispatcher_status := Some f\<rparr>\<rparr>"

definition on_device_disconnection where
  "on_device_disconnection f s =
     s\<lparr>server_handlers := (server_handlers s)\<lparr>h_on_device_disconnection := Some f\<rparr>\<rparr>"

subsection \<open>The connection loop\<close>

text \<open>One envelope: the reply, if any, whether the connection is closed, and the new state.\<close>

definition handle_envelope ::
    "'st ServerHandlers \<Rightarrow> Envelope \<Rightarrow> 'st \<Rightarrow> (MessageId \<times> WireMessage) option \<times> bool \<times> 'st" where
  "handle_envelope h envelope st =
     (let mid = msg_id envelope
      in case payload envelope of
           Ping \<Rightarrow>
             (let st' = (case h_on_ping h of Some handler \<Rightarrow> handler mid st | None \<Rightarrow> st)
              in (Some (mid, Pong), False, st'))
         | MsgHelloRequest hello \<Rightarrow>
             (case h_on_hello h of
                Some handler \<Rightarrow>
                  (let (response, st') = handler hello mid st;
                       should_close = (case response of Rejected _ \<Rightarrow> True | _ \<Rightarrow> False)
                   in (Some (mid, MsgHelloResponse response), should_close, st'))
              | None \<Rightarrow> (None, False, st))
         | MsgBatchUploadRequest request \<Rightarrow>
             (case h_on_batch_upload h of
                Some handler \<Rightarrow>
                  (let (response, st') = handler request mid st
                   in (Some (mid, MsgBatchUploadResponse response), False, st'))
              | None \<Rightarrow> (None, False, st))
         | Pong \<Rightarrow> (None, False, st)
         | MsgHelloResponse _ \<Rightarrow> (None, False, st)
         | MsgBatchUploadResponse _ \<Rightarrow> (None, False, st)
         | MsgAlertRequest request \<Rightarrow>
             (case h_on_alert h of
                Some handler \<Rightarrow>
                  (let (response, st') = handler request mid st
                   in (Some (mid, MsgAlertResponse response), False, st'))
              | None \<Rightarrow> (None, False, st))
         | MsgAlertResponse _ \<Rightarrow> (None, False, st)
         | MsgDispatcherStatusRequest request \<Rightarrow>
             (case h_on_dispatcher_status h of
                Some handler \<Rightarrow>
                  (let (response, st') = handler request mid st
                   in (Some (mid, MsgDispatcherStatusResponse response), False, st'))
              | None \<Rightarrow> (None, False, st))
         | MsgDispatcherStatusResponse _ \<Rightarrow> (None, False, st)
         | MsgDeviceDisconnectionRequest request \<Rightarrow>
             (case h_on_device_disconnection h of
                Some handler \<Rightarrow>
                  (let (response, st') = handler request mid st
                   in (Some (mid, MsgDeviceDisconnectionResponse response), False, st'))
              | None \<Rightarrow> (None, False, st))
         | MsgDeviceDisconnectionResponse _ \<Rightarrow> (None, False, st)
         | MsgError _ \<Rightarrow> (None, False, st))"

text \<open>
  The loop over what \<open>rpc.recv\<close> returns until it returns \<open>None\<close> (the end of the list).
\<close>

fun handle_connection ::
    "'st ServerHandlers \<Rightarrow> Envelope list \<Rightarrow> 'st \<Rightarrow> (MessageId \<times> WireMessage) list \<times> 'st" where
  "handle_connection h [] st = ([], st)"
| "handle_connection h (envelope # rest) st =
     (case handle_envelope h envelope st of
        (reply, close, st') \<Rightarrow>
          if close then (case reply of None \<Rightarrow> [] | Some r \<Rightarrow> [r], st')
          else (case handle_connection h rest st' of
                  (replies, st'') \<Rightarrow> ((case reply of None \<Rightarrow> [] | Some r \<Rightarrow> [r]) @ replies, st'')))"

text \<open>
  \<open>serve\<close> accepts connections until it is cancelled and runs a task for each whose TLS handshake
  succeeds; the tasks share the state and outlive the accept loop.  An execution is a list of
  events, in which every message handled is one step.
\<close>

datatype server_event =
    Cancel
  | Accept_error
  | Accept nat bool  \<comment> \<open>the new connection, and whether the handshake succeeds\<close>
  | Arrives nat Envelope
  | Hung_up nat

record 'st serving =
  accepting :: bool
  open_conns :: "nat list"
  sent :: "(nat \<times> MessageId \<times> WireMessage) list"
  shared :: 'st

definition serve_start :: "'st \<Rightarrow> 'st serving" where
  "serve_start st = \<lparr>accepting = True, open_conns = [], sent = [], shared = st\<rparr>"

fun serve_step :: "'st ServerHandlers \<Rightarrow> server_event \<Rightarrow> 'st serving \<Rightarrow> 'st serving" where
  "serve_step h Cancel s = s\<lparr>accepting := False\<rparr>"
| "serve_step h Accept_error s = s"
| "serve_step h (Accept c ok) s =
     (if accepting s \<and> ok then s\<lparr>open_conns := c # open_conns s\<rparr> else s)"
| "serve_step h (Arrives c env) s =
     (if c \<in> set (open_conns s)
      then (case handle_envelope h env (shared s) of
              (reply, close, st') \<Rightarrow>
                s\<lparr>shared := st',
                  sent := sent s @ (case reply of None \<Rightarrow> [] | Some r \<Rightarrow> [(c, r)]),
                  open_conns := (if close then removeAll c (open_conns s) else open_conns s)\<rparr>)
      else s)"
| "serve_step h (Hung_up c) s = s\<lparr>open_conns := removeAll c (open_conns s)\<rparr>"

definition serve :: "'st ServerHandlers \<Rightarrow> server_event list \<Rightarrow> 'st \<Rightarrow> 'st serving" where
  "serve h events st = fold (serve_step h) events (serve_start st)"

subsection \<open>Specification\<close>

text \<open>Which requests have a handler, and which replies answer which requests.\<close>

fun answers :: "'st ServerHandlers \<Rightarrow> WireMessage \<Rightarrow> bool" where
  "answers h Ping = True"
| "answers h (MsgHelloRequest _) = (h_on_hello h \<noteq> None)"
| "answers h (MsgBatchUploadRequest _) = (h_on_batch_upload h \<noteq> None)"
| "answers h (MsgAlertRequest _) = (h_on_alert h \<noteq> None)"
| "answers h (MsgDispatcherStatusRequest _) = (h_on_dispatcher_status h \<noteq> None)"
| "answers h (MsgDeviceDisconnectionRequest _) = (h_on_device_disconnection h \<noteq> None)"
| "answers h _ = False"

definition reply_matches :: "WireMessage \<Rightarrow> WireMessage \<Rightarrow> bool" where
  "reply_matches request reply =
     (case request of
        Ping \<Rightarrow> reply = Pong
      | MsgHelloRequest _ \<Rightarrow> (case reply of MsgHelloResponse _ \<Rightarrow> True | _ \<Rightarrow> False)
      | MsgBatchUploadRequest _ \<Rightarrow> (case reply of MsgBatchUploadResponse _ \<Rightarrow> True | _ \<Rightarrow> False)
      | MsgAlertRequest _ \<Rightarrow> (case reply of MsgAlertResponse _ \<Rightarrow> True | _ \<Rightarrow> False)
      | MsgDispatcherStatusRequest _ \<Rightarrow>
          (case reply of MsgDispatcherStatusResponse _ \<Rightarrow> True | _ \<Rightarrow> False)
      | MsgDeviceDisconnectionRequest _ \<Rightarrow>
          (case reply of MsgDeviceDisconnectionResponse _ \<Rightarrow> True | _ \<Rightarrow> False)
      | _ \<Rightarrow> False)"

definition closes :: "WireMessage \<Rightarrow> bool" where
  "closes m \<longleftrightarrow> (\<exists>reason. m = MsgHelloResponse (Rejected reason))"

definition good_reply :: "Envelope \<Rightarrow> MessageId \<times> WireMessage \<Rightarrow> bool" where
  "good_reply env r \<longleftrightarrow> fst r = msg_id env \<and> reply_matches (payload env) (snd r)"

lemma handle_envelope_cases:
  assumes "handle_envelope h env st = (reply, close, st')"
  shows "(if answers h (payload env)
            then (\<exists>r. reply = Some r \<and> good_reply env r \<and> (close \<longleftrightarrow> closes (snd r)))
            else reply = None \<and> \<not> close \<and> st' = st)"
  using assms
  by (cases "payload env")
    (auto simp: handle_envelope_def good_reply_def reply_matches_def closes_def Let_def
      split: option.splits prod.splits HelloResponse.splits)

abbreviation handled :: "'st ServerHandlers \<Rightarrow> Envelope list \<Rightarrow> 'st \<Rightarrow> 'st" where
  "handled h \<equiv> fold (\<lambda>env st. snd (snd (handle_envelope h env st)))"

lemma handle_connection_spec:
  assumes "handle_connection h envs st = (replies, st')"
  shows "\<exists>n \<le> length envs.
    list_all2 good_reply (filter (\<lambda>e. answers h (payload e)) (take n envs)) replies \<and>
    st' = handled h (take n envs) st \<and>
    (\<forall>r \<in> set (butlast replies). \<not> closes (snd r)) \<and>
    (n < length envs \<longrightarrow> replies \<noteq> [] \<and> closes (snd (last replies)))"
  using assms
proof (induction envs arbitrary: st replies)
  case (Cons env envs)
  obtain reply close st1 where he: "handle_envelope h env st = (reply, close, st1)"
    by (metis prod_cases3)
  note one = handle_envelope_cases [OF he]
  show ?case
  proof (cases close)
    case True
    with one obtain r where r: "reply = Some r" "answers h (payload env)" "good_reply env r" "closes (snd r)"
      by (auto split: if_splits)
    with he True Cons.prems show ?thesis by (intro exI [of _ "Suc 0"]) auto
  next
    case False
    obtain rs where rs: "handle_connection h envs st1 = (rs, st')"
        "replies = (case reply of None \<Rightarrow> [] | Some r \<Rightarrow> [r]) @ rs"
      using Cons.prems he False by (auto split: prod.splits)
    obtain n where n: "n \<le> length envs"
        "list_all2 good_reply (filter (\<lambda>e. answers h (payload e)) (take n envs)) rs"
        "st' = handled h (take n envs) st1" "\<forall>r \<in> set (butlast rs). \<not> closes (snd r)"
        "n < length envs \<longrightarrow> rs \<noteq> [] \<and> closes (snd (last rs))"
      using Cons.IH [OF rs(1)] by blast
    with he rs(2) one False show ?thesis
      by (intro exI [of _ "Suc n"]) (auto split: if_splits)
  qed
qed simp

text \<open>The messages of one connection are handled by \<open>serve\<close> as by \<open>handle_connection\<close>.\<close>

lemma serve_closed_connection:
  "c \<notin> set (open_conns s) \<Longrightarrow> fold (serve_step h) (map (Arrives c) envs) s = s"
  by (induction envs) simp_all

lemma serve_one_connection:
  assumes "c \<in> set (open_conns s)"
  shows "fold (serve_step h) (map (Arrives c) envs) s =
    (let (replies, st') = handle_connection h envs (shared s)
     in s\<lparr>open_conns := (if replies \<noteq> [] \<and> closes (snd (last replies))
                         then removeAll c (open_conns s) else open_conns s),
          sent := sent s @ map (Pair c) replies, shared := st'\<rparr>)"
  using assms
proof (induction envs arbitrary: s)
  case (Cons env envs)
  obtain reply close st1 where he: "handle_envelope h env (shared s) = (reply, close, st1)"
    by (metis prod_cases3)
  note one = handle_envelope_cases [OF he]
  show ?case
  proof (cases close)
    case True
    with one he Cons.prems show ?thesis
      by (auto simp: serve_closed_connection Let_def split: if_splits)
  next
    case False
    with one he Cons show ?thesis
      by (auto simp: Let_def split: prod.splits if_splits)
  qed
qed simp

subsection \<open>Properties\<close>

text \<open>
  C10.  The server answers in order, once, with the right type.  The replies of a connection
  answer, one to one and in order, the requests with a handler among the first \<open>n\<close> messages:
  each carries the identifier of its request and the response type that belongs to it.  The
  state is the one after those \<open>n\<close> messages.  Unless all messages were processed, the last reply
  rejects a \<open>HelloRequest\<close>, and nothing after a rejection is processed.
\<close>

theorem server_replies_in_order:
  assumes "handle_connection h envs st = (replies, st')"
  shows "\<exists>n \<le> length envs.
    list_all2 good_reply (filter (\<lambda>e. answers h (payload e)) (take n envs)) replies \<and>
    st' = handled h (take n envs) st \<and>
    (\<forall>r \<in> set (butlast replies). \<not> closes (snd r)) \<and>
    (n < length envs \<longrightarrow> replies \<noteq> [] \<and> closes (snd (last replies)))"
  using assms by (rule handle_connection_spec)

text \<open>A server that rejects dispatcher 2 and counts its hello requests.\<close>

definition sample_handlers :: "nat ServerHandlers" where
  "sample_handlers = server_handlers
     (on_hello (\<lambda>req _ n. (if hello_dispatcher_id req = DispatcherId 2 then Rejected UnknownDispatcher
                          else Accepted (hello_dispatcher_id req), Suc n))
        (Server_new 0))"

definition hello_envelope :: "ulid \<Rightarrow> ulid \<Rightarrow> Envelope" where
  "hello_envelope i d =
     \<lparr>msg_id = MessageId i, reply_to = None,
      payload = MsgHelloRequest \<lparr>hello_dispatcher_id = DispatcherId d, hello_location = H3Cell 0\<rparr>\<rparr>"

definition sample_requests :: "Envelope list" where
  "sample_requests = [hello_envelope 1 1, ping_envelope 2, hello_envelope 3 2, ping_envelope 4]"

definition sample_replies :: "(MessageId \<times> WireMessage) list" where
  "sample_replies =
     [(MessageId 1, MsgHelloResponse (Accepted (DispatcherId 1))), (MessageId 2, Pong),
      (MessageId 3, MsgHelloResponse (Rejected UnknownDispatcher))]"

lemma sample_connection: "handle_connection sample_handlers sample_requests 0 = (sample_replies, 2)"
  by (simp add: sample_handlers_def Server_new_def on_hello_def handle_envelope_def hello_envelope_def
      ping_envelope_def sample_requests_def sample_replies_def)

theorem server_replies_in_order_witness:
  "\<exists>n \<le> length sample_requests.
     list_all2 good_reply (filter (\<lambda>e. answers sample_handlers (payload e)) (take n sample_requests))
       sample_replies \<and>
     2 = handled sample_handlers (take n sample_requests) 0"
  using server_replies_in_order [OF sample_connection] by blast

text \<open>
  A call over a connection whose other end is the server: the server's reply is the call's
  result, and a request the server does not answer ends in the timeout.
\<close>

definition loopback_call ::
    "'st ServerHandlers \<Rightarrow> MessageId \<Rightarrow> MessageId \<Rightarrow> 'st rpc_call_fn" where
  "loopback_call h new_id reply_id msg t st =
     (case handle_envelope h \<lparr>msg_id = new_id, reply_to = None, payload = msg\<rparr> st of
        (Some (k, p), _, st') \<Rightarrow> (Ok \<lparr>msg_id = reply_id, reply_to = Some k, payload = p\<rparr>, st')
      | (None, _, st') \<Rightarrow> (Err RpcTimeout, st'))"


end
