(* ===== verification/Rust_Text.thy ===== *)
theory Rust_Text
  imports Ersha_Prelude
begin

text \<open>
  The text that the source builds with \<open>format!\<close>, \<open>to_string\<close> and \<open>join\<close>: decimal numerals of
  unsigned and signed integers, lists with a separator, and raw string literals of several lines.
\<close>

function nat_to_string :: "nat \<Rightarrow> string" where
  "nat_to_string n =
     (if n < 10 then [char_of (48 + n)] else nat_to_string (n div 10) @ [char_of (48 + n mod 10)])"
  by auto
termination by (relation "measure id") auto

declare nat_to_string.simps [simp del]

definition int_to_string :: "int \<Rightarrow> string" where
  "int_to_string i = (if i < 0 then CHR ''-'' # nat_to_string (nat (- i)) else nat_to_string (nat i))"

fun join :: "string \<Rightarrow> string list \<Rightarrow> string" where
  "join sep [] = []"
| "join sep [s] = s"
| "join sep (s # t # ts) = s @ sep @ join sep (t # ts)"

text \<open>A raw literal that opens with a line break and ends every line with one.\<close>

definition raw_lines :: "string list \<Rightarrow> string" where
  "raw_lines ls = CHR 0x0A # concat (map (\<lambda>l. l @ [CHR 0x0A]) ls)"

subsection \<open>Numerals\<close>

definition digit_value :: "char \<Rightarrow> nat" where
  "digit_value c = of_char c - 48"

definition decimal_value :: "string \<Rightarrow> nat" where
  "decimal_value s = foldl (\<lambda>n c. n * 10 + digit_value c) 0 s"

lemma digit_value_char: "n < 10 \<Longrightarrow> digit_value (char_of (48 + n)) = n"
  by (simp add: digit_value_def)

lemma decimal_value_nat_to_string: "decimal_value (nat_to_string n) = n"
proof (induction n rule: nat_to_string.induct)
  case (1 n)
  then show ?case
    by (subst nat_to_string.simps) (auto simp: decimal_value_def digit_value_char)
qed

lemma digits_of_nat_to_string: "c \<in> set (nat_to_string n) \<Longrightarrow> \<exists>d < (10 :: nat). c = char_of (48 + d)"
proof (induction n rule: nat_to_string.induct)
  case (1 n)
  show ?case
  proof (cases "n < 10")
    case True
    with 1(2) show ?thesis by (auto simp: nat_to_string.simps [of n])
  next
    case False
    with 1(2) have "c \<in> set (nat_to_string (n div 10)) \<or> c = char_of (48 + n mod 10)"
      by (auto simp: nat_to_string.simps [of n])
    with 1(1) [OF False] show ?thesis by (metis mod_less_divisor zero_less_numeral)
  qed
qed

lemma digit_not: "d < (10 :: nat) \<Longrightarrow> of_char c < (48 :: nat) \<or> 57 < (of_char c :: nat) \<Longrightarrow> char_of (48 + d) \<noteq> c"
  by auto

lemma not_in_nat_to_string: "of_char c < (48 :: nat) \<or> 57 < (of_char c :: nat) \<Longrightarrow> c \<notin> set (nat_to_string n)"
  using digits_of_nat_to_string digit_not by fastforce

lemma int_to_string_inject: "int_to_string i = int_to_string j \<longleftrightarrow> i = j"
proof
  assume eq: "int_to_string i = int_to_string j"
  have minus: "CHR ''-'' \<notin> set (nat_to_string n)" for n
    by (rule not_in_nat_to_string) simp
  have "nat (- i) = nat (- j)" if "i < 0" "j < 0"
    using eq that decimal_value_nat_to_string by (metis int_to_string_def list.inject)
  moreover have "nat i = nat j" if "\<not> i < 0" "\<not> j < 0"
    using eq that decimal_value_nat_to_string by (metis int_to_string_def)
  moreover have "\<not> (i < 0 \<and> \<not> j < 0)" "\<not> (\<not> i < 0 \<and> j < 0)"
    using eq minus unfolding int_to_string_def by (metis list.set_intros(1))+
  ultimately show "i = j" by linarith
qed simp

subsection \<open>Occurrences of a character\<close>

lemma count_list_join:
  "count_list (join sep ss) c = sum_list (map (\<lambda>s. count_list s c) ss) + (length ss - 1) * count_list sep c"
  by (induction sep ss rule: join.induct) simp_all

lemma count_int_to_string [simp]: "count_list (int_to_string i) (CHR ''?'') = 0"
  using not_in_nat_to_string [of "CHR ''?''"]
  by (auto simp: int_to_string_def count_list_0_iff)

lemma count_nat_to_string [simp]: "count_list (nat_to_string n) (CHR ''?'') = 0"
  using not_in_nat_to_string [of "CHR ''?''"] by (auto simp: count_list_0_iff)

end
