(* ===== verification/Dispatch_Main.thy ===== *)
theory Dispatch_Main
  imports Dispatch_Edge_Tcp Dispatch_Memory Rpc_Server Rust_Text
begin

text \<open>
  The two background tasks of a dispatcher (\<open>ersha-dispatch/src/main.rs\<close>): the data collector,
  which stores what the edge receiver delivers and raises alerts, and the uploader, which keeps
  a client connected to prime, reports status and events and uploads pending data.

  The storage is a trait dictionary (theory \<open>Dispatch_Storage\<close>).  The client's calls are
  functions on a world that holds the storage, the shared state and the peer: what other tasks
  do while a call is awaited is part of the call.  Fresh identifiers, times and the text of a
  sensor identifier are arguments.
\<close>

subsection \<open>The data collector\<close>

record collector_env =
  ce_dispatcher :: DispatcherId
  ce_fresh :: "nat \<Rightarrow> ulid"
  ce_now :: "nat \<Rightarrow> timestamp"
  ce_show_sensor :: "SensorId \<Rightarrow> string"

text \<open>The counter indexes fresh identifiers and times.\<close>

record 's collector =
  co_storage :: 's
  co_state :: DispatcherInner
  co_count :: nat

definition battery_alert :: "collector_env \<Rightarrow> nat \<Rightarrow> DeviceStatus \<Rightarrow> AlertRequest" where
  "battery_alert env k status =
     \<lparr>al_id = AlertId (ce_fresh env k), al_dispatcher_id = ce_dispatcher env,
      al_device_id = Some (ds_device_id status), al_severity = Critical,
      al_type = CriticalBattery,
      al_message = ''Device battery critically low: '' @
        nat_to_string (unat (percent (ds_battery_percent status))) @ ''%'',
      al_timestamp = ce_now env k\<rparr>"

definition sensor_alert :: "collector_env \<Rightarrow> nat \<Rightarrow> DeviceStatus \<Rightarrow> SensorStatus \<Rightarrow> AlertRequest" where
  "sensor_alert env k status sensor_status =
     \<lparr>al_id = AlertId (ce_fresh env k), al_dispatcher_id = ce_dispatcher env,
      al_device_id = Some (ds_device_id status), al_severity = Warning,
      al_type = SensorFailure,
      al_message = ''Sensor '' @ ce_show_sensor env (ss_sensor_id sensor_status) @
        '' reported faulty state'',
      al_timestamp = ce_now env k\<rparr>"

definition raise_alert :: "AlertRequest \<Rightarrow> 's collector \<Rightarrow> 's collector" where
  "raise_alert a c = c\<lparr>co_state := queue_alert a (co_state c), co_count := Suc (co_count c)\<rparr>"

definition check_battery :: "collector_env \<Rightarrow> DeviceStatus \<Rightarrow> 's collector \<Rightarrow> 's collector" where
  "check_battery env status c =
     (if percent (ds_battery_percent status) < 10
      then raise_alert (battery_alert env (co_count c) status) c else c)"

definition check_sensor ::
    "collector_env \<Rightarrow> DeviceStatus \<Rightarrow> SensorStatus \<Rightarrow> 's collector \<Rightarrow> 's collector" where
  "check_sensor env status sensor_status c =
     (if ss_state sensor_status = Sensor_Faulty
      then raise_alert (sensor_alert env (co_count c) status sensor_status) c else c)"

definition collect ::
    "collector_env \<Rightarrow> ('s, 'err) storage_ops \<Rightarrow> EdgeData \<Rightarrow> 's collector \<Rightarrow> 's collector" where
  "collect env ops data c =
     (case data of
        EdgeReading reading \<Rightarrow> c\<lparr>co_storage := snd (op_store_reading ops reading (co_storage c))\<rparr>
      | EdgeStatus status \<Rightarrow>
          (let c1 = check_battery env status c;
               c2 = fold (check_sensor env status) (ds_sensor_statuses status) c1
           in c2\<lparr>co_storage := snd (op_store_status ops status (co_storage c2))\<rparr>))"

text \<open>The loop: data until the cancellation.\<close>

datatype collector_event = Collector_cancelled | Collector_data EdgeData

fun run_data_collector ::
    "collector_env \<Rightarrow> ('s, 'err) storage_ops \<Rightarrow> collector_event list \<Rightarrow> 's collector \<Rightarrow> 's collector" where
  "run_data_collector env ops [] c = c"
| "run_data_collector env ops (Collector_cancelled # evs) c = c"
| "run_data_collector env ops (Collector_data data # evs) c =
     run_data_collector env ops evs (collect env ops data c)"

subsection \<open>The uploader\<close>

record ('s, 'p) dispatch_world =
  w_storage :: 's
  w_state :: DispatcherInner
  w_peer :: 'p

datatype connect_error =
    Connect_io string
  | Connect_rpc ClientError
  | Connect_rejected HelloRejectionReason

definition connect_and_register ::
    "('w \<Rightarrow> (unit, string) result \<times> 'w) \<Rightarrow> 'w rpc_call_fn \<Rightarrow> DispatcherId \<Rightarrow> H3Cell \<Rightarrow> 'w \<Rightarrow>
     (unit, connect_error) result \<times> 'w" where
  "connect_and_register connect call dispatcher location w =
     (case connect w of
        (Inl e, w1) \<Rightarrow> (Err (Connect_io e), w1)
      | (Inr _, w1) \<Rightarrow>
          (let hello = \<lparr>hello_dispatcher_id = dispatcher, hello_location = location\<rparr>
           in case client_hello call DEFAULT_TIMEOUT hello w1 of
                (Inl e, w2) \<Rightarrow> (Err (Connect_rpc e), w2)
              | (Inr (Accepted _), w2) \<Rightarrow> (Ok (), w2)
              | (Inr (Rejected reason), w2) \<Rightarrow> (Err (Connect_rejected reason), w2)))"

text \<open>What a tick of the uploader reads from outside: times and the batch identifier.\<close>

record tick_env =
  te_dispatcher :: DispatcherId
  te_location :: H3Cell
  te_instant :: nat
  te_status_now :: timestamp
  te_event_now :: "nat \<Rightarrow> timestamp"
  te_batch_id :: ulid
  te_batch_now :: timestamp

definition send_event ::
    "tick_env \<Rightarrow> 'w rpc_call_fn \<Rightarrow> nat \<times> PrimeEvent \<Rightarrow> 'w \<Rightarrow> 'w" where
  "send_event env call kev w =
     (case snd kev of
        DeviceDisconnection device reason \<Rightarrow>
          (let request = \<lparr>ddr_device_id = device, ddr_dispatcher_id = te_dispatcher env,
                          ddr_timestamp = te_event_now env (fst kev), ddr_reason = Some reason\<rparr>
           in snd (client_device_disconnection call DEFAULT_TIMEOUT request w))
      | Alert a \<Rightarrow> snd (client_alert call DEFAULT_TIMEOUT a w))"

datatype tick_result =
    Connect_failed connect_error
  | Status_failed
  | Fetch_failed
  | Nothing_pending
  | Batch_uploaded
  | Upload_failed

definition make_batch :: "tick_env \<Rightarrow> SensorReading list \<Rightarrow> DeviceStatus list \<Rightarrow> BatchUploadRequest" where
  "make_batch env readings statuses =
     \<lparr>bu_id = BatchId (te_batch_id env), bu_dispatcher_id = te_dispatcher env,
      bu_readings = readings, bu_statuses = statuses, bu_timestamp = te_batch_now env\<rparr>"

definition upload_pending ::
    "tick_env \<Rightarrow> ('s, 'err) storage_ops \<Rightarrow> ('s, 'p) dispatch_world rpc_call_fn \<Rightarrow>
     ('s, 'p) dispatch_world \<Rightarrow> tick_result \<times> ('s, 'p) dispatch_world" where
  "upload_pending env ops call w =
     (case op_fetch_readings ops (w_storage w) of
        Inl _ \<Rightarrow> (Fetch_failed, w)
      | Inr readings \<Rightarrow>
          (case op_fetch_statuses ops (w_storage w) of
             Inl _ \<Rightarrow> (Fetch_failed, w)
           | Inr statuses \<Rightarrow>
               if readings = [] \<and> statuses = [] then (Nothing_pending, w)
               else
                 (let reading_ids = map rd_id readings;
                      status_ids = map ds_id statuses
                  in case client_batch_upload call DEFAULT_TIMEOUT (make_batch env readings statuses) w of
                       (Inr _, w1) \<Rightarrow>
                         (let s1 = snd (op_mark_readings ops reading_ids (w_storage w1));
                              s2 = snd (op_mark_statuses ops status_ids s1)
                          in (Batch_uploaded, w1\<lparr>w_storage := s2\<rparr>))
                     | (Inl _, w1) \<Rightarrow> (Upload_failed, w1))))"

text \<open>The local variables of the task; \<open>client\<close> says whether there is a client.\<close>

record ('s, 'p) uploader =
  client :: bool
  backoff :: nat
  world :: "('s, 'p) dispatch_world"

definition MAX_BACKOFF :: nat where "MAX_BACKOFF = 60"

definition uploader_start :: "('s, 'p) dispatch_world \<Rightarrow> ('s, 'p) uploader" where
  "uploader_start w = \<lparr>client = False, backoff = 1, world = w\<rparr>"

definition status_request :: "tick_env \<Rightarrow> PrimeEvent list \<Rightarrow> DispatcherInner \<Rightarrow> DispatcherStatusRequest" where
  "status_request env events st =
     \<lparr>dsr_dispatcher_id = te_dispatcher env, dsr_connected_devices = connected_count st,
      dsr_uptime_seconds = uptime_secs (te_instant env) st,
      dsr_pending_uploads = usize_as_u32 (length events), dsr_timestamp = te_status_now env\<rparr>"

text \<open>A tick with a client: status, events, data.  The flag says whether the client is kept.\<close>

definition report ::
    "tick_env \<Rightarrow> ('s, 'err) storage_ops \<Rightarrow> ('s, 'p) dispatch_world rpc_call_fn \<Rightarrow>
     ('s, 'p) dispatch_world \<Rightarrow> (tick_result \<times> bool) \<times> ('s, 'p) dispatch_world" where
  "report env ops call w =
     (let (events, st) = take_pending_events (w_state w);
          w1 = w\<lparr>w_state := st\<rparr>
      in case client_dispatcher_status call DEFAULT_TIMEOUT (status_request env events st) w1 of
           (Inl _, w2) \<Rightarrow> ((Status_failed, False), w2)
         | (Inr _, w2) \<Rightarrow>
             (let w3 = fold (send_event env call) (enumerate 0 events) w2;
                  (res, w4) = upload_pending env ops call w3
              in ((res, res \<noteq> Upload_failed), w4)))"

definition uploader_tick ::
    "tick_env \<Rightarrow> ('s, 'err) storage_ops \<Rightarrow>
     (('s, 'p) dispatch_world \<Rightarrow> (unit, string) result \<times> ('s, 'p) dispatch_world) \<Rightarrow>
     ('s, 'p) dispatch_world rpc_call_fn \<Rightarrow> ('s, 'p) uploader \<Rightarrow> tick_result \<times> ('s, 'p) uploader" where
  "uploader_tick env ops connect call u =
     (let (conn, u1) =
        (if client u then (Ok (), u)
         else case connect_and_register connect call (te_dispatcher env) (te_location env) (world u) of
                (Inr _, w) \<Rightarrow> (Ok (), u\<lparr>client := True, backoff := 1, world := w\<rparr>)
              | (Inl e, w) \<Rightarrow> (Err e, u\<lparr>backoff := min (backoff u * 2) MAX_BACKOFF, world := w\<rparr>))
      in case conn of
           Inl e \<Rightarrow> (Connect_failed e, u1)
         | Inr _ \<Rightarrow>
             (let ((res, keep), w) = report env ops call (world u1)
              in (res, u1\<lparr>client := keep, world := w\<rparr>)))"

datatype uploader_event = Uploader_cancelled | Uploader_tick tick_env

fun run_uploader ::
    "('s, 'err) storage_ops \<Rightarrow>
     (('s, 'p) dispatch_world \<Rightarrow> (unit, string) result \<times> ('s, 'p) dispatch_world) \<Rightarrow>
     ('s, 'p) dispatch_world rpc_call_fn \<Rightarrow> uploader_event list \<Rightarrow> ('s, 'p) uploader \<Rightarrow>
     tick_result list \<times> ('s, 'p) uploader" where
  "run_uploader ops connect call [] u = ([], u)"
| "run_uploader ops connect call (Uploader_cancelled # evs) u = ([], u)"
| "run_uploader ops connect call (Uploader_tick env # evs) u =
     (let (res, u1) = uploader_tick env ops connect call u;
          (rest, u2) = run_uploader ops connect call evs u1
      in (res # rest, u2))"

subsection \<open>What the collector does\<close>

text \<open>The alerts a status raises, in closed form: one for the battery, one per faulty sensor.\<close>

definition faulty_sensors :: "DeviceStatus \<Rightarrow> SensorStatus list" where
  "faulty_sensors status = filter (\<lambda>s. ss_state s = Sensor_Faulty) (ds_sensor_statuses status)"

definition sensor_alerts :: "collector_env \<Rightarrow> nat \<Rightarrow> DeviceStatus \<Rightarrow> SensorStatus list \<Rightarrow> AlertRequest list" where
  "sensor_alerts env k status ss = map (\<lambda>(i, s). sensor_alert env i status s) (enumerate k ss)"

definition status_alerts :: "collector_env \<Rightarrow> nat \<Rightarrow> DeviceStatus \<Rightarrow> AlertRequest list" where
  "status_alerts env k status =
     (if percent (ds_battery_percent status) < 10
      then battery_alert env k status # sensor_alerts env (Suc k) status (faulty_sensors status)
      else sensor_alerts env k status (faulty_sensors status))"

definition raised :: "AlertRequest list \<Rightarrow> 's collector \<Rightarrow> 's collector" where
  "raised alerts c =
     c\<lparr>co_state := (co_state c)\<lparr>pending_events := pending_events (co_state c) @ map Alert alerts\<rparr>,
       co_count := co_count c + length alerts\<rparr>"

lemma raised_Nil [simp]: "raised [] c = c"
  by (simp add: raised_def)

lemma raised_raised [simp]: "raised bs (raised as c) = raised (as @ bs) c"
  by (simp add: raised_def)

lemma raise_alert_raised: "raise_alert a c = raised [a] c"
  by (simp add: raise_alert_def raised_def queue_alert_def)

lemma check_sensors_raised:
  "fold (check_sensor env status) ss c =
     raised (sensor_alerts env (co_count c) status (filter (\<lambda>s. ss_state s = Sensor_Faulty) ss)) c"
proof (induction ss arbitrary: c)
  case (Cons s ss)
  then show ?case
    by (simp add: check_sensor_def raise_alert_raised sensor_alerts_def) (simp add: raised_def)
qed (simp add: sensor_alerts_def)

lemma collect_reading:
  "collect env ops (EdgeReading r) c = c\<lparr>co_storage := snd (op_store_reading ops r (co_storage c))\<rparr>"
  by (simp add: collect_def)

lemma collect_status:
  "collect env ops (EdgeStatus status) c =
     (let c' = raised (status_alerts env (co_count c) status) c
      in c'\<lparr>co_storage := snd (op_store_status ops status (co_storage c))\<rparr>)"
  by (simp add: collect_def check_battery_def check_sensors_raised raise_alert_raised status_alerts_def
      faulty_sensors_def Let_def) (simp add: raised_def)

fun collected :: "collector_event list \<Rightarrow> EdgeData list" where
  "collected (Collector_data d # evs) = d # collected evs"
| "collected _ = []"

fun readings_in :: "EdgeData list \<Rightarrow> SensorReading list" where
  "readings_in [] = []"
| "readings_in (EdgeReading r # ds) = r # readings_in ds"
| "readings_in (EdgeStatus _ # ds) = readings_in ds"

fun statuses_in :: "EdgeData list \<Rightarrow> DeviceStatus list" where
  "statuses_in [] = []"
| "statuses_in (EdgeStatus s # ds) = s # statuses_in ds"
| "statuses_in (EdgeReading _ # ds) = statuses_in ds"

lemma run_data_collector_fold:
  "run_data_collector env ops evs c = fold (collect env ops) (collected evs) c"
  by (induction env ops evs c rule: run_data_collector.induct) simp_all

abbreviation unit_memory_ops ::
    "(ReadingId, StoredSensorReading) hash_order \<Rightarrow> (StatusId, StoredDeviceStatus) hash_order \<Rightarrow>
     (MemoryStorage, unit) storage_ops" where
  "unit_memory_ops \<equiv> memory_ops"

lemma collect_memory:
  "pending_readings (co_storage (collect env (unit_memory_ops ro so) d c)) =
     (case d of EdgeReading r \<Rightarrow> (pending_readings (co_storage c))(rd_id r \<mapsto> r)
      | EdgeStatus _ \<Rightarrow> pending_readings (co_storage c))"
  "pending_statuses (co_storage (collect env (unit_memory_ops ro so) d c)) =
     (case d of EdgeReading _ \<Rightarrow> pending_statuses (co_storage c)
      | EdgeStatus st \<Rightarrow> (pending_statuses (co_storage c))(ds_id st \<mapsto> st))"
  by (cases d; auto simp: collect_status collect_reading memory_ops_def mem_store_reading_def mem_store_status_def
      Let_def pending_readings_def pending_statuses_def insert_reading_def insert_status_def hm_simps
      fun_eq_iff; simp add: raised_def)+

lemma fold_collect_memory:
  "pending_readings (co_storage (fold (collect env (unit_memory_ops ro so)) ds c)) =
     pending_readings (co_storage c) ++ map_of (rev (map (\<lambda>r. (rd_id r, r)) (readings_in ds)))"
  "pending_statuses (co_storage (fold (collect env (unit_memory_ops ro so)) ds c)) =
     pending_statuses (co_storage c) ++ map_of (rev (map (\<lambda>s. (ds_id s, s)) (statuses_in ds)))"
proof (induction ds arbitrary: c)
  case (Cons d ds)
  case 1 show ?case by (cases d) (simp_all add: Cons collect_memory map_add_def fun_eq_iff split: option.splits)
  case 2 show ?case by (cases d) (simp_all add: Cons collect_memory map_add_def fun_eq_iff split: option.splits)
qed simp_all

subsection \<open>What the uploader does\<close>

context dispatch_store
begin

lemma upload_pending_cases:
  assumes "upload_pending env ops call w = (res, w')"
  obtains
    (unchanged) "res = Fetch_failed \<or> res = Nothing_pending" "w' = w"
  | (failed) readings statuses e where "res = Upload_failed"
      "client_batch_upload call DEFAULT_TIMEOUT (make_batch env readings statuses) w = (Err e, w')"
  | (uploaded) readings statuses resp w1 where "res = Batch_uploaded"
      "op_fetch_readings ops (w_storage w) = Ok readings"
      "op_fetch_statuses ops (w_storage w) = Ok statuses"
      "client_batch_upload call DEFAULT_TIMEOUT (make_batch env readings statuses) w = (Ok resp, w1)"
      "w' = w1\<lparr>w_storage := mark_batch readings statuses (w_storage w1)\<rparr>"
proof (cases "op_fetch_readings ops (w_storage w)")
  case (Inl e)
  with assms show ?thesis by (intro unchanged) (auto simp: upload_pending_def)
next
  case r: (Inr readings)
  show ?thesis
  proof (cases "op_fetch_statuses ops (w_storage w)")
    case (Inl e)
    with r assms show ?thesis by (intro unchanged) (auto simp: upload_pending_def)
  next
    case st: (Inr statuses)
    obtain out w1 where out: "client_batch_upload call DEFAULT_TIMEOUT (make_batch env readings statuses) w = (out, w1)"
      by fastforce
    show ?thesis
    proof (cases "readings = [] \<and> statuses = []")
      case True
      with r st assms show ?thesis by (intro unchanged) (auto simp: upload_pending_def)
    next
      case False
      with r st out assms show ?thesis
        by (cases out)
          (auto simp: upload_pending_def mark_batch_def Let_def intro: failed uploaded [OF _ r st])
    qed
  qed
qed

text \<open>
  After an upload that prime confirmed, exactly the batch is no longer pending, apart from what
  the store had become while the answer was awaited; in every other case nothing is marked.
\<close>

lemma upload_pending_pend:
  assumes "upload_pending env ops call w = (Batch_uploaded, w')"
    and "\<And>m. inv (w_storage (snd (call m DEFAULT_TIMEOUT w)))"
  obtains readings statuses resp w1 where
    "op_fetch_readings ops (w_storage w) = Ok readings"
    "op_fetch_statuses ops (w_storage w) = Ok statuses"
    "client_batch_upload call DEFAULT_TIMEOUT (make_batch env readings statuses) w = (Ok resp, w1)"
    "\<And>i. i \<notin> rd_id ` set readings \<Longrightarrow> pend_r (w_storage w') i = pend_r (w_storage w1) i"
    "\<And>i. i \<notin> ds_id ` set statuses \<Longrightarrow> pend_s (w_storage w') i = pend_s (w_storage w1) i"
    "w' = w1\<lparr>w_storage := mark_batch readings statuses (w_storage w1)\<rparr>" "inv (w_storage w1)"
proof (cases rule: upload_pending_cases [OF assms(1)])
  case (3 readings statuses resp w1)
  moreover have "w1 = snd (call (MsgBatchUploadRequest (make_batch env readings statuses)) DEFAULT_TIMEOUT w)"
    using 3(4) batch_upload.method_ok_iff by (metis snd_conv)
  ultimately show ?thesis
    using assms(2) that [of readings statuses resp w1]
    by (simp add: mark_batch_readings mark_batch_statuses)
qed simp_all

end

text \<open>Requests in the order in which a tick makes them, over a peer that records them.\<close>

definition recording ::
    "(WireMessage \<Rightarrow> (Envelope, RpcError) result) \<Rightarrow> ('s, WireMessage list) dispatch_world rpc_call_fn" where
  "recording answer m t w = (answer m, w\<lparr>w_peer := w_peer w @ [m]\<rparr>)"

definition event_message :: "tick_env \<Rightarrow> nat \<times> PrimeEvent \<Rightarrow> WireMessage" where
  "event_message env kev =
     (case snd kev of
        DeviceDisconnection device reason \<Rightarrow>
          MsgDeviceDisconnectionRequest
            \<lparr>ddr_device_id = device, ddr_dispatcher_id = te_dispatcher env,
             ddr_timestamp = te_event_now env (fst kev), ddr_reason = Some reason\<rparr>
      | Alert a \<Rightarrow> MsgAlertRequest a)"

lemma send_event_recording:
  "send_event env (recording answer) kev w = w\<lparr>w_peer := w_peer w @ [event_message env kev]\<rparr>"
  by (auto simp: send_event_def event_message_def recording_def client_device_disconnection_def
      client_alert_def Let_def split: PrimeEvent.splits sum.splits)

lemma fold_send_event_recording:
  "fold (send_event env (recording answer)) kevs w =
     w\<lparr>w_peer := w_peer w @ map (event_message env) kevs\<rparr>"
  by (induction kevs arbitrary: w) (simp_all add: send_event_recording)

text \<open>The waiting time after failures to connect.\<close>

lemma min_double: "min (min (2 ^ k) MAX_BACKOFF * 2) MAX_BACKOFF = min (2 ^ Suc k) MAX_BACKOFF"
  by (simp add: MAX_BACKOFF_def min_def)

lemma run_uploader_disconnected:
  assumes "\<And>dispatcher location w. \<exists>e w'. connect_and_register connect call dispatcher location w = (Err e, w')"
    and "\<not> client u" and "backoff u = min (2 ^ k) MAX_BACKOFF"
  shows "\<not> client (snd (run_uploader ops connect call (map Uploader_tick envs) u)) \<and>
    backoff (snd (run_uploader ops connect call (map Uploader_tick envs) u)) =
      min (2 ^ (k + length envs)) MAX_BACKOFF"
  using assms(2,3)
proof (induction envs arbitrary: u k)
  case (Cons env envs)
  obtain e w' where "connect_and_register connect call (te_dispatcher env) (te_location env) (world u) = (Err e, w')"
    using assms(1) by blast
  then have "\<not> client (snd (uploader_tick env ops connect call u))"
      "backoff (snd (uploader_tick env ops connect call u)) = min (2 ^ Suc k) MAX_BACKOFF"
    using Cons.prems by (simp_all add: uploader_tick_def min_double)
  from Cons.IH [OF this] show ?case by (simp add: case_prod_unfold Let_def)
qed simp

subsection \<open>A dispatcher to run\<close>

definition sample_tick :: tick_env where
  "sample_tick =
     \<lparr>te_dispatcher = DispatcherId 7, te_location = H3Cell 1, te_instant = 5000000000, te_status_now = 10,
      te_event_now = (\<lambda>k. 11 + int k), te_batch_id = 40, te_batch_now = 20\<rparr>"

text \<open>One pending reading, one queued event, and a peer that has recorded nothing.\<close>

definition sample_world :: "(MemoryStorage, WireMessage list) dispatch_world" where
  "sample_world =
     \<lparr>w_storage = snd (mem_store_reading (sample_reading 1 5) MemoryStorage_default :: unit ures \<times> _),
      w_state = device_disconnected (DeviceId 5) GracefulClose (DispatcherState_new 0),
      w_peer = []\<rparr>"

definition sample_answer :: "WireMessage \<Rightarrow> (Envelope, RpcError) result" where
  "sample_answer m =
     Ok \<lparr>msg_id = MessageId 2, reply_to = Some (MessageId 1),
        payload = (case m of
             MsgDispatcherStatusRequest r \<Rightarrow>
               MsgDispatcherStatusResponse \<lparr>dsresp_dispatcher_id = dsr_dispatcher_id r\<rparr>
           | MsgBatchUploadRequest r \<Rightarrow>
               MsgBatchUploadResponse
                 \<lparr>br_id = bu_id r, br_readings_stored = 1, br_readings_rejected = 0,
                  br_statuses_stored = 0, br_statuses_rejected = 0\<rparr>
           | _ \<Rightarrow> Pong)\<rparr>"

lemma sample_world_storage:
  "MemoryStorage_inv (w_storage sample_world)"
  "op_fetch_readings (unit_memory_ops forward_order forward_order) (w_storage sample_world) =
     Ok [sample_reading 1 5]"
  "op_fetch_statuses (unit_memory_ops forward_order forward_order) (w_storage sample_world) = Ok []"
proof -
  show "MemoryStorage_inv (w_storage sample_world)"
    by (simp add: sample_world_def mem_readings.inv_store MemoryStorage_inv_default)
qed (simp_all add: sample_world_def memory_ops_def mem_reading_defs mem_status_defs
      MemoryStorage_default_def insert_reading_def hm_insert_def hm_values_def)

subsection \<open>Properties\<close>

text \<open>
  The collector stores everything and loses nothing.  Over the in-memory store, after any
  run of the collector the pending readings are those that were pending before, overridden by
  the readings delivered (the last one for each identifier), and the same for statuses.
\<close>

lemma collector_stores_all:
  "let c' = run_data_collector env (unit_memory_ops ro so) evs c;
       ds = collected evs
   in pending_readings (co_storage c') =
        pending_readings (co_storage c) ++ map_of (rev (map (\<lambda>r. (rd_id r, r)) (readings_in ds))) \<and>
      pending_statuses (co_storage c') =
        pending_statuses (co_storage c) ++ map_of (rev (map (\<lambda>s. (ds_id s, s)) (statuses_in ds)))"
  by (simp add: run_data_collector_fold fold_collect_memory Let_def)

text \<open>
  Alerts.  A status report queues one critical alert exactly if the battery is below 10
  percent, followed by one warning for each faulty sensor in the order of the report, each for
  the reporting device, and changes nothing else of the shared state.
\<close>

lemma collector_alerts:
  "\<exists>alerts.
     co_state (collect env ops (EdgeStatus status) c) =
       (co_state c)\<lparr>pending_events := pending_events (co_state c) @ map Alert alerts\<rparr> \<and>
     map (\<lambda>a. (al_severity a, al_type a)) alerts =
       (if unat (percent (ds_battery_percent status)) < 10 then [(Critical, CriticalBattery)] else []) @
       map (\<lambda>_. (Warning, SensorFailure)) (faulty_sensors status) \<and>
     set (map al_device_id alerts) \<subseteq> {Some (ds_device_id status)}"
proof (intro exI conjI)
  let ?alerts = "status_alerts env (co_count c) status"
  show "co_state (collect env ops (EdgeStatus status) c) =
      (co_state c)\<lparr>pending_events := pending_events (co_state c) @ map Alert ?alerts\<rparr>"
    by (simp add: collect_status Let_def raised_def)
  have sensors: "map (\<lambda>a. (al_severity a, al_type a)) (sensor_alerts env k status ss) =
      map (\<lambda>_. (Warning, SensorFailure)) ss" for k ss
    by (rule nth_equalityI) (simp_all add: sensor_alerts_def nth_enumerate_eq sensor_alert_def)
  show "map (\<lambda>a. (al_severity a, al_type a)) ?alerts =
      (if unat (percent (ds_battery_percent status)) < 10 then [(Critical, CriticalBattery)] else []) @
      map (\<lambda>_. (Warning, SensorFailure)) (faulty_sensors status)"
    by (simp add: status_alerts_def sensors battery_alert_def word_less_nat_alt)
  show "set (map al_device_id ?alerts) \<subseteq> {Some (ds_device_id status)}"
    by (auto simp: status_alerts_def sensor_alerts_def battery_alert_def sensor_alert_def)
qed



text \<open>
  The order of a tick.  With a client whose status report is answered, a tick of the
  uploader first reports the status, then sends every queued event exactly once and in order,
  whatever the answers, and last, if any reading or status is pending, one batch with all of them.
\<close>

lemma uploader_request_order:
  assumes "answer (MsgDispatcherStatusRequest
      (status_request env (pending_events (w_state w)) ((w_state w)\<lparr>pending_events := []\<rparr>))) = Ok reply"
    and "payload reply = MsgDispatcherStatusResponse resp"
    and "op_fetch_readings ops (w_storage w) = Ok readings"
    and "op_fetch_statuses ops (w_storage w) = Ok statuses"
  shows "w_peer (snd (report env ops (recording answer) w)) =
    w_peer w @
    MsgDispatcherStatusRequest
      (status_request env (pending_events (w_state w)) ((w_state w)\<lparr>pending_events := []\<rparr>)) #
    map (event_message env) (enumerate 0 (pending_events (w_state w))) @
    (if readings = [] \<and> statuses = [] then []
     else [MsgBatchUploadRequest (make_batch env readings statuses)])"
  using assms
  by (auto simp: report_def take_pending_events_def client_dispatcher_status_def recording_def [of answer "MsgDispatcherStatusRequest _"]
      fold_send_event_recording upload_pending_def Let_def client_batch_upload_def
      recording_def [of answer "MsgBatchUploadRequest _"] split: sum.splits prod.splits)

text \<open>
  A failed status report loses the queued events.  The uploader takes the events out of the
  shared state before it reports its status; when that report fails, the tick ends with the
  queue empty and without any further request, so no event that was queued is ever sent.
\<close>

lemma uploader_drops_events:
  assumes "call (MsgDispatcherStatusRequest
      (status_request env (pending_events (w_state w)) ((w_state w)\<lparr>pending_events := []\<rparr>)))
      DEFAULT_TIMEOUT (w\<lparr>w_state := (w_state w)\<lparr>pending_events := []\<rparr>\<rparr>) =
      (Err e, w\<lparr>w_state := (w_state w)\<lparr>pending_events := []\<rparr>\<rparr>)"
  shows "report env ops call w =
    ((Status_failed, False), w\<lparr>w_state := (w_state w)\<lparr>pending_events := []\<rparr>\<rparr>)"
  using assms by (simp add: report_def take_pending_events_def client_dispatcher_status_def)

text \<open>
  Exponential backoff.  As long as prime cannot be reached or rejects the dispatcher, the
  uploader has no client and after \<open>n\<close> failed ticks its waiting time is the smaller of 2^n and 60
  seconds.
\<close>

lemma uploader_backoff:
  assumes "\<And>dispatcher location w. \<exists>e w'. connect_and_register connect call dispatcher location w = (Err e, w')"
  shows "let u = snd (run_uploader ops connect call (map Uploader_tick envs) (uploader_start w))
    in \<not> client u \<and> backoff u = min (2 ^ length envs) 60"
  using run_uploader_disconnected [OF assms, of "uploader_start w" 0 ops envs]
  by (simp add: uploader_start_def MAX_BACKOFF_def Let_def)

end
