(* ===== verification/Prime_Filter.thy ===== *)
theory Prime_Filter
  imports Core_Types "HOL-Library.Multiset"
begin

text \<open>
  Queries on prime's registries (\<open>ersha-prime/src/registry/filter.rs\<close>): filters with their
  builders, sort criteria and pagination.  An inclusive range is a pair of its bounds.  The
  locale \<open>paged_listing\<close> states what a registry's \<open>list\<close> promises of sorting and pagination and
  proves that pages neither overlap nor leave gaps; each in-memory registry interprets it.
\<close>

subsection \<open>Criteria\<close>

datatype SensorMetricType = MT_SoilMoisture | MT_SoilTemp | MT_AirTemp | MT_Humidity | MT_Rainfall

datatype DeviceSortBy = DevBy_State | DevBy_Manufacturer | DevBy_ProvisionAt | DevBy_SensorCount

datatype DispatcherSortBy = DispBy_ProvisionAt

datatype ReadingSortBy = ReadBy_Timestamp | ReadBy_Confidence | ReadBy_DeviceId

datatype DeviceStatusSortBy = StatBy_Timestamp | StatBy_BatteryPercent | StatBy_DeviceId

datatype SortOrder = Asc | Desc

datatype Pagination = Offset nat nat | Cursor "ulid option" nat

record ('f, 's) QueryOptions =
  qo_filter :: 'f
  qo_sort_by :: 's
  qo_sort_order :: SortOrder
  qo_pagination :: Pagination

type_synonym 'a range_inclusive = "'a \<times> 'a"

definition range_contains :: "('a :: ord) range_inclusive \<Rightarrow> 'a \<Rightarrow> bool" where
  "range_contains r x \<longleftrightarrow> fst r \<le> x \<and> x \<le> snd r"

subsection \<open>Filters and builders\<close>

record DeviceFilter =
  df_ids :: "DeviceId list option"
  df_states :: "DeviceState list option"
  df_kinds :: "DeviceKind list option"
  df_locations :: "H3Cell list option"
  df_provisioned_after :: "timestamp option"
  df_provisioned_before :: "timestamp option"
  df_sensor_count :: "nat range_inclusive option"
  df_manufacturer_pattern :: "string option"

definition DeviceFilter_default :: DeviceFilter where
  "DeviceFilter_default =
     \<lparr>df_ids = None,
      df_states = None,
      df_kinds = None,
      df_locations = None,
      df_provisioned_after = None,
      df_provisioned_before = None,
      df_sensor_count = None,
      df_manufacturer_pattern = None\<rparr>"

record DeviceFilterBuilder =
  dfb_filter :: DeviceFilter

definition DeviceFilterBuilder_new :: DeviceFilterBuilder where
  "DeviceFilterBuilder_new = \<lparr>dfb_filter = DeviceFilter_default\<rparr>"

definition df_with_ids :: "DeviceId list \<Rightarrow> DeviceFilterBuilder \<Rightarrow> DeviceFilterBuilder" where
  "df_with_ids x b = b\<lparr>dfb_filter := (dfb_filter b)\<lparr>df_ids := Some x\<rparr>\<rparr>"

definition df_with_states :: "DeviceState list \<Rightarrow> DeviceFilterBuilder \<Rightarrow> DeviceFilterBuilder" where
  "df_with_states x b = b\<lparr>dfb_filter := (dfb_filter b)\<lparr>df_states := Some x\<rparr>\<rparr>"

definition df_with_kinds :: "DeviceKind list \<Rightarrow> DeviceFilterBuilder \<Rightarrow> DeviceFilterBuilder" where
  "df_with_kinds x b = b\<lparr>dfb_filter := (dfb_filter b)\<lparr>df_kinds := Some x\<rparr>\<rparr>"

definition df_with_locations :: "H3Cell list \<Rightarrow> DeviceFilterBuilder \<Rightarrow> DeviceFilterBuilder" where
  "df_with_locations x b = b\<lparr>dfb_filter := (dfb_filter b)\<lparr>df_locations := Some x\<rparr>\<rparr>"

definition df_with_provisioned_after :: "timestamp \<Rightarrow> DeviceFilterBuilder \<Rightarrow> DeviceFilterBuilder" where
  "df_with_provisioned_after x b = b\<lparr>dfb_filter := (dfb_filter b)\<lparr>df_provisioned_after := Some x\<rparr>\<rparr>"

definition df_with_provisioned_before :: "timestamp \<Rightarrow> DeviceFilterBuilder \<Rightarrow> DeviceFilterBuilder" where
  "df_with_provisioned_before x b = b\<lparr>dfb_filter := (dfb_filter b)\<lparr>df_provisioned_before := Some x\<rparr>\<rparr>"

definition df_with_sensor_count :: "nat range_inclusive \<Rightarrow> DeviceFilterBuilder \<Rightarrow> DeviceFilterBuilder" where
  "df_with_sensor_count x b = b\<lparr>dfb_filter := (dfb_filter b)\<lparr>df_sensor_count := Some x\<rparr>\<rparr>"

definition df_with_manufacturer_pattern :: "string \<Rightarrow> DeviceFilterBuilder \<Rightarrow> DeviceFilterBuilder" where
  "df_with_manufacturer_pattern x b = b\<lparr>dfb_filter := (dfb_filter b)\<lparr>df_manufacturer_pattern := Some x\<rparr>\<rparr>"

definition df_build :: "DeviceFilterBuilder \<Rightarrow> DeviceFilter" where
  "df_build b = dfb_filter b"

record DispatcherFilter =
  pf_states :: "DispatcherState list option"
  pf_locations :: "H3Cell list option"

definition DispatcherFilter_default :: DispatcherFilter where
  "DispatcherFilter_default =
     \<lparr>pf_states = None,
      pf_locations = None\<rparr>"

record DispatcherFilterBuilder =
  pfb_filter :: DispatcherFilter

definition DispatcherFilterBuilder_new :: DispatcherFilterBuilder where
  "DispatcherFilterBuilder_new = \<lparr>pfb_filter = DispatcherFilter_default\<rparr>"

definition pf_with_states :: "DispatcherState list \<Rightarrow> DispatcherFilterBuilder \<Rightarrow> DispatcherFilterBuilder" where
  "pf_with_states x b = b\<lparr>pfb_filter := (pfb_filter b)\<lparr>pf_states := Some x\<rparr>\<rparr>"

definition pf_with_locations :: "H3Cell list \<Rightarrow> DispatcherFilterBuilder \<Rightarrow> DispatcherFilterBuilder" where
  "pf_with_locations x b = b\<lparr>pfb_filter := (pfb_filter b)\<lparr>pf_locations := Some x\<rparr>\<rparr>"

definition pf_build :: "DispatcherFilterBuilder \<Rightarrow> DispatcherFilter" where
  "pf_build b = pfb_filter b"

record ReadingFilter =
  rf_ids :: "ReadingId list option"
  rf_device_ids :: "DeviceId list option"
  rf_sensor_ids :: "SensorId list option"
  rf_dispatcher_ids :: "DispatcherId list option"
  rf_metric_types :: "SensorMetricType list option"
  rf_locations :: "H3Cell list option"
  rf_timestamp_after :: "timestamp option"
  rf_timestamp_before :: "timestamp option"
  rf_confidence_range :: "u8 range_inclusive option"

definition ReadingFilter_default :: ReadingFilter where
  "ReadingFilter_default =
     \<lparr>rf_ids = None,
      rf_device_ids = None,
      rf_sensor_ids = None,
      rf_dispatcher_ids = None,
      rf_metric_types = None,
      rf_locations = None,
      rf_timestamp_after = None,
      rf_timestamp_before = None,
      rf_confidence_range = None\<rparr>"

record ReadingFilterBuilder =
  rfb_filter :: ReadingFilter

definition ReadingFilterBuilder_new :: ReadingFilterBuilder where
  "ReadingFilterBuilder_new = \<lparr>rfb_filter = ReadingFilter_default\<rparr>"

definition rf_with_ids :: "ReadingId list \<Rightarrow> ReadingFilterBuilder \<Rightarrow> ReadingFilterBuilder" where
  "rf_with_ids x b = b\<lparr>rfb_filter := (rfb_filter b)\<lparr>rf_ids := Some x\<rparr>\<rparr>"

definition rf_with_device_ids :: "DeviceId list \<Rightarrow> ReadingFilterBuilder \<Rightarrow> ReadingFilterBuilder" where
  "rf_with_device_ids x b = b\<lparr>rfb_filter := (rfb_filter b)\<lparr>rf_device_ids := Some x\<rparr>\<rparr>"

definition rf_with_sensor_ids :: "SensorId list \<Rightarrow> ReadingFilterBuilder \<Rightarrow> ReadingFilterBuilder" where
  "rf_with_sensor_ids x b = b\<lparr>rfb_filter := (rfb_filter b)\<lparr>rf_sensor_ids := Some x\<rparr>\<rparr>"

definition rf_with_dispatcher_ids :: "DispatcherId list \<Rightarrow> ReadingFilterBuilder \<Rightarrow> ReadingFilterBuilder" where
  "rf_with_dispatcher_ids x b = b\<lparr>rfb_filter := (rfb_filter b)\<lparr>rf_dispatcher_ids := Some x\<rparr>\<rparr>"

definition rf_with_metric_types :: "SensorMetricType list \<Rightarrow> ReadingFilterBuilder \<Rightarrow> ReadingFilterBuilder" where
  "rf_with_metric_types x b = b\<lparr>rfb_filter := (rfb_filter b)\<lparr>rf_metric_types := Some x\<rparr>\<rparr>"

definition rf_with_locations :: "H3Cell list \<Rightarrow> ReadingFilterBuilder \<Rightarrow> ReadingFilterBuilder" where
  "rf_with_locations x b = b\<lparr>rfb_filter := (rfb_filter b)\<lparr>rf_locations := Some x\<rparr>\<rparr>"

definition rf_with_timestamp_after :: "timestamp \<Rightarrow> ReadingFilterBuilder \<Rightarrow> ReadingFilterBuilder" where
  "rf_with_timestamp_after x b = b\<lparr>rfb_filter := (rfb_filter b)\<lparr>rf_timestamp_after := Some x\<rparr>\<rparr>"

definition rf_with_timestamp_before :: "timestamp \<Rightarrow> ReadingFilterBuilder \<Rightarrow> ReadingFilterBuilder" where
  "rf_with_timestamp_before x b = b\<lparr>rfb_filter := (rfb_filter b)\<lparr>rf_timestamp_before := Some x\<rparr>\<rparr>"

definition rf_with_confidence_range :: "u8 range_inclusive \<Rightarrow> ReadingFilterBuilder \<Rightarrow> ReadingFilterBuilder" where
  "rf_with_confidence_range x b = b\<lparr>rfb_filter := (rfb_filter b)\<lparr>rf_confidence_range := Some x\<rparr>\<rparr>"

definition rf_build :: "ReadingFilterBuilder \<Rightarrow> ReadingFilter" where
  "rf_build b = rfb_filter b"

record DeviceStatusFilter =
  sf_ids :: "StatusId list option"
  sf_device_ids :: "DeviceId list option"
  sf_dispatcher_ids :: "DispatcherId list option"
  sf_timestamp_after :: "timestamp option"
  sf_timestamp_before :: "timestamp option"
  sf_battery_range :: "u8 range_inclusive option"
  sf_has_errors :: "bool option"
  sf_error_codes :: "DeviceErrorCode list option"

definition DeviceStatusFilter_default :: DeviceStatusFilter where
  "DeviceStatusFilter_default =
     \<lparr>sf_ids = None,
      sf_device_ids = None,
      sf_dispatcher_ids = None,
      sf_timestamp_after = None,
      sf_timestamp_before = None,
      sf_battery_range = None,
      sf_has_errors = None,
      sf_error_codes = None\<rparr>"

record DeviceStatusFilterBuilder =
  sfb_filter :: DeviceStatusFilter

definition DeviceStatusFilterBuilder_new :: DeviceStatusFilterBuilder where
  "DeviceStatusFilterBuilder_new = \<lparr>sfb_filter = DeviceStatusFilter_default\<rparr>"

definition sf_with_ids :: "StatusId list \<Rightarrow> DeviceStatusFilterBuilder \<Rightarrow> DeviceStatusFilterBuilder" where
  "sf_with_ids x b = b\<lparr>sfb_filter := (sfb_filter b)\<lparr>sf_ids := Some x\<rparr>\<rparr>"

definition sf_with_device_ids :: "DeviceId list \<Rightarrow> DeviceStatusFilterBuilder \<Rightarrow> DeviceStatusFilterBuilder" where
  "sf_with_device_ids x b = b\<lparr>sfb_filter := (sfb_filter b)\<lparr>sf_device_ids := Some x\<rparr>\<rparr>"

definition sf_with_dispatcher_ids :: "DispatcherId list \<Rightarrow> DeviceStatusFilterBuilder \<Rightarrow> DeviceStatusFilterBuilder" where
  "sf_with_dispatcher_ids x b = b\<lparr>sfb_filter := (sfb_filter b)\<lparr>sf_dispatcher_ids := Some x\<rparr>\<rparr>"

definition sf_with_timestamp_after :: "timestamp \<Rightarrow> DeviceStatusFilterBuilder \<Rightarrow> DeviceStatusFilterBuilder" where
  "sf_with_timestamp_after x b = b\<lparr>sfb_filter := (sfb_filter b)\<lparr>sf_timestamp_after := Some x\<rparr>\<rparr>"

definition sf_with_timestamp_before :: "timestamp \<Rightarrow> DeviceStatusFilterBuilder \<Rightarrow> DeviceStatusFilterBuilder" where
  "sf_with_timestamp_before x b = b\<lparr>sfb_filter := (sfb_filter b)\<lparr>sf_timestamp_before := Some x\<rparr>\<rparr>"

definition sf_with_battery_range :: "u8 range_inclusive \<Rightarrow> DeviceStatusFilterBuilder \<Rightarrow> DeviceStatusFilterBuilder" where
  "sf_with_battery_range x b = b\<lparr>sfb_filter := (sfb_filter b)\<lparr>sf_battery_range := Some x\<rparr>\<rparr>"

definition sf_with_has_errors :: "bool \<Rightarrow> DeviceStatusFilterBuilder \<Rightarrow> DeviceStatusFilterBuilder" where
  "sf_with_has_errors x b = b\<lparr>sfb_filter := (sfb_filter b)\<lparr>sf_has_errors := Some x\<rparr>\<rparr>"

definition sf_with_error_codes :: "DeviceErrorCode list \<Rightarrow> DeviceStatusFilterBuilder \<Rightarrow> DeviceStatusFilterBuilder" where
  "sf_with_error_codes x b = b\<lparr>sfb_filter := (sfb_filter b)\<lparr>sf_error_codes := Some x\<rparr>\<rparr>"

definition sf_build :: "DeviceStatusFilterBuilder \<Rightarrow> DeviceStatusFilter" where
  "sf_build b = sfb_filter b"

subsection \<open>Shared parts of the filters\<close>

text \<open>An absent criterion accepts everything; a list accepts its members.\<close>

definition accepts :: "'a list option \<Rightarrow> 'a \<Rightarrow> bool" where
  "accepts c x = (case c of None \<Rightarrow> True | Some xs \<Rightarrow> x \<in> set xs)"

definition in_range :: "('a :: ord) range_inclusive option \<Rightarrow> 'a \<Rightarrow> bool" where
  "in_range c x = (case c of None \<Rightarrow> True | Some r \<Rightarrow> range_contains r x)"

definition in_window :: "timestamp option \<Rightarrow> timestamp option \<Rightarrow> timestamp \<Rightarrow> bool" where
  "in_window after before t =
     (case (after, before) of
        (None, None) \<Rightarrow> True
      | (None, Some b) \<Rightarrow> \<not> b < t
      | (Some a, None) \<Rightarrow> \<not> t < a
      | (Some a, Some b) \<Rightarrow> \<not> (t < a \<or> b < t))"

lemma in_window_iff:
  "in_window after before t \<longleftrightarrow>
     (\<forall>a. after = Some a \<longrightarrow> a \<le> t) \<and> (\<forall>b. before = Some b \<longrightarrow> t \<le> b)"
  by (auto simp: in_window_def split: option.splits)

lemma accepts_simps [simp]:
  "accepts None x"
  "accepts (Some xs) x \<longleftrightarrow> x \<in> set xs"
  by (simp_all add: accepts_def)

lemma in_range_simps [simp]:
  "in_range None x"
  "in_range (Some (lo, hi)) x \<longleftrightarrow> lo \<le> x \<and> x \<le> hi"
  by (simp_all add: in_range_def range_contains_def)

subsection \<open>Listing\<close>

text \<open>
  What the three steps of a registry's \<open>list\<close> promise: sorting permutes, an offset page is a
  slice, and a cursor page starts after the record with the given identifier.
\<close>

locale paged_listing =
  fixes sort_rows :: "'r list \<Rightarrow> 'sb \<Rightarrow> SortOrder \<Rightarrow> 'r list"
    and paginate :: "'r list \<Rightarrow> Pagination \<Rightarrow> 'r list"
    and row_id :: "'r \<Rightarrow> ulid"
  assumes sort_mset: "mset (sort_rows xs sb ord) = mset xs"
    and offset_page: "paginate xs (Offset k n) = take n (drop k xs)"
    and cursor_start: "paginate xs (Cursor None n) = []"
    and cursor_page: "paginate xs (Cursor (Some u) n) = take n (drop 1 (dropWhile (\<lambda>r. row_id r \<noteq> u) xs))"
begin

lemma sort_set [simp]: "set (sort_rows xs sb ord) = set xs"
  using sort_mset by (metis set_mset_mset)

lemma sort_length [simp]: "length (sort_rows xs sb ord) = length xs"
  using sort_mset by (metis size_mset)

lemma sort_distinct: "distinct (map f (sort_rows xs sb ord)) = distinct (map f xs)"
  using sort_mset [of xs sb ord] by (metis mset_eq_imp_distinct_iff mset_map)

text \<open>Consecutive offset pages are the sorted rows, without gaps or repetitions.\<close>

lemma offset_pages: "concat (map (\<lambda>i. paginate xs (Offset (i * n) n)) [0..<k]) = take (k * n) xs"
  by (induction k) (simp_all add: offset_page add.commute flip: take_add)

text \<open>The page after a row is the slice behind it.\<close>

lemma dropWhile_nth:
  "distinct (map row_id xs) \<Longrightarrow> i < length xs \<Longrightarrow> dropWhile (\<lambda>r. row_id r \<noteq> row_id (xs ! i)) xs = drop i xs"
proof (induction xs arbitrary: i)
  case (Cons x xs)
  then show ?case by (cases i) (auto simp: nth_mem)
qed simp

lemma cursor_after:
  assumes "distinct (map row_id xs)" and "i < length xs"
  shows "paginate xs (Cursor (Some (row_id (xs ! i))) n) = take n (drop (Suc i) xs)"
  using assms by (simp add: cursor_page dropWhile_nth)

lemma page_subset: "set (paginate xs p) \<subseteq> set xs"
proof (cases p)
  case (Offset k n)
  then show ?thesis by (auto simp: offset_page dest: in_set_takeD in_set_dropD)
next
  case (Cursor after n)
  then show ?thesis
    by (cases after) (auto simp: cursor_start cursor_page dest!: in_set_takeD in_set_dropD set_dropWhileD)
qed

end

end
