(* ===== verification/Prime_Registry.thy ===== *)
theory Prime_Registry
  imports Prime_Filter
begin

text \<open>
  The registry traits of prime (\<open>ersha-prime/src/registry/mod.rs\<close>) as records of functions on a
  registry state, the error of the in-memory registries (\<open>registry/memory/mod.rs\<close>), and the
  contract of storing and looking up records, the locale \<open>keyed_registry\<close>.
\<close>

record ('m, 'e) DeviceRegistry =
  dev_register :: "Device \<Rightarrow> 'm \<Rightarrow> (unit, 'e) result \<times> 'm"
  dev_get :: "DeviceId \<Rightarrow> 'm \<Rightarrow> (Device option, 'e) result"
  dev_update :: "DeviceId \<Rightarrow> Device \<Rightarrow> 'm \<Rightarrow> (unit, 'e) result \<times> 'm"
  dev_suspend :: "DeviceId \<Rightarrow> 'm \<Rightarrow> (unit, 'e) result \<times> 'm"
  dev_add_sensor :: "DeviceId \<Rightarrow> Sensor \<Rightarrow> 'm \<Rightarrow> (unit, 'e) result \<times> 'm"
  dev_add_sensors :: "DeviceId \<Rightarrow> Sensor list \<Rightarrow> 'm \<Rightarrow> (unit, 'e) result \<times> 'm"
  dev_batch_register :: "Device list \<Rightarrow> 'm \<Rightarrow> (unit, 'e) result \<times> 'm"
  dev_count :: "DeviceFilter option \<Rightarrow> 'm \<Rightarrow> (nat, 'e) result"
  dev_list :: "(DeviceFilter, DeviceSortBy) QueryOptions \<Rightarrow> 'm \<Rightarrow> (Device list, 'e) result"

record ('m, 'e) DispatcherRegistry =
  disp_register :: "Dispatcher \<Rightarrow> 'm \<Rightarrow> (unit, 'e) result \<times> 'm"
  disp_get :: "DispatcherId \<Rightarrow> 'm \<Rightarrow> (Dispatcher option, 'e) result"
  disp_update :: "DispatcherId \<Rightarrow> Dispatcher \<Rightarrow> 'm \<Rightarrow> (unit, 'e) result \<times> 'm"
  disp_suspend :: "DispatcherId \<Rightarrow> 'm \<Rightarrow> (unit, 'e) result \<times> 'm"
  disp_batch_register :: "Dispatcher list \<Rightarrow> 'm \<Rightarrow> (unit, 'e) result \<times> 'm"
  disp_count :: "DispatcherFilter option \<Rightarrow> 'm \<Rightarrow> (nat, 'e) result"
  disp_list :: "(DispatcherFilter, DispatcherSortBy) QueryOptions \<Rightarrow> 'm \<Rightarrow> (Dispatcher list, 'e) result"

record ('m, 'e) ReadingRegistry =
  read_store :: "SensorReading \<Rightarrow> 'm \<Rightarrow> (unit, 'e) result \<times> 'm"
  read_get :: "ReadingId \<Rightarrow> 'm \<Rightarrow> (SensorReading option, 'e) result"
  read_batch_store :: "SensorReading list \<Rightarrow> 'm \<Rightarrow> (unit, 'e) result \<times> 'm"
  read_count :: "ReadingFilter option \<Rightarrow> 'm \<Rightarrow> (nat, 'e) result"
  read_list :: "(ReadingFilter, ReadingSortBy) QueryOptions \<Rightarrow> 'm \<Rightarrow> (SensorReading list, 'e) result"

record ('m, 'e) DeviceStatusRegistry =
  stat_store :: "DeviceStatus \<Rightarrow> 'm \<Rightarrow> (unit, 'e) result \<times> 'm"
  stat_get :: "StatusId \<Rightarrow> 'm \<Rightarrow> (DeviceStatus option, 'e) result"
  stat_get_latest :: "DeviceId \<Rightarrow> 'm \<Rightarrow> (DeviceStatus option, 'e) result"
  stat_batch_store :: "DeviceStatus list \<Rightarrow> 'm \<Rightarrow> (unit, 'e) result \<times> 'm"
  stat_count :: "DeviceStatusFilter option \<Rightarrow> 'm \<Rightarrow> (nat, 'e) result"
  stat_list ::
    "(DeviceStatusFilter, DeviceStatusSortBy) QueryOptions \<Rightarrow> 'm \<Rightarrow> (DeviceStatus list, 'e) result"

datatype InMemoryError = NotFound

text \<open>A loop over \<open>f(x).await?\<close>: it stops at the first error.\<close>

fun try_each :: "('a \<Rightarrow> 'm \<Rightarrow> (unit, 'e) result \<times> 'm) \<Rightarrow> 'a list \<Rightarrow> 'm \<Rightarrow> (unit, 'e) result \<times> 'm" where
  "try_each f [] m = (Ok (), m)"
| "try_each f (x # xs) m =
     (case f x m of
        (Inl e, m') \<Rightarrow> (Err e, m')
      | (Inr _, m') \<Rightarrow> try_each f xs m')"

lemma find_append: "find P (xs @ ys) = (case find P xs of Some x \<Rightarrow> Some x | None \<Rightarrow> find P ys)"
  by (induction xs) simp_all

lemma find_SomeD: "find P xs = Some x \<Longrightarrow> x \<in> set xs \<and> P x"
  by (induction xs) (auto split: if_splits)

text \<open>
  The contract of a registry: a record that was stored is found under its own identifier, in the
  form \<open>norm\<close> in which the registry keeps it, other records are untouched, and a failing operation
  changes no lookup.  \<open>valid\<close> are the records the registry can represent.
\<close>

locale keyed_registry =
  fixes put :: "'r \<Rightarrow> 'm \<Rightarrow> (unit, 'e) result \<times> 'm"
    and get :: "'k \<Rightarrow> 'm \<Rightarrow> ('r option, 'e) result"
    and rid :: "'r \<Rightarrow> 'k"
    and norm :: "'r \<Rightarrow> 'r"
    and valid :: "'r \<Rightarrow> bool"
    and inv :: "'m \<Rightarrow> bool"
  assumes inv_put: "inv m \<Longrightarrow> valid r \<Longrightarrow> inv (snd (put r m))"
    and get_put: "inv m \<Longrightarrow> valid r \<Longrightarrow> put r m = (Ok (), m') \<Longrightarrow>
      get k m' = (if k = rid r then Ok (Some (norm r)) else get k m)"
    and get_put_err: "inv m \<Longrightarrow> put r m = (Err e, m') \<Longrightarrow> get k m' = get k m"
begin

lemma inv_try_each: "inv m \<Longrightarrow> list_all valid rs \<Longrightarrow> inv (snd (try_each put rs m))"
proof (induction rs arbitrary: m)
  case (Cons r rs)
  then show ?case
    using inv_put [of m r] by (cases "put r m"; cases "fst (put r m)") auto
qed simp

text \<open>A batch that succeeds: the last record stored under an identifier is found.\<close>

lemma get_try_each:
  "inv m \<Longrightarrow> list_all valid rs \<Longrightarrow> try_each put rs m = (Ok (), m') \<Longrightarrow>
     get k m' = (case find (\<lambda>r. rid r = k) (rev rs) of Some r \<Rightarrow> Ok (Some (norm r)) | None \<Rightarrow> get k m)"
proof (induction rs arbitrary: m)
  case (Cons r rs)
  obtain m1 where m1: "put r m = (Ok (), m1)" "try_each put rs m1 = (Ok (), m')"
    using Cons.prems(3) by (auto split: prod.splits sum.splits)
  have valid: "valid r" "list_all valid rs" using Cons.prems(2) by simp_all
  have "inv m1" using inv_put [OF Cons.prems(1) valid(1)] m1(1) by simp
  from Cons.IH [OF this valid(2) m1(2)] get_put [OF Cons.prems(1) valid(1) m1(1), of k] show ?case
    by (auto simp: find_append split: option.splits)
qed simp

end

subsection \<open>Rows of an in-memory registry\<close>

text \<open>A map in which every record is stored under its own identifier.\<close>

definition rows_ok :: "('r \<Rightarrow> 'k) \<Rightarrow> ('k, 'r) hashmap \<Rightarrow> bool" where
  "rows_ok rid m \<longleftrightarrow> hm_wf m \<and> (\<forall>k r. hm_get m k = Some r \<longrightarrow> rid r = k)"

lemma rows_ok_Nil [simp]: "rows_ok rid []"
  by (simp add: rows_ok_def)

lemma rows_ok_insert [simp]: "rows_ok rid m \<Longrightarrow> rid r = k \<Longrightarrow> rows_ok rid (hm_insert k r m)"
  by (auto simp: rows_ok_def hm_simps)

lemma rows_ok_get: "rows_ok rid m \<Longrightarrow> hm_get m k = Some r \<Longrightarrow> rid r = k"
  by (simp add: rows_ok_def)

lemma set_filter_values:
  "rows_ok rid m \<Longrightarrow> set (filter P (hm_values ord m)) = {r. hm_get m (rid r) = Some r \<and> P r}"
  by (auto simp: rows_ok_def hm_values_mem)

lemma distinct_filter_values:
  "rows_ok rid m \<Longrightarrow> distinct (map rid (filter P (hm_values ord m)))"
  by (simp add: rows_ok_def distinct_map_filter distinct_hm_values)

end
