(* ===== verification/Prime_Memory_Device.thy ===== *)
theory Prime_Memory_Device
  imports Prime_Registry Fixtures
    "HOL-Library.Sorting_Algorithms" "HOL-Library.Option_ord" "HOL-Library.List_Lexorder"
    "HOL-Library.Char_ord" "HOL-Library.Sublist"
begin

text \<open>
  The in-memory device registry of prime (\<open>ersha-prime/src/registry/memory/device.rs\<close>).  The
  iteration order of the hash map and \<open>str::to_lowercase\<close>, which depends on the Unicode tables of
  the standard library, are arguments.  Rust's \<open>sort_by\<close> is stable, as is \<open>sort\<close> here.
\<close>

record InMemoryDeviceRegistry =
  devices :: "(DeviceId, Device) hashmap"

definition InMemoryDeviceRegistry_new :: InMemoryDeviceRegistry where
  "InMemoryDeviceRegistry_new = \<lparr>devices = []\<rparr>"

type_synonym 'a mem_result = "('a, InMemoryError) result"

definition imd_register :: "Device \<Rightarrow> InMemoryDeviceRegistry \<Rightarrow> unit mem_result \<times> InMemoryDeviceRegistry" where
  "imd_register device m = (Ok (), m\<lparr>devices := hm_insert (dev_id device) device (devices m)\<rparr>)"

definition imd_add_sensor ::
    "DeviceId \<Rightarrow> Sensor \<Rightarrow> InMemoryDeviceRegistry \<Rightarrow> unit mem_result \<times> InMemoryDeviceRegistry" where
  "imd_add_sensor i sensor m =
     (case hm_get (devices m) i of
        None \<Rightarrow> (Err NotFound, m)
      | Some device \<Rightarrow>
          (let device' = device\<lparr>dev_sensors := dev_sensors device @ [sensor]\<rparr>
           in (Ok (), m\<lparr>devices := hm_insert i device' (devices m)\<rparr>)))"

definition imd_add_sensors ::
    "DeviceId \<Rightarrow> Sensor list \<Rightarrow> InMemoryDeviceRegistry \<Rightarrow> unit mem_result \<times> InMemoryDeviceRegistry" where
  "imd_add_sensors i sensors m =
     (case hm_get (devices m) i of
        None \<Rightarrow> (Err NotFound, m)
      | Some device \<Rightarrow>
          (let device' = device\<lparr>dev_sensors := dev_sensors device @ sensors\<rparr>
           in (Ok (), m\<lparr>devices := hm_insert i device' (devices m)\<rparr>)))"

definition imd_get :: "DeviceId \<Rightarrow> InMemoryDeviceRegistry \<Rightarrow> Device option mem_result" where
  "imd_get i m = Ok (hm_get (devices m) i)"

definition imd_update ::
    "DeviceId \<Rightarrow> Device \<Rightarrow> InMemoryDeviceRegistry \<Rightarrow> unit mem_result \<times> InMemoryDeviceRegistry" where
  "imd_update i new m = (Ok (), m\<lparr>devices := hm_insert i new (devices m)\<rparr>)"

definition imd_suspend ::
    "DeviceId \<Rightarrow> InMemoryDeviceRegistry \<Rightarrow> unit mem_result \<times> InMemoryDeviceRegistry" where
  "imd_suspend i m =
     (case imd_get i m of
        Inl e \<Rightarrow> (Err e, m)
      | Inr None \<Rightarrow> (Err NotFound, m)
      | Inr (Some device) \<Rightarrow>
          (case imd_update i (device\<lparr>dev_state := Device_Suspended\<rparr>) m of
             (Inl e, m') \<Rightarrow> (Err e, m')
           | (Inr _, m') \<Rightarrow> (Ok (), m')))"

definition imd_batch_register ::
    "Device list \<Rightarrow> InMemoryDeviceRegistry \<Rightarrow> unit mem_result \<times> InMemoryDeviceRegistry" where
  "imd_batch_register ds m = try_each imd_register ds m"

subsection \<open>Queries\<close>

text \<open>\<open>str::contains\<close>.\<close>

fun str_contains :: "string \<Rightarrow> string \<Rightarrow> bool" where
  "str_contains pat [] = (pat = [])"
| "str_contains pat (c # cs) = (prefix pat (c # cs) \<or> str_contains pat cs)"

lemma str_contains_iff: "str_contains pat s = sublist pat s"
  by (induction s) (auto simp: sublist_Cons_right)

definition device_matches :: "(string \<Rightarrow> string) \<Rightarrow> DeviceFilter \<Rightarrow> Device \<Rightarrow> bool" where
  "device_matches to_lowercase f device \<longleftrightarrow>
     accepts (df_locations f) (dev_location device) \<and>
     accepts (df_states f) (dev_state device) \<and>
     accepts (df_kinds f) (dev_kind device) \<and>
     (case df_manufacturer_pattern f of
        None \<Rightarrow> True
      | Some pattern \<Rightarrow>
          (case dev_manufacturer device of
             Some manufacturer \<Rightarrow> str_contains (to_lowercase pattern) (to_lowercase manufacturer)
           | None \<Rightarrow> False)) \<and>
     in_range (df_sensor_count f) (length (dev_sensors device)) \<and>
     in_window (df_provisioned_after f) (df_provisioned_before f) (dev_provisioned_at device)"

definition filter_devices ::
    "(DeviceId, Device) hash_order \<Rightarrow> (string \<Rightarrow> string) \<Rightarrow> (DeviceId, Device) hashmap \<Rightarrow>
     DeviceFilter \<Rightarrow> Device list" where
  "filter_devices ord to_lowercase m f = filter (device_matches to_lowercase f) (hm_values ord m)"

fun device_state_rank :: "DeviceState \<Rightarrow> int" where
  "device_state_rank Device_Active = 0"
| "device_state_rank Device_Suspended = 1"

definition device_comparator :: "DeviceSortBy \<Rightarrow> SortOrder \<Rightarrow> Device comparator" where
  "device_comparator sort_by sort_order =
     (let cmp =
        (case sort_by of
           DevBy_State \<Rightarrow> key (\<lambda>d. device_state_rank (dev_state d)) default
         | DevBy_Manufacturer \<Rightarrow> key dev_manufacturer default
         | DevBy_ProvisionAt \<Rightarrow> key dev_provisioned_at default
         | DevBy_SensorCount \<Rightarrow> key (\<lambda>d. length (dev_sensors d)) default)
      in case sort_order of Asc \<Rightarrow> cmp | Desc \<Rightarrow> reversed cmp)"

definition sort_devices :: "Device list \<Rightarrow> DeviceSortBy \<Rightarrow> SortOrder \<Rightarrow> Device list" where
  "sort_devices ds sort_by sort_order = Sorting_Algorithms.sort (device_comparator sort_by sort_order) ds"

definition paginate_devices :: "Device list \<Rightarrow> Pagination \<Rightarrow> Device list" where
  "paginate_devices ds pagination =
     (case pagination of
        Offset offset limit \<Rightarrow> take limit (drop offset ds)
      | Cursor (Some inner_ulid) limit \<Rightarrow>
          take limit (drop 1 (dropWhile (\<lambda>d. dev_id d \<noteq> DeviceId inner_ulid) ds))
      | Cursor None limit \<Rightarrow> [])"

definition imd_count ::
    "(DeviceId, Device) hash_order \<Rightarrow> (string \<Rightarrow> string) \<Rightarrow> DeviceFilter option \<Rightarrow>
     InMemoryDeviceRegistry \<Rightarrow> nat mem_result" where
  "imd_count ord to_lowercase f m =
     (case f of
        Some f' \<Rightarrow> Ok (length (filter_devices ord to_lowercase (devices m) f'))
      | None \<Rightarrow> Ok (length (devices m)))"

definition imd_list ::
    "(DeviceId, Device) hash_order \<Rightarrow> (string \<Rightarrow> string) \<Rightarrow>
     (DeviceFilter, DeviceSortBy) QueryOptions \<Rightarrow> InMemoryDeviceRegistry \<Rightarrow> Device list mem_result" where
  "imd_list ord to_lowercase options m =
     (let filtered = filter_devices ord to_lowercase (devices m) (qo_filter options);
          ranked = sort_devices filtered (qo_sort_by options) (qo_sort_order options)
      in Ok (paginate_devices ranked (qo_pagination options)))"

definition in_memory_devices ::
    "(DeviceId, Device) hash_order \<Rightarrow> (string \<Rightarrow> string) \<Rightarrow>
     (InMemoryDeviceRegistry, InMemoryError) DeviceRegistry" where
  "in_memory_devices ord to_lowercase =
     \<lparr>dev_register = imd_register, dev_get = imd_get, dev_update = imd_update,
      dev_suspend = imd_suspend, dev_add_sensor = imd_add_sensor, dev_add_sensors = imd_add_sensors,
      dev_batch_register = imd_batch_register, dev_count = imd_count ord to_lowercase,
      dev_list = imd_list ord to_lowercase\<rparr>"

subsection \<open>The registry keeps its contracts\<close>

abbreviation devices_ok :: "InMemoryDeviceRegistry \<Rightarrow> bool" where
  "devices_ok m \<equiv> rows_ok dev_id (devices m)"

lemmas imd_defs = imd_register_def imd_add_sensor_def imd_add_sensors_def imd_get_def imd_update_def
  imd_suspend_def imd_batch_register_def imd_count_def imd_list_def

interpretation device_rows: keyed_registry imd_register imd_get dev_id "\<lambda>r. r" "\<lambda>_. True" devices_ok
  by unfold_locales (auto simp: imd_defs hm_simps)

interpretation device_pages: paged_listing sort_devices paginate_devices "\<lambda>d. device_ulid (dev_id d)"
proof unfold_locales
  fix ds :: "Device list" and u :: ulid and n :: nat
  have "(dev_id d \<noteq> DeviceId u) = (device_ulid (dev_id d) \<noteq> u)" for d :: Device
    by (cases "dev_id d") simp
  then show "paginate_devices ds (Cursor (Some u) n) =
      take n (drop 1 (dropWhile (\<lambda>d. device_ulid (dev_id d) \<noteq> u) ds))"
    by (simp add: paginate_devices_def)
qed (simp_all add: sort_devices_def paginate_devices_def)

text \<open>Every operation keeps the registry well formed.\<close>

lemma devices_ok_ops:
  assumes "devices_ok m"
  shows "devices_ok (snd (imd_add_sensor i sensor m))"
    and "devices_ok (snd (imd_add_sensors i sensors m))"
    and "dev_id new = i \<Longrightarrow> devices_ok (snd (imd_update i new m))"
    and "devices_ok (snd (imd_suspend i m))"
    and "devices_ok (snd (imd_batch_register ds m))"
proof -
  show "devices_ok (snd (imd_batch_register ds m))"
    unfolding imd_batch_register_def using assms by (rule device_rows.inv_try_each) simp
  have "dev_id d = i" if "hm_get (devices m) i = Some d" for d
    using assms that by (rule rows_ok_get)
  then show "devices_ok (snd (imd_add_sensor i sensor m))"
      "devices_ok (snd (imd_add_sensors i sensors m))"
      "devices_ok (snd (imd_suspend i m))"
    using assms by (simp_all add: imd_defs Let_def split: option.split)
  show "devices_ok (snd (imd_update i new m))" if "dev_id new = i"
    using assms that by (simp add: imd_defs)
qed

lemma imd_batch_register_Ok: "fst (imd_batch_register ds m) = Ok ()"
  unfolding imd_batch_register_def
  by (induction ds arbitrary: m) (simp_all add: imd_register_def)

lemma sort_devices_sorted: "Sorting_Algorithms.sorted (device_comparator sb ord) (sort_devices ds sb ord)"
  by (simp add: sort_devices_def)

definition device_page ::
    "(DeviceId, Device) hash_order \<Rightarrow> (string \<Rightarrow> string) \<Rightarrow> DeviceFilter \<Rightarrow> DeviceSortBy \<Rightarrow> SortOrder \<Rightarrow>
     Pagination \<Rightarrow> InMemoryDeviceRegistry \<Rightarrow> Device list" where
  "device_page ord low f sb so p m =
     (case imd_list ord low \<lparr>qo_filter = f, qo_sort_by = sb, qo_sort_order = so, qo_pagination = p\<rparr> m of
        Inl _ \<Rightarrow> [] | Inr ds \<Rightarrow> ds)"

lemma device_page_eq:
  "device_page ord low f sb so p m = paginate_devices (sort_devices (filter_devices ord low (devices m) f) sb so) p"
  by (simp add: device_page_def imd_list_def)

lemma device_ulid_distinct:
  "devices_ok m \<Longrightarrow> distinct (map (\<lambda>d. device_ulid (dev_id d)) (filter_devices ord low (devices m) f))"
  using distinct_filter_values [of dev_id "devices m" "device_matches low f" ord]
  by (auto simp: filter_devices_def distinct_map inj_on_def DeviceId.expand)

definition sample_devices :: InMemoryDeviceRegistry where
  "sample_devices = snd (imd_batch_register [sample_device 1 ''b'', sample_device 2 ''a''] InMemoryDeviceRegistry_new)"

lemma sample_devices_ok: "devices_ok sample_devices"
  by (simp add: sample_devices_def InMemoryDeviceRegistry_new_def devices_ok_ops)

lemma sample_devices_filtered:
  "filter_devices backward_order id (devices sample_devices) DeviceFilter_default =
     [sample_device 2 ''a'', sample_device 1 ''b'']"
  by (simp add: sample_devices_def InMemoryDeviceRegistry_new_def imd_defs hm_insert_def filter_devices_def
      hm_values_def device_matches_def DeviceFilter_default_def in_window_def)

subsection \<open>Properties\<close>

text \<open>
  C36.  Paging through the devices.  For every filter, sort criterion and page size, the offset
  pages of an unchanged registry, taken in order until they cover the count, contain every
  matching device exactly once and nothing else, and are sorted as asked.
\<close>

theorem device_pages_complete:
  assumes "devices_ok m" and "imd_count ord low (Some f) m = Ok num" and "num \<le> k * n"
  shows "let rows = concat (map (\<lambda>i. device_page ord low f sb so (Offset (i * n) n) m) [0..<k])
    in set rows = {d. imd_get (dev_id d) m = Ok (Some d) \<and> device_matches low f d} \<and>
       distinct (map dev_id rows) \<and> length rows = num \<and>
       Sorting_Algorithms.sorted (device_comparator sb so) rows"
proof -
  let ?all = "sort_devices (filter_devices ord low (devices m) f) sb so"
  have "length ?all = num"
    using assms(2) by (simp add: imd_count_def)
  then have rows: "concat (map (\<lambda>i. device_page ord low f sb so (Offset (i * n) n) m) [0..<k]) = ?all"
    using assms(3) by (simp add: device_page_eq device_pages.offset_pages)
  show ?thesis
    unfolding rows Let_def
    using assms(1) \<open>length ?all = num\<close>
    by (simp add: device_pages.sort_distinct sort_devices_sorted filter_devices_def
        distinct_filter_values set_filter_values imd_get_def del: set_filter)
qed

theorem device_pages_complete_witness:
  "let rows = concat (map (\<lambda>i. device_page backward_order id DeviceFilter_default DevBy_Manufacturer Desc
      (Offset (i * 1) 1) sample_devices) [0..<2])
    in set rows = {d. imd_get (dev_id d) sample_devices = Ok (Some d) \<and> device_matches id DeviceFilter_default d} \<and>
       distinct (map dev_id rows) \<and> length rows = 2 \<and>
       Sorting_Algorithms.sorted (device_comparator DevBy_Manufacturer Desc) rows"
  by (rule device_pages_complete [OF sample_devices_ok]) (simp_all add: imd_count_def sample_devices_filtered)

text \<open>
  Cursors.  In an unchanged registry, the cursor page after the last device of an offset
  page is the next offset page; a cursor query without a starting point returns nothing.
\<close>

lemma device_cursor_continues:
  assumes "devices_ok m" and "device_page ord low f sb so (Offset k n) m = ds @ [d]"
  shows "device_page ord low f sb so (Cursor (Some (device_ulid (dev_id d))) limit) m =
      device_page ord low f sb so (Offset (k + length ds + 1) limit) m \<and>
    device_page ord low f sb so (Cursor None limit) m = []"
proof -
  let ?all = "sort_devices (filter_devices ord low (devices m) f) sb so"
  have slice: "take n (drop k ?all) = ds @ [d]"
    using assms(2) by (simp add: device_page_eq device_pages.offset_page)
  then have "length ds < n" "length ds < length (drop k ?all)"
    by (metis length_append_singleton length_take lessI min_less_iff_conj)+
  then have pos: "k + length ds < length ?all" "?all ! (k + length ds) = d"
    using arg_cong [OF slice, of "\<lambda>xs. xs ! length ds"] by (simp_all add: nth_drop)
  have "distinct (map (\<lambda>d. device_ulid (dev_id d)) ?all)"
    using assms(1) by (simp add: device_pages.sort_distinct device_ulid_distinct)
  from device_pages.cursor_after [OF this pos(1), of limit] pos(2) show ?thesis
    by (simp add: device_page_eq device_pages.offset_page device_pages.cursor_start)
qed

text \<open>
  Changing one device.  Suspending sets only the state, adding sensors appends them, both
  fail with \<open>NotFound\<close> for an unknown device without changing anything, and no other device is
  affected.
\<close>

lemma device_changes_are_local:
  "(case hm_get (devices m) i of
      None \<Rightarrow> imd_suspend i m = (Err NotFound, m) \<and> imd_add_sensors i sensors m = (Err NotFound, m)
    | Some d \<Rightarrow>
        fst (imd_suspend i m) = Ok () \<and> fst (imd_add_sensors i sensors m) = Ok () \<and>
        imd_get j (snd (imd_suspend i m)) =
          (if j = i then Ok (Some (d\<lparr>dev_state := Device_Suspended\<rparr>)) else imd_get j m) \<and>
        imd_get j (snd (imd_add_sensors i sensors m)) =
          (if j = i then Ok (Some (d\<lparr>dev_sensors := dev_sensors d @ sensors\<rparr>)) else imd_get j m))"
  by (auto simp: imd_defs hm_simps Let_def split: option.splits)

text \<open>
  The list of identifiers in a device filter is ignored: whatever it is, counting and
  listing give what they give without it.
\<close>

lemma device_filter_ignores_ids:
  "imd_count ord low (Some (f\<lparr>df_ids := ids\<rparr>)) m = imd_count ord low (Some (f\<lparr>df_ids := None\<rparr>)) m \<and>
   device_page ord low (f\<lparr>df_ids := ids\<rparr>) sb so p m = device_page ord low (f\<lparr>df_ids := None\<rparr>) sb so p m"
proof -
  have "device_matches low (f\<lparr>df_ids := ids\<rparr>) = device_matches low (f\<lparr>df_ids := None\<rparr>)"
    by (rule ext) (simp add: device_matches_def)
  then show ?thesis by (simp add: imd_count_def device_page_eq filter_devices_def)
qed

end
