(* ===== verification/Prime_Memory_Dispatcher.thy ===== *)
theory Prime_Memory_Dispatcher
  imports Prime_Memory_Device
begin

text \<open>
  The in-memory dispatcher registry of prime (\<open>ersha-prime/src/registry/memory/dispatcher.rs\<close>).
\<close>

record InMemoryDispatcherRegistry =
  dispatchers :: "(DispatcherId, Dispatcher) hashmap"

definition InMemoryDispatcherRegistry_new :: InMemoryDispatcherRegistry where
  "InMemoryDispatcherRegistry_new = \<lparr>dispatchers = []\<rparr>"

definition imp_register ::
    "Dispatcher \<Rightarrow> InMemoryDispatcherRegistry \<Rightarrow> unit mem_result \<times> InMemoryDispatcherRegistry" where
  "imp_register dispatcher m =
     (Ok (), m\<lparr>dispatchers := hm_insert (disp_id dispatcher) dispatcher (dispatchers m)\<rparr>)"

definition imp_get :: "DispatcherId \<Rightarrow> InMemoryDispatcherRegistry \<Rightarrow> Dispatcher option mem_result" where
  "imp_get i m = Ok (hm_get (dispatchers m) i)"

definition imp_update ::
    "DispatcherId \<Rightarrow> Dispatcher \<Rightarrow> InMemoryDispatcherRegistry \<Rightarrow> unit mem_result \<times> InMemoryDispatcherRegistry"
where
  "imp_update i new m = (Ok (), m\<lparr>dispatchers := hm_insert i new (dispatchers m)\<rparr>)"

definition imp_suspend ::
    "DispatcherId \<Rightarrow> InMemoryDispatcherRegistry \<Rightarrow> unit mem_result \<times> InMemoryDispatcherRegistry" where
  "imp_suspend i m =
     (case imp_get i m of
        Inl e \<Rightarrow> (Err e, m)
      | Inr None \<Rightarrow> (Err NotFound, m)
      | Inr (Some dispatcher) \<Rightarrow>
          (case imp_update i (dispatcher\<lparr>disp_state := Dispatcher_Suspended\<rparr>) m of
             (Inl e, m') \<Rightarrow> (Err e, m')
           | (Inr _, m') \<Rightarrow> (Ok (), m')))"

definition imp_batch_register ::
    "Dispatcher list \<Rightarrow> InMemoryDispatcherRegistry \<Rightarrow> unit mem_result \<times> InMemoryDispatcherRegistry" where
  "imp_batch_register ds m = try_each imp_register ds m"

subsection \<open>Queries\<close>

definition dispatcher_matches :: "DispatcherFilter \<Rightarrow> Dispatcher \<Rightarrow> bool" where
  "dispatcher_matches f dispatcher \<longleftrightarrow>
     accepts (pf_locations f) (disp_location dispatcher) \<and> accepts (pf_states f) (disp_state dispatcher)"

definition filter_dispatchers ::
    "(DispatcherId, Dispatcher) hash_order \<Rightarrow> (DispatcherId, Dispatcher) hashmap \<Rightarrow> DispatcherFilter \<Rightarrow>
     Dispatcher list" where
  "filter_dispatchers ord m f = filter (dispatcher_matches f) (hm_values ord m)"

definition dispatcher_comparator :: "DispatcherSortBy \<Rightarrow> SortOrder \<Rightarrow> Dispatcher comparator" where
  "dispatcher_comparator sort_by sort_order =
     (let cmp = (case sort_by of DispBy_ProvisionAt \<Rightarrow> key disp_provisioned_at default)
      in case sort_order of Asc \<Rightarrow> cmp | Desc \<Rightarrow> reversed cmp)"

definition sort_dispatchers :: "Dispatcher list \<Rightarrow> DispatcherSortBy \<Rightarrow> SortOrder \<Rightarrow> Dispatcher list" where
  "sort_dispatchers ds sort_by sort_order =
     Sorting_Algorithms.sort (dispatcher_comparator sort_by sort_order) ds"

definition paginate_dispatchers :: "Dispatcher list \<Rightarrow> Pagination \<Rightarrow> Dispatcher list" where
  "paginate_dispatchers ds pagination =
     (case pagination of
        Offset offset limit \<Rightarrow> take limit (drop offset ds)
      | Cursor (Some inner_ulid) limit \<Rightarrow>
          take limit (drop 1 (dropWhile (\<lambda>d. disp_id d \<noteq> DispatcherId inner_ulid) ds))
      | Cursor None limit \<Rightarrow> [])"

definition imp_count ::
    "(DispatcherId, Dispatcher) hash_order \<Rightarrow> DispatcherFilter option \<Rightarrow> InMemoryDispatcherRegistry \<Rightarrow>
     nat mem_result" where
  "imp_count ord f m =
     (case f of
        Some f' \<Rightarrow> Ok (length (filter_dispatchers ord (dispatchers m) f'))
      | None \<Rightarrow> Ok (length (dispatchers m)))"

definition imp_list ::
    "(DispatcherId, Dispatcher) hash_order \<Rightarrow> (DispatcherFilter, DispatcherSortBy) QueryOptions \<Rightarrow>
     InMemoryDispatcherRegistry \<Rightarrow> Dispatcher list mem_result" where
  "imp_list ord options m =
     (let filtered = filter_dispatchers ord (dispatchers m) (qo_filter options);
          ranked = sort_dispatchers filtered (qo_sort_by options) (qo_sort_order options)
      in Ok (paginate_dispatchers ranked (qo_pagination options)))"

definition in_memory_dispatchers ::
    "(DispatcherId, Dispatcher) hash_order \<Rightarrow> (InMemoryDispatcherRegistry, InMemoryError) DispatcherRegistry" where
  "in_memory_dispatchers ord =
     \<lparr>disp_register = imp_register, disp_get = imp_get, disp_update = imp_update,
      disp_suspend = imp_suspend, disp_batch_register = imp_batch_register,
      disp_count = imp_count ord, disp_list = imp_list ord\<rparr>"

subsection \<open>The registry keeps its contracts\<close>

abbreviation dispatchers_ok :: "InMemoryDispatcherRegistry \<Rightarrow> bool" where
  "dispatchers_ok m \<equiv> rows_ok disp_id (dispatchers m)"

lemmas imp_defs = imp_register_def imp_get_def imp_update_def imp_suspend_def imp_batch_register_def
  imp_count_def imp_list_def

interpretation dispatcher_rows: keyed_registry imp_register imp_get disp_id "\<lambda>r. r" "\<lambda>_. True" dispatchers_ok
  by unfold_locales (auto simp: imp_defs hm_simps)

interpretation dispatcher_pages:
  paged_listing sort_dispatchers paginate_dispatchers "\<lambda>d. dispatcher_ulid (disp_id d)"
proof unfold_locales
  fix ds :: "Dispatcher list" and u :: ulid and n :: nat
  have "(disp_id d \<noteq> DispatcherId u) = (dispatcher_ulid (disp_id d) \<noteq> u)" for d :: Dispatcher
    by (cases "disp_id d") simp
  then show "paginate_dispatchers ds (Cursor (Some u) n) =
      take n (drop 1 (dropWhile (\<lambda>d. dispatcher_ulid (disp_id d) \<noteq> u) ds))"
    by (simp add: paginate_dispatchers_def)
qed (simp_all add: sort_dispatchers_def paginate_dispatchers_def)

lemma dispatchers_ok_suspend: "dispatchers_ok m \<Longrightarrow> dispatchers_ok (snd (imp_suspend i m))"
  using rows_ok_get [of disp_id "dispatchers m" i]
  by (simp add: imp_defs split: option.split)

lemma imp_get_suspend:
  "imp_get j (snd (imp_suspend i m)) =
     (case hm_get (dispatchers m) i of
        None \<Rightarrow> imp_get j m
      | Some d \<Rightarrow> if j = i then Ok (Some (d\<lparr>disp_state := Dispatcher_Suspended\<rparr>)) else imp_get j m)"
  by (simp add: imp_defs hm_simps split: option.split)

end
