(* ===== verification/Prime_Memory_Reading.thy ===== *)
theory Prime_Memory_Reading
  imports Prime_Memory_Device
begin

text \<open>
  The in-memory reading registry of prime (\<open>ersha-prime/src/registry/memory/reading.rs\<close>).
\<close>

record InMemoryReadingRegistry =
  readings :: "(ReadingId, SensorReading) hashmap"

definition InMemoryReadingRegistry_new :: InMemoryReadingRegistry where
  "InMemoryReadingRegistry_new = \<lparr>readings = []\<rparr>"

definition imr_store ::
    "SensorReading \<Rightarrow> InMemoryReadingRegistry \<Rightarrow> unit mem_result \<times> InMemoryReadingRegistry" where
  "imr_store reading m = (Ok (), m\<lparr>readings := hm_insert (rd_id reading) reading (readings m)\<rparr>)"

definition imr_get :: "ReadingId \<Rightarrow> InMemoryReadingRegistry \<Rightarrow> SensorReading option mem_result" where
  "imr_get i m = Ok (hm_get (readings m) i)"

definition imr_batch_store ::
    "SensorReading list \<Rightarrow> InMemoryReadingRegistry \<Rightarrow> unit mem_result \<times> InMemoryReadingRegistry" where
  "imr_batch_store rs m = try_each imr_store rs m"

subsection \<open>Queries\<close>

fun metric_type :: "SensorMetric \<Rightarrow> SensorMetricType" where
  "metric_type (SoilMoisture _) = MT_SoilMoisture"
| "metric_type (SoilTemp _) = MT_SoilTemp"
| "metric_type (AirTemp _) = MT_AirTemp"
| "metric_type (Humidity _) = MT_Humidity"
| "metric_type (Rainfall _) = MT_Rainfall"

definition reading_matches :: "ReadingFilter \<Rightarrow> SensorReading \<Rightarrow> bool" where
  "reading_matches f reading \<longleftrightarrow>
     accepts (rf_ids f) (rd_id reading) \<and>
     accepts (rf_device_ids f) (rd_device_id reading) \<and>
     accepts (rf_sensor_ids f) (rd_sensor_id reading) \<and>
     accepts (rf_dispatcher_ids f) (rd_dispatcher_id reading) \<and>
     accepts (rf_metric_types f) (metric_type (rd_metric reading)) \<and>
     accepts (rf_locations f) (rd_location reading) \<and>
     in_range (rf_confidence_range f) (percent (rd_confidence reading)) \<and>
     in_window (rf_timestamp_after f) (rf_timestamp_before f) (rd_timestamp reading)"

definition filter_readings ::
    "(ReadingId, SensorReading) hash_order \<Rightarrow> (ReadingId, SensorReading) hashmap \<Rightarrow> ReadingFilter \<Rightarrow>
     SensorReading list" where
  "filter_readings ord m f = filter (reading_matches f) (hm_values ord m)"

definition reading_comparator :: "ReadingSortBy \<Rightarrow> SortOrder \<Rightarrow> SensorReading comparator" where
  "reading_comparator sort_by sort_order =
     (let cmp =
        (case sort_by of
           ReadBy_Timestamp \<Rightarrow> key rd_timestamp default
         | ReadBy_Confidence \<Rightarrow> key (\<lambda>r. percent (rd_confidence r)) default
         | ReadBy_DeviceId \<Rightarrow> key (\<lambda>r. device_ulid (rd_device_id r)) default)
      in case sort_order of Asc \<Rightarrow> cmp | Desc \<Rightarrow> reversed cmp)"

definition sort_readings :: "SensorReading list \<Rightarrow> ReadingSortBy \<Rightarrow> SortOrder \<Rightarrow> SensorReading list" where
  "sort_readings rs sort_by sort_order = Sorting_Algorithms.sort (reading_comparator sort_by sort_order) rs"

definition paginate_readings :: "SensorReading list \<Rightarrow> Pagination \<Rightarrow> SensorReading list" where
  "paginate_readings rs pagination =
     (case pagination of
        Offset offset limit \<Rightarrow> take limit (drop offset rs)
      | Cursor (Some inner_ulid) limit \<Rightarrow>
          take limit (drop 1 (dropWhile (\<lambda>r. rd_id r \<noteq> ReadingId inner_ulid) rs))
      | Cursor None limit \<Rightarrow> [])"

definition imr_count ::
    "(ReadingId, SensorReading) hash_order \<Rightarrow> ReadingFilter option \<Rightarrow> InMemoryReadingRegistry \<Rightarrow>
     nat mem_result" where
  "imr_count ord f m =
     (case f of
        Some f' \<Rightarrow> Ok (length (filter_readings ord (readings m) f'))
      | None \<Rightarrow> Ok (length (readings m)))"

definition imr_list ::
    "(ReadingId, SensorReading) hash_order \<Rightarrow> (ReadingFilter, ReadingSortBy) QueryOptions \<Rightarrow>
     InMemoryReadingRegistry \<Rightarrow> SensorReading list mem_result" where
  "imr_list ord options m =
     (let filtered = filter_readings ord (readings m) (qo_filter options);
          ranked = sort_readings filtered (qo_sort_by options) (qo_sort_order options)
      in Ok (paginate_readings ranked (qo_pagination options)))"

definition in_memory_readings ::
    "(ReadingId, SensorReading) hash_order \<Rightarrow> (InMemoryReadingRegistry, InMemoryError) ReadingRegistry" where
  "in_memory_readings ord =
     \<lparr>read_store = imr_store, read_get = imr_get, read_batch_store = imr_batch_store,
      read_count = imr_count ord, read_list = imr_list ord\<rparr>"

subsection \<open>The registry keeps its contracts\<close>

abbreviation readings_ok :: "InMemoryReadingRegistry \<Rightarrow> bool" where
  "readings_ok m \<equiv> rows_ok rd_id (readings m)"

lemmas imr_defs = imr_store_def imr_get_def imr_batch_store_def imr_count_def imr_list_def

interpretation reading_registry: keyed_registry imr_store imr_get rd_id "\<lambda>r. r" "\<lambda>_. True" readings_ok
  by unfold_locales (auto simp: imr_defs hm_simps)

interpretation reading_pages:
  paged_listing sort_readings paginate_readings "\<lambda>r. reading_ulid (rd_id r)"
proof unfold_locales
  fix rs :: "SensorReading list" and u :: ulid and n :: nat
  have "(rd_id r \<noteq> ReadingId u) = (reading_ulid (rd_id r) \<noteq> u)" for r :: SensorReading
    by (cases "rd_id r") simp
  then show "paginate_readings rs (Cursor (Some u) n) =
      take n (drop 1 (dropWhile (\<lambda>r. reading_ulid (rd_id r) \<noteq> u) rs))"
    by (simp add: paginate_readings_def)
qed (simp_all add: sort_readings_def paginate_readings_def)

lemma imr_batch_store_Ok: "fst (imr_batch_store rs m) = Ok ()"
  unfolding imr_batch_store_def
  by (induction rs arbitrary: m) (simp_all add: imr_store_def)

definition reading_page ::
    "(ReadingId, SensorReading) hash_order \<Rightarrow> ReadingFilter \<Rightarrow> ReadingSortBy \<Rightarrow> SortOrder \<Rightarrow>
     Pagination \<Rightarrow> InMemoryReadingRegistry \<Rightarrow> SensorReading list" where
  "reading_page ord f sb so p m =
     (case imr_list ord \<lparr>qo_filter = f, qo_sort_by = sb, qo_sort_order = so, qo_pagination = p\<rparr> m of
        Inl _ \<Rightarrow> [] | Inr rs \<Rightarrow> rs)"

lemma reading_page_eq:
  "reading_page ord f sb so p m = paginate_readings (sort_readings (filter_readings ord (readings m) f) sb so) p"
  by (simp add: reading_page_def imr_list_def)

lemma sort_readings_sorted: "Sorting_Algorithms.sorted (reading_comparator sb so) (sort_readings rs sb so)"
  by (simp add: sort_readings_def)

definition sample_readings :: InMemoryReadingRegistry where
  "sample_readings = snd (imr_batch_store [sample_reading 1 5, sample_reading 2 4] InMemoryReadingRegistry_new)"

lemma sample_readings_ok: "readings_ok sample_readings"
  unfolding sample_readings_def imr_batch_store_def
  by (rule reading_registry.inv_try_each) (simp_all add: InMemoryReadingRegistry_new_def)

subsection \<open>Properties\<close>

text \<open>
  Paging through the readings.  For every filter, sort criterion and page size, the offset
  pages of an unchanged registry, taken in order until they cover the count, contain every
  matching reading exactly once and nothing else, and are sorted as asked.
\<close>

lemma reading_pages_complete:
  assumes "readings_ok m" and "imr_count ord (Some f) m = Ok num" and "num \<le> k * n"
  shows "let rows = concat (map (\<lambda>i. reading_page ord f sb so (Offset (i * n) n) m) [0..<k])
    in set rows = {r. imr_get (rd_id r) m = Ok (Some r) \<and> reading_matches f r} \<and>
       distinct (map rd_id rows) \<and> length rows = num \<and>
       Sorting_Algorithms.sorted (reading_comparator sb so) rows"
proof -
  let ?all = "sort_readings (filter_readings ord (readings m) f) sb so"
  have "length ?all = num"
    using assms(2) by (simp add: imr_count_def)
  then have rows: "concat (map (\<lambda>i. reading_page ord f sb so (Offset (i * n) n) m) [0..<k]) = ?all"
    using assms(3) by (simp add: reading_page_eq reading_pages.offset_pages)
  show ?thesis
    unfolding rows Let_def
    using assms(1) \<open>length ?all = num\<close>
    by (simp add: reading_pages.sort_distinct sort_readings_sorted filter_readings_def
        distinct_filter_values set_filter_values imr_get_def del: set_filter)
qed

text \<open>
  Storing a batch of readings.  From a well-formed registry it succeeds; afterwards every
  lookup returns the last reading of the batch with that identifier, or what it returned before
  if the batch has none.
\<close>

lemma reading_batch_lookup:
  assumes "readings_ok m"
  shows "\<exists>m'. imr_batch_store rs m = (Ok (), m') \<and> readings_ok m' \<and>
    (\<forall>k. imr_get k m' =
      (case find (\<lambda>r. rd_id r = k) (rev rs) of Some r \<Rightarrow> Ok (Some r) | None \<Rightarrow> imr_get k m))"
proof -
  obtain m' where m': "imr_batch_store rs m = (Ok (), m')"
    using imr_batch_store_Ok [of rs m] by (cases "imr_batch_store rs m") auto
  then have "try_each imr_store rs m = (Ok (), m')" by (simp add: imr_batch_store_def)
  from reading_registry.get_try_each [OF assms _ this] reading_registry.inv_try_each [OF assms, of rs] this m'
  show ?thesis by auto
qed

end
