(* ===== verification/Prime_Memory_Status.thy ===== *)
theory Prime_Memory_Status
  imports Prime_Memory_Device
begin

text \<open>
  The in-memory device status registry of prime
  (\<open>ersha-prime/src/registry/memory/device_status.rs\<close>).
\<close>

record InMemoryDeviceStatusRegistry =
  statuses :: "(StatusId, DeviceStatus) hashmap"

definition InMemoryDeviceStatusRegistry_new :: InMemoryDeviceStatusRegistry where
  "InMemoryDeviceStatusRegistry_new = \<lparr>statuses = []\<rparr>"

definition ims_store ::
    "DeviceStatus \<Rightarrow> InMemoryDeviceStatusRegistry \<Rightarrow> unit mem_result \<times> InMemoryDeviceStatusRegistry" where
  "ims_store status m = (Ok (), m\<lparr>statuses := hm_insert (ds_id status) status (statuses m)\<rparr>)"

definition ims_get :: "StatusId \<Rightarrow> InMemoryDeviceStatusRegistry \<Rightarrow> DeviceStatus option mem_result" where
  "ims_get i m = Ok (hm_get (statuses m) i)"

text \<open>\<open>Iterator::max_by_key\<close>: of several maximal elements the last one.\<close>

definition max_by_key :: "('a \<Rightarrow> 'b :: linorder) \<Rightarrow> 'a list \<Rightarrow> 'a option" where
  "max_by_key f xs =
     (case xs of
        [] \<Rightarrow> None
      | x # xs' \<Rightarrow> Some (fold (\<lambda>y best. if f best \<le> f y then y else best) xs' x))"

definition ims_get_latest ::
    "(StatusId, DeviceStatus) hash_order \<Rightarrow> DeviceId \<Rightarrow> InMemoryDeviceStatusRegistry \<Rightarrow>
     DeviceStatus option mem_result" where
  "ims_get_latest ord device m =
     Ok (max_by_key ds_timestamp (filter (\<lambda>s. ds_device_id s = device) (hm_values ord (statuses m))))"

definition ims_batch_store ::
    "DeviceStatus list \<Rightarrow> InMemoryDeviceStatusRegistry \<Rightarrow> unit mem_result \<times> InMemoryDeviceStatusRegistry" where
  "ims_batch_store sts m = try_each ims_store sts m"

subsection \<open>Queries\<close>

definition status_matches :: "DeviceStatusFilter \<Rightarrow> DeviceStatus \<Rightarrow> bool" where
  "status_matches f status \<longleftrightarrow>
     accepts (sf_ids f) (ds_id status) \<and>
     accepts (sf_device_ids f) (ds_device_id status) \<and>
     accepts (sf_dispatcher_ids f) (ds_dispatcher_id status) \<and>
     in_range (sf_battery_range f) (percent (ds_battery_percent status)) \<and>
     (case sf_has_errors f of
        None \<Rightarrow> True
      | Some has_errors \<Rightarrow> has_errors = (ds_errors status \<noteq> [])) \<and>
     (case sf_error_codes f of
        None \<Rightarrow> True
      | Some codes \<Rightarrow> list_ex (\<lambda>e. de_code e \<in> set codes) (ds_errors status)) \<and>
     in_window (sf_timestamp_after f) (sf_timestamp_before f) (ds_timestamp status)"

definition filter_statuses ::
    "(StatusId, DeviceStatus) hash_order \<Rightarrow> (StatusId, DeviceStatus) hashmap \<Rightarrow> DeviceStatusFilter \<Rightarrow>
     DeviceStatus list" where
  "filter_statuses ord m f = filter (status_matches f) (hm_values ord m)"

definition status_comparator :: "DeviceStatusSortBy \<Rightarrow> SortOrder \<Rightarrow> DeviceStatus comparator" where
  "status_comparator sort_by sort_order =
     (let cmp =
        (case sort_by of
           StatBy_Timestamp \<Rightarrow> key ds_timestamp default
         | StatBy_BatteryPercent \<Rightarrow> key (\<lambda>s. percent (ds_battery_percent s)) default
         | StatBy_DeviceId \<Rightarrow> key (\<lambda>s. device_ulid (ds_device_id s)) default)
      in case sort_order of Asc \<Rightarrow> cmp | Desc \<Rightarrow> reversed cmp)"

definition sort_statuses :: "DeviceStatus list \<Rightarrow> DeviceStatusSortBy \<Rightarrow> SortOrder \<Rightarrow> DeviceStatus list" where
  "sort_statuses sts sort_by sort_order = Sorting_Algorithms.sort (status_comparator sort_by sort_order) sts"

definition paginate_statuses :: "DeviceStatus list \<Rightarrow> Pagination \<Rightarrow> DeviceStatus list" where
  "paginate_statuses sts pagination =
     (case pagination of
        Offset offset limit \<Rightarrow> take limit (drop offset sts)
      | Cursor (Some inner_ulid) limit \<Rightarrow>
          take limit (drop 1 (dropWhile (\<lambda>s. ds_id s \<noteq> StatusId inner_ulid) sts))
      | Cursor None limit \<Rightarrow> [])"

definition ims_count ::
    "(StatusId, DeviceStatus) hash_order \<Rightarrow> DeviceStatusFilter option \<Rightarrow> InMemoryDeviceStatusRegistry \<Rightarrow>
     nat mem_result" where
  "ims_count ord f m =
     (case f of
        Some f' \<Rightarrow> Ok (length (filter_statuses ord (statuses m) f'))
      | None \<Rightarrow> Ok (length (statuses m)))"

definition ims_list ::
    "(StatusId, DeviceStatus) hash_order \<Rightarrow> (DeviceStatusFilter, DeviceStatusSortBy) QueryOptions \<Rightarrow>
     InMemoryDeviceStatusRegistry \<Rightarrow> DeviceStatus list mem_result" where
  "ims_list ord options m =
     (let filtered = filter_statuses ord (statuses m) (qo_filter options);
          ranked = sort_statuses filtered (qo_sort_by options) (qo_sort_order options)
      in Ok (paginate_statuses ranked (qo_pagination options)))"

definition in_memory_statuses ::
    "(StatusId, DeviceStatus) hash_order \<Rightarrow> (InMemoryDeviceStatusRegistry, InMemoryError) DeviceStatusRegistry" where
  "in_memory_statuses ord =
     \<lparr>stat_store = ims_store, stat_get = ims_get, stat_get_latest = ims_get_latest ord,
      stat_batch_store = ims_batch_store, stat_count = ims_count ord, stat_list = ims_list ord\<rparr>"

subsection \<open>The registry keeps its contracts\<close>

abbreviation statuses_ok :: "InMemoryDeviceStatusRegistry \<Rightarrow> bool" where
  "statuses_ok m \<equiv> rows_ok ds_id (statuses m)"

lemmas ims_defs = ims_store_def ims_get_def ims_get_latest_def ims_batch_store_def ims_count_def ims_list_def

interpretation status_registry: keyed_registry ims_store ims_get ds_id "\<lambda>r. r" "\<lambda>_. True" statuses_ok
  by unfold_locales (auto simp: ims_defs hm_simps)

interpretation status_pages:
  paged_listing sort_statuses paginate_statuses "\<lambda>s. status_ulid (ds_id s)"
proof unfold_locales
  fix sts :: "DeviceStatus list" and u :: ulid and n :: nat
  have "(ds_id s \<noteq> StatusId u) = (status_ulid (ds_id s) \<noteq> u)" for s :: DeviceStatus
    by (cases "ds_id s") simp
  then show "paginate_statuses sts (Cursor (Some u) n) =
      take n (drop 1 (dropWhile (\<lambda>s. status_ulid (ds_id s) \<noteq> u) sts))"
    by (simp add: paginate_statuses_def)
qed (simp_all add: sort_statuses_def paginate_statuses_def)

lemma ims_batch_store_Ok: "fst (ims_batch_store sts m) = Ok ()"
  unfolding ims_batch_store_def
  by (induction sts arbitrary: m) (simp_all add: ims_store_def)

lemma fold_max:
  fixes f :: "'a \<Rightarrow> 'b :: linorder"
  defines "best \<equiv> fold (\<lambda>y best. if f best \<le> f y then y else best)"
  shows "best xs x \<in> insert x (set xs) \<and> (\<forall>y \<in> insert x (set xs). f y \<le> f (best xs x))"
proof (induction xs arbitrary: x)
  case (Cons y ys)
  from Cons [of "if f x \<le> f y then y else x"] show ?case
    by (auto simp: best_def split: if_splits intro: order_trans)
qed (simp add: best_def)

lemma max_by_key_Some: "max_by_key f xs = Some x \<Longrightarrow> x \<in> set xs \<and> (\<forall>y \<in> set xs. f y \<le> f x)"
  using fold_max [of f] by (auto simp: max_by_key_def split: list.splits)

lemma max_by_key_None: "max_by_key f xs = None \<longleftrightarrow> xs = []"
  by (simp add: max_by_key_def split: list.splits)

subsection \<open>Properties\<close>

text \<open>
  The latest status.  For a device without a stored status there is none; otherwise the
  result is a stored status of the device, and none of its statuses is newer.
\<close>

lemma latest_status_correct:
  assumes "statuses_ok m"
  shows "\<exists>r. ims_get_latest ord device m = Ok r \<and>
    (case r of
       None \<Rightarrow> \<forall>k s. ims_get k m = Ok (Some s) \<longrightarrow> ds_device_id s \<noteq> device
     | Some s \<Rightarrow> ims_get (ds_id s) m = Ok (Some s) \<and> ds_device_id s = device \<and>
         (\<forall>k s'. ims_get k m = Ok (Some s') \<and> ds_device_id s' = device \<longrightarrow> ds_timestamp s' \<le> ds_timestamp s))"
proof -
  let ?xs = "filter (\<lambda>s. ds_device_id s = device) (hm_values ord (statuses m))"
  have mem: "s \<in> set ?xs \<longleftrightarrow> hm_get (statuses m) (ds_id s) = Some s \<and> ds_device_id s = device" for s
    using set_filter_values [OF assms, of "\<lambda>s. ds_device_id s = device" ord] by blast
  have key: "ds_id s = k" if "hm_get (statuses m) k = Some s" for k s
    using assms that by (rule rows_ok_get)
  show ?thesis
  proof (cases "max_by_key ds_timestamp ?xs")
    case None
    then have none: "?xs = []" by (simp only: max_by_key_None)
    have "ds_device_id s \<noteq> device" if "hm_get (statuses m) k = Some s" for k s
      using that key [OF that] mem [of s] none by auto
    with None show ?thesis by (auto simp: ims_defs)
  next
    case (Some s)
    have "hm_get (statuses m) (ds_id s) = Some s \<and> ds_device_id s = device"
      using max_by_key_Some [OF Some] mem [of s] by blast
    moreover have "ds_timestamp s' \<le> ds_timestamp s"
      if "hm_get (statuses m) k = Some s'" "ds_device_id s' = device" for k s'
      using that key [OF that(1)] mem [of s'] max_by_key_Some [OF Some] by blast
    ultimately show ?thesis using Some by (auto simp: ims_defs)
  qed
qed

text \<open>Two reports of device 5, the newer one stored first.\<close>

definition sample_statuses :: InMemoryDeviceStatusRegistry where
  "sample_statuses =
     snd (ims_batch_store [(sample_status 1 5 80 [])\<lparr>ds_timestamp := 9\<rparr>, sample_status 2 5 90 []]
       InMemoryDeviceStatusRegistry_new)"

lemma sample_statuses_ok: "statuses_ok sample_statuses"
  unfolding sample_statuses_def ims_batch_store_def
  by (rule status_registry.inv_try_each) (simp_all add: InMemoryDeviceStatusRegistry_new_def)

end
