(* ===== verification/Prime_Handlers.thy ===== *)
theory Prime_Handlers
  imports Rpc_Server Prime_Memory_Dispatcher Prime_Memory_Reading Prime_Memory_Status
begin

text \<open>
  The RPC handlers of prime (\<open>run_server\<close> in \<open>ersha-prime/src/main.rs\<close>): hello, batch upload,
  alert, dispatcher status and device disconnection, on the four registries, and the handler of
  static files.  The registries are given by their trait dictionaries.
\<close>

record ('p, 'd, 'r, 's) AppState =
  dispatcher_registry :: 'p
  device_registry :: 'd
  reading_registry :: 'r
  device_status_registry :: 's

definition prime_on_hello ::
    "('p, 'e1) DispatcherRegistry \<Rightarrow> HelloRequest \<Rightarrow> MessageId \<Rightarrow> ('p, 'd, 'r, 's) AppState \<Rightarrow>
     HelloResponse \<times> ('p, 'd, 'r, 's) AppState" where
  "prime_on_hello pr hello _ st =
     ((case disp_get pr (hello_dispatcher_id hello) (dispatcher_registry st) of
         Inr (Some dispatcher) \<Rightarrow>
           if disp_state dispatcher = Dispatcher_Active then Accepted (hello_dispatcher_id hello)
           else Rejected DispatcherSuspended
       | Inr None \<Rightarrow> Rejected UnknownDispatcher
       | Inl e \<Rightarrow> Rejected InternalError), st)"

text \<open>One of the two filtering loops: the events of known devices, and a count of the others.\<close>

definition known_device :: "('d, 'e2) DeviceRegistry \<Rightarrow> DeviceId \<Rightarrow> 'd \<Rightarrow> bool" where
  "known_device dr device m = (case dev_get dr device m of Inr (Some _) \<Rightarrow> True | _ \<Rightarrow> False)"

definition split_known :: "('a \<Rightarrow> bool) \<Rightarrow> 'a list \<Rightarrow> 'a list \<times> u32" where
  "split_known known xs =
     fold (\<lambda>x (valid, rejected). if known x then (valid @ [x], rejected) else (valid, rejected + 1))
       xs ([], 0)"

definition prime_on_batch_upload ::
    "('d, 'e2) DeviceRegistry \<Rightarrow> ('r, 'e3) ReadingRegistry \<Rightarrow> ('s, 'e4) DeviceStatusRegistry \<Rightarrow>
     BatchUploadRequest \<Rightarrow> MessageId \<Rightarrow> ('p, 'd, 'r, 's) AppState \<Rightarrow>
     BatchUploadResponse \<times> ('p, 'd, 'r, 's) AppState" where
  "prime_on_batch_upload dr rr sr request _ st =
     (let (valid_readings, rejected_readings) =
            split_known (\<lambda>r. known_device dr (rd_device_id r) (device_registry st)) (bu_readings request);
          (valid_statuses, rejected_statuses) =
            split_known (\<lambda>s. known_device dr (ds_device_id s) (device_registry st)) (bu_statuses request);
          readings_stored = usize_as_u32 (length valid_readings);
          statuses_stored = usize_as_u32 (length valid_statuses);
          st1 = (if valid_readings = [] then st
                 else st\<lparr>reading_registry := snd (read_batch_store rr valid_readings (reading_registry st))\<rparr>);
          st2 = (if valid_statuses = [] then st1
                 else st1\<lparr>device_status_registry :=
                        snd (stat_batch_store sr valid_statuses (device_status_registry st1))\<rparr>)
      in (\<lparr>br_id = bu_id request, br_readings_stored = readings_stored,
           br_readings_rejected = rejected_readings, br_statuses_stored = statuses_stored,
           br_statuses_rejected = rejected_statuses\<rparr>, st2))"

definition prime_on_alert ::
    "AlertRequest \<Rightarrow> MessageId \<Rightarrow> ('p, 'd, 'r, 's) AppState \<Rightarrow> AlertResponse \<times> ('p, 'd, 'r, 's) AppState" where
  "prime_on_alert request _ st = (\<lparr>ar_alert_id = al_id request, ar_acknowledged = True\<rparr>, st)"

definition prime_on_dispatcher_status ::
    "DispatcherStatusRequest \<Rightarrow> MessageId \<Rightarrow> ('p, 'd, 'r, 's) AppState \<Rightarrow>
     DispatcherStatusResponse \<times> ('p, 'd, 'r, 's) AppState" where
  "prime_on_dispatcher_status request _ st =
     (\<lparr>dsresp_dispatcher_id = dsr_dispatcher_id request\<rparr>, st)"

definition prime_on_device_disconnection ::
    "DeviceDisconnectionRequest \<Rightarrow> MessageId \<Rightarrow> ('p, 'd, 'r, 's) AppState \<Rightarrow>
     DeviceDisconnectionResponse \<times> ('p, 'd, 'r, 's) AppState" where
  "prime_on_device_disconnection request _ st = (\<lparr>ddresp_device_id = ddr_device_id request\<rparr>, st)"

definition prime_server ::
    "('p, 'e1) DispatcherRegistry \<Rightarrow> ('d, 'e2) DeviceRegistry \<Rightarrow> ('r, 'e3) ReadingRegistry \<Rightarrow>
     ('s, 'e4) DeviceStatusRegistry \<Rightarrow> ('p, 'd, 'r, 's) AppState \<Rightarrow> ('p, 'd, 'r, 's) AppState Server" where
  "prime_server pr dr rr sr st =
     on_device_disconnection prime_on_device_disconnection
       (on_dispatcher_status prime_on_dispatcher_status
         (on_alert prime_on_alert
           (on_batch_upload (prime_on_batch_upload dr rr sr)
             (on_hello (prime_on_hello pr) (Server_new st)))))"

text \<open>
  Static files: the embedded assets and the guess of the content type are arguments.
\<close>

datatype static_response = Static_ok string bytes | Static_not_found

fun trim_slashes :: "string \<Rightarrow> string" where
  "trim_slashes (c # cs) = (if c = CHR ''/'' then trim_slashes cs else c # cs)"
| "trim_slashes [] = []"

definition static_handler ::
    "(string \<Rightarrow> bytes option) \<Rightarrow> (string \<Rightarrow> string) \<Rightarrow> string \<Rightarrow> static_response" where
  "static_handler assets mime_guess uri_path =
     (let path = trim_slashes uri_path;
          file = (case assets path of Some c \<Rightarrow> Some c | None \<Rightarrow> assets ''index.html'')
      in case file of
           Some content \<Rightarrow>
             (let mime = (if assets path = None then ''text/html'' else mime_guess path)
              in Static_ok mime content)
         | None \<Rightarrow> Static_not_found)"

subsection \<open>Lemmas\<close>

lemma split_known_eq: "split_known known xs = (filter known xs, of_nat (length (filter (\<lambda>x. \<not> known x) xs)))"
proof -
  have "fold (\<lambda>x (valid, rejected). if known x then (valid @ [x], rejected) else (valid, rejected + 1)) xs (vs, n) =
      (vs @ filter known xs, n + of_nat (length (filter (\<lambda>x. \<not> known x) xs)))" for vs and n :: u32
    by (induction xs arbitrary: vs n) (simp_all add: add.assoc)
  then show ?thesis by (simp add: split_known_def)
qed

lemma prime_server_handlers [simp]:
  "h_on_ping (server_handlers (prime_server pr dr rr sr st)) = None"
  "h_on_hello (server_handlers (prime_server pr dr rr sr st)) = Some (prime_on_hello pr)"
  "h_on_batch_upload (server_handlers (prime_server pr dr rr sr st)) = Some (prime_on_batch_upload dr rr sr)"
  "h_on_alert (server_handlers (prime_server pr dr rr sr st)) = Some prime_on_alert"
  "h_on_dispatcher_status (server_handlers (prime_server pr dr rr sr st)) = Some prime_on_dispatcher_status"
  "h_on_device_disconnection (server_handlers (prime_server pr dr rr sr st)) =
     Some prime_on_device_disconnection"
  by (simp_all add: prime_server_def on_device_disconnection_def on_dispatcher_status_def on_alert_def
      on_batch_upload_def on_hello_def Server_new_def)

type_synonym mem_app =
  "(InMemoryDispatcherRegistry, InMemoryDeviceRegistry, InMemoryReadingRegistry,
    InMemoryDeviceStatusRegistry) AppState"

definition mem_app_ok :: "mem_app \<Rightarrow> bool" where
  "mem_app_ok st \<longleftrightarrow>
     dispatchers_ok (dispatcher_registry st) \<and> devices_ok (device_registry st) \<and>
     readings_ok (reading_registry st) \<and> statuses_ok (device_status_registry st)"

definition mem_known :: "mem_app \<Rightarrow> DeviceId \<Rightarrow> bool" where
  "mem_known st device \<longleftrightarrow> imd_get device (device_registry st) \<noteq> Ok None"

text \<open>The batch handler on the in-memory registries.\<close>

definition mem_on_batch_upload ::
    "(DeviceId, Device) hash_order \<Rightarrow> (string \<Rightarrow> string) \<Rightarrow> (ReadingId, SensorReading) hash_order \<Rightarrow>
     (StatusId, DeviceStatus) hash_order \<Rightarrow> BatchUploadRequest \<Rightarrow> MessageId \<Rightarrow> mem_app \<Rightarrow>
     BatchUploadResponse \<times> mem_app" where
  "mem_on_batch_upload dord low rord sord =
     prime_on_batch_upload (in_memory_devices dord low) (in_memory_readings rord) (in_memory_statuses sord)"

lemma known_device_mem [simp]:
  "known_device (in_memory_devices ord low) device (device_registry st) = mem_known st device"
  by (auto simp: known_device_def mem_known_def in_memory_devices_def imd_get_def split: option.splits)

lemma mem_on_batch_upload_eq:
  "mem_on_batch_upload dord low rord sord request i st =
     (let rs = filter (\<lambda>r. mem_known st (rd_device_id r)) (bu_readings request);
          ss = filter (\<lambda>s. mem_known st (ds_device_id s)) (bu_statuses request)
      in (\<lparr>br_id = bu_id request, br_readings_stored = of_nat (length rs),
           br_readings_rejected =
             of_nat (length (filter (\<lambda>r. \<not> mem_known st (rd_device_id r)) (bu_readings request))),
           br_statuses_stored = of_nat (length ss),
           br_statuses_rejected =
             of_nat (length (filter (\<lambda>s. \<not> mem_known st (ds_device_id s)) (bu_statuses request)))\<rparr>,
          st\<lparr>reading_registry := snd (imr_batch_store rs (reading_registry st)),
             device_status_registry := snd (ims_batch_store ss (device_status_registry st))\<rparr>))"
  by (simp add: mem_on_batch_upload_def prime_on_batch_upload_def split_known_eq Let_def usize_as_u32_def
      in_memory_readings_def in_memory_statuses_def imr_batch_store_def ims_batch_store_def)

lemma length_filter_split:
  "of_nat (length (filter P xs)) + of_nat (length (filter (\<lambda>x. \<not> P x) xs)) = (of_nat (length xs) :: u32)"
  by (simp flip: of_nat_add add: sum_length_filter_compl)

lemma get_imr_batch_store:
  assumes "readings_ok m"
  shows "imr_get k (snd (imr_batch_store rs m)) =
    (case find (\<lambda>r. rd_id r = k) (rev rs) of Some r \<Rightarrow> Ok (Some r) | None \<Rightarrow> imr_get k m)"
  using reading_registry.get_try_each [OF assms, of rs] imr_batch_store_Ok [of rs m]
  by (cases "imr_batch_store rs m") (simp add: imr_batch_store_def)

lemma get_ims_batch_store:
  assumes "statuses_ok m"
  shows "ims_get k (snd (ims_batch_store ss m)) =
    (case find (\<lambda>s. ds_id s = k) (rev ss) of Some s \<Rightarrow> Ok (Some s) | None \<Rightarrow> ims_get k m)"
  using status_registry.get_try_each [OF assms, of ss] ims_batch_store_Ok [of ss m]
  by (cases "ims_batch_store ss m") (simp add: ims_batch_store_def)

lemma mem_app_ok_batch:
  "mem_app_ok st \<Longrightarrow> mem_app_ok (snd (mem_on_batch_upload dord low rord sord request i st))"
  by (simp add: mem_on_batch_upload_eq mem_app_ok_def imr_batch_store_def ims_batch_store_def Let_def
      reading_registry.inv_try_each status_registry.inv_try_each)

definition sample_app :: "DispatcherState \<Rightarrow> mem_app" where
  "sample_app p =
     \<lparr>dispatcher_registry = snd (imp_register (sample_dispatcher 7 p) InMemoryDispatcherRegistry_new),
      device_registry = sample_devices, reading_registry = sample_readings,
      device_status_registry = InMemoryDeviceStatusRegistry_new\<rparr>"

lemma sample_app_ok: "mem_app_ok (sample_app p)"
  by (simp add: mem_app_ok_def sample_app_def sample_devices_ok sample_readings_ok imp_register_def
      InMemoryDispatcherRegistry_new_def InMemoryDeviceStatusRegistry_new_def)

definition sample_upload :: BatchUploadRequest where
  "sample_upload = \<lparr>bu_id = BatchId 3, bu_dispatcher_id = DispatcherId 7,
     bu_readings = [sample_reading 11 1, sample_reading 12 5], bu_statuses = [sample_status 21 2 80 []],
     bu_timestamp = 0\<rparr>"

subsection \<open>Properties\<close>

text \<open>
  C30.  The hello handler.  A dispatcher is accepted, under the identifier it sent, exactly when it
  is registered and active; it is told it is unknown exactly when it is not registered; once it has
  been suspended it is rejected as suspended.  The handler changes no registry.
\<close>

theorem prime_hello_correct:
  "let reg = dispatcher_registry st;
       p = hello_dispatcher_id h;
       hello_reply = (\<lambda>reg'. fst (prime_on_hello (in_memory_dispatchers ord) h i (st\<lparr>dispatcher_registry := reg'\<rparr>)))
   in (\<forall>q. (hello_reply reg = Accepted q) =
         (q = p \<and> (\<exists>d. imp_get p reg = Ok (Some d) \<and> disp_state d = Dispatcher_Active))) \<and>
      (hello_reply reg = Rejected UnknownDispatcher) = (imp_get p reg = Ok None) \<and>
      hello_reply (snd (imp_suspend p reg)) =
        Rejected (if imp_get p reg = Ok None then UnknownDispatcher else DispatcherSuspended) \<and>
      snd (prime_on_hello (in_memory_dispatchers ord) h i st) = st"
  by (auto simp: Let_def prime_on_hello_def in_memory_dispatchers_def imp_defs hm_simps split: option.splits)

text \<open>
  C29.  The batch handler on the in-memory registries.  From a well-formed state it answers with the
  batch's identifier and with how many readings and statuses came from registered devices and how
  many did not; afterwards a lookup returns the last reading (status) of the batch with that
  identifier whose device is registered, or what it returned before; devices and dispatchers are
  unchanged, and the state stays well formed.
\<close>

theorem prime_batch_correct:
  assumes "mem_app_ok st"
  shows "let (resp, st') = mem_on_batch_upload dord low rord sord request i st;
      known_rs = filter (\<lambda>r. mem_known st (rd_device_id r)) (bu_readings request);
      known_ss = filter (\<lambda>s. mem_known st (ds_device_id s)) (bu_statuses request)
    in br_id resp = bu_id request \<and>
       br_readings_stored resp = of_nat (length known_rs) \<and>
       br_readings_stored resp + br_readings_rejected resp = of_nat (length (bu_readings request)) \<and>
       br_statuses_stored resp = of_nat (length known_ss) \<and>
       br_statuses_stored resp + br_statuses_rejected resp = of_nat (length (bu_statuses request)) \<and>
       mem_app_ok st' \<and> device_registry st' = device_registry st \<and>
       dispatcher_registry st' = dispatcher_registry st \<and>
       (\<forall>k. imr_get k (reading_registry st') =
         (case find (\<lambda>r. rd_id r = k) (rev known_rs) of
            Some r \<Rightarrow> Ok (Some r) | None \<Rightarrow> imr_get k (reading_registry st))) \<and>
       (\<forall>k. ims_get k (device_status_registry st') =
         (case find (\<lambda>s. ds_id s = k) (rev known_ss) of
            Some s \<Rightarrow> Ok (Some s) | None \<Rightarrow> ims_get k (device_status_registry st)))"
proof -
  have ok: "readings_ok (reading_registry st)" "statuses_ok (device_status_registry st)"
    using assms by (simp_all add: mem_app_ok_def)
  show ?thesis
    using mem_app_ok_batch [OF assms, of dord low rord sord request i]
    by (simp add: mem_on_batch_upload_eq Let_def length_filter_split get_imr_batch_store [OF ok(1)]
        get_ims_batch_store [OF ok(2)])
qed

theorem prime_batch_correct_witness:
  "let (resp, st') = mem_on_batch_upload forward_order id forward_order forward_order sample_upload (MessageId 1)
      (sample_app Dispatcher_Active)
   in br_readings_stored resp = 1 \<and> br_readings_rejected resp = 1 \<and> br_statuses_stored resp = 1 \<and>
      imr_get (ReadingId 11) (reading_registry st') = Ok (Some (sample_reading 11 1)) \<and>
      imr_get (ReadingId 12) (reading_registry st') = Ok None"
proof -
  have known: "mem_known (sample_app Dispatcher_Active) (DeviceId d) = (d = 1 \<or> d = 2)" for d
    by (auto simp: mem_known_def sample_app_def sample_devices_def InMemoryDeviceRegistry_new_def imd_defs
        hm_simps)
  have fresh: "imr_get (ReadingId 12) (reading_registry (sample_app Dispatcher_Active)) = Ok None"
    by (simp add: sample_app_def sample_readings_def InMemoryReadingRegistry_new_def imr_defs hm_simps)
  from prime_batch_correct [OF sample_app_ok, of forward_order id forward_order forward_order sample_upload
      "MessageId 1" Dispatcher_Active]
  show ?thesis
    by (auto simp: sample_upload_def known fresh Let_def split: prod.splits)
qed

text \<open>
  What the batch handler does not look at.  Neither the dispatcher that sends the batch nor
  the registry of dispatchers has any influence on the answer or on what is stored, and suspending
  a device changes nothing either: its readings are still accepted.
\<close>

lemma prime_batch_ignores_suspension:
  "let (resp, st') = mem_on_batch_upload dord low rord sord request i st;
       (resp2, st2) = mem_on_batch_upload dord low rord sord (request\<lparr>bu_dispatcher_id := q\<rparr>) i
         (st\<lparr>dispatcher_registry := reg, device_registry := snd (imd_suspend dev (device_registry st))\<rparr>)
   in resp2 = resp \<and> reading_registry st2 = reading_registry st' \<and>
      device_status_registry st2 = device_status_registry st'"
proof -
  have "mem_known (st\<lparr>dispatcher_registry := reg, device_registry := snd (imd_suspend dev (device_registry st))\<rparr>) =
      mem_known st"
    by (auto simp: fun_eq_iff mem_known_def imd_defs hm_simps split: option.splits)
  then show ?thesis
    by (simp add: mem_on_batch_upload_eq Let_def)
qed

text \<open>
  A failure to store is not reported.  For every device registry, the answer to a batch is the
  same whatever the reading and status registries do with it: also when both refuse it, in which
  case they keep their contents, the answer counts the events of known devices as stored.
\<close>

lemma prime_batch_hides_failures:
  "let failing_rr = rr\<lparr>read_batch_store := \<lambda>_ m. (Err e, m)\<rparr>;
       failing_sr = sr\<lparr>stat_batch_store := \<lambda>_ m. (Err e', m)\<rparr>;
       (resp, st') = prime_on_batch_upload dr failing_rr failing_sr request i st
   in resp = fst (prime_on_batch_upload dr rr sr request i st) \<and>
      br_readings_stored resp =
        of_nat (length (filter (\<lambda>r. known_device dr (rd_device_id r) (device_registry st)) (bu_readings request))) \<and>
      br_statuses_stored resp =
        of_nat (length (filter (\<lambda>s. known_device dr (ds_device_id s) (device_registry st)) (bu_statuses request))) \<and>
      st' = st"
  by (simp add: prime_on_batch_upload_def split_known_eq Let_def usize_as_u32_def)

end
