(* ===== verification/Delivery.thy ===== *)
theory Delivery
  imports Dispatch_Main Prime_Handlers
begin

text \<open>
  The way of a reading through the system: from an edge device over its socket to the dispatcher's
  receiver, collector and storage, and from there, by the uploader, over the RPC connection to the
  handlers and registries of prime.
\<close>

subsection \<open>From the dispatcher to prime\<close>

text \<open>
  A call of the dispatcher's client that is answered by prime's server, while other tasks of the
  dispatcher run the operations \<open>others\<close> on the storage.
\<close>

definition prime_call ::
    "'st ServerHandlers \<Rightarrow> (MemoryStorage \<Rightarrow> MemoryStorage) \<Rightarrow> MessageId \<Rightarrow> MessageId \<Rightarrow>
     (MemoryStorage, 'st) dispatch_world rpc_call_fn" where
  "prime_call h others new_id reply_id msg t w =
     (let (r, st) = loopback_call h new_id reply_id msg t (w_peer w)
      in (r, w\<lparr>w_storage := others (w_storage w), w_peer := st\<rparr>))"

lemma prime_call_batch:
  "client_batch_upload (prime_call h others i j) t batch w =
     (case h_on_batch_upload h of
        None \<Rightarrow> (Err (Rpc RpcTimeout), w\<lparr>w_storage := others (w_storage w)\<rparr>)
      | Some f \<Rightarrow> (case f batch i (w_peer w) of
          (resp, st) \<Rightarrow> (Ok resp, w\<lparr>w_storage := others (w_storage w), w_peer := st\<rparr>)))"
  by (auto simp: client_batch_upload_def prime_call_def loopback_call_def handle_envelope_def Let_def
      split: option.splits prod.splits)

text \<open>Prime's server, started in the state \<open>st0\<close>, on the in-memory registries.\<close>

definition mem_prime ::
    "(DispatcherId, Dispatcher) hash_order \<Rightarrow> (DeviceId, Device) hash_order \<Rightarrow> (string \<Rightarrow> string) \<Rightarrow>
     (ReadingId, SensorReading) hash_order \<Rightarrow> (StatusId, DeviceStatus) hash_order \<Rightarrow> mem_app \<Rightarrow> mem_app ServerHandlers" where
  "mem_prime pord dord low rord sord st0 =
     server_handlers (prime_server (in_memory_dispatchers pord) (in_memory_devices dord low)
       (in_memory_readings rord) (in_memory_statuses sord) st0)"

lemma mem_prime_batch [simp]:
  "h_on_batch_upload (mem_prime pord dord low rord sord st0) = Some (mem_on_batch_upload dord low rord sord)"
  by (simp add: mem_prime_def mem_on_batch_upload_def)

text \<open>A lookup in prime after a batch, for a batch without duplicate identifiers.\<close>

lemma find_by_id:
  assumes "distinct (map f xs)" and "r \<in> set xs"
  shows "find (\<lambda>x. f x = f r) (rev (filter P xs)) = (if P r then Some r else None)"
proof -
  have uniq: "x = r" if "x \<in> set xs" "f x = f r" for x
    using that assms by (auto simp: distinct_map inj_on_def)
  show ?thesis
  proof (cases "find (\<lambda>x. f x = f r) (rev (filter P xs))")
    case None
    with assms(2) show ?thesis by (auto simp: find_None_iff)
  next
    case (Some x)
    from find_SomeD [OF this] uniq [of x] Some show ?thesis by auto
  qed
qed

lemma upload_pending_prime:
  fixes w :: "(MemoryStorage, mem_app) dispatch_world"
  assumes "op_fetch_readings (unit_memory_ops ro so) (w_storage w) = Ok rs"
    and "op_fetch_statuses (unit_memory_ops ro so) (w_storage w) = Ok ss" and "\<not> (rs = [] \<and> ss = [])"
  shows "upload_pending env (unit_memory_ops ro so) (prime_call (mem_prime pord dord low rord sord st0) others i j) w =
    (Batch_uploaded,
     w\<lparr>w_storage := snd (op_mark_statuses (unit_memory_ops ro so) (map ds_id ss)
         (snd (op_mark_readings (unit_memory_ops ro so) (map rd_id rs) (others (w_storage w))))),
       w_peer := snd (mem_on_batch_upload dord low rord sord (make_batch env rs ss) i (w_peer w))\<rparr>)"
  using assms by (simp add: upload_pending_def prime_call_batch Let_def case_prod_beta)

lemma marked_batch:
  fixes rs :: "SensorReading list" and ss :: "DeviceStatus list"
  assumes "MemoryStorage_inv s"
    and "s' = snd (op_mark_statuses (unit_memory_ops ro so) (map ds_id ss)
    (snd (op_mark_readings (unit_memory_ops ro so) (map rd_id rs) s)))"
  shows "pending_readings s' k = (if k \<in> rd_id ` set rs then None else pending_readings s k)"
    and "pending_statuses s' l = (if l \<in> ds_id ` set ss then None else pending_statuses s l)"
  using memory_store.mark_batch_readings [OF assms(1), of ro so rs ss k]
    memory_store.mark_batch_statuses [OF assms(1), of ro so rs ss l]
  by (simp_all add: assms(2) memory_store.mark_batch_def memory_ops_total)

text \<open>What a tick of the uploader delivers of one reading, and of one status.\<close>

lemma prime_stores_reading:
  assumes "mem_app_ok st" and "distinct (map rd_id (bu_readings b))" and "r \<in> set (bu_readings b)"
  shows "imr_get (rd_id r) (reading_registry (snd (mem_on_batch_upload dord low rord sord b i st))) =
    (if mem_known st (rd_device_id r) then Ok (Some r) else imr_get (rd_id r) (reading_registry st))"
proof -
  have ok: "readings_ok (reading_registry st)" using assms(1) by (simp add: mem_app_ok_def)
  show ?thesis by (simp add: mem_on_batch_upload_eq Let_def get_imr_batch_store [OF ok]
      find_by_id [OF assms(2,3)])
qed

lemma prime_stores_status:
  assumes "mem_app_ok st" and "distinct (map ds_id (bu_statuses b))" and "s \<in> set (bu_statuses b)"
  shows "ims_get (ds_id s) (device_status_registry (snd (mem_on_batch_upload dord low rord sord b i st))) =
    (if mem_known st (ds_device_id s) then Ok (Some s) else ims_get (ds_id s) (device_status_registry st))"
proof -
  have ok: "statuses_ok (device_status_registry st)" using assms(1) by (simp add: mem_app_ok_def)
  show ?thesis by (simp add: mem_on_batch_upload_eq Let_def get_ims_batch_store [OF ok]
      find_by_id [OF assms(2,3)])
qed

text \<open>An event has been delivered: prime has it if it knows its device, and the dispatcher has let go of it.\<close>

definition reading_delivered :: "mem_app \<Rightarrow> SensorReading \<Rightarrow> (MemoryStorage, mem_app) dispatch_world \<Rightarrow> bool" where
  "reading_delivered st r w' \<longleftrightarrow>
     pending_readings (w_storage w') (rd_id r) = None \<and>
     imr_get (rd_id r) (reading_registry (w_peer w')) =
       (if mem_known st (rd_device_id r) then Ok (Some r) else imr_get (rd_id r) (reading_registry st))"

definition status_delivered :: "mem_app \<Rightarrow> DeviceStatus \<Rightarrow> (MemoryStorage, mem_app) dispatch_world \<Rightarrow> bool" where
  "status_delivered st s w' \<longleftrightarrow>
     pending_statuses (w_storage w') (ds_id s) = None \<and>
     ims_get (ds_id s) (device_status_registry (w_peer w')) =
       (if mem_known st (ds_device_id s) then Ok (Some s) else ims_get (ds_id s) (device_status_registry st))"


definition sample_delivery :: "(MemoryStorage, mem_app) dispatch_world" where
  "sample_delivery =
     \<lparr>w_storage = snd (mem_store_reading (sample_reading 31 1) MemoryStorage_default :: unit ures \<times> _),
      w_state = DispatcherState_new 0, w_peer = sample_app Dispatcher_Active\<rparr>"


subsection \<open>From the edge device to the dispatcher's storage\<close>

text \<open>An edge device that sends one packet after the other, as long as sending succeeds.\<close>

fun send_all ::
    "(ReadingPacket \<Rightarrow> (bytes, unit) result) \<Rightarrow> (Msg \<Rightarrow> (bytes, unit) result) \<Rightarrow> 's socket_ops \<Rightarrow>
     ReadingPacket list \<Rightarrow> 's Wifi \<Rightarrow> 's Wifi option" where
  "send_all enc_packet enc_msg ops [] w = Some w"
| "send_all enc_packet enc_msg ops (p # ps) w =
     (case send_reading enc_packet enc_msg ops p w of
        Some (Inr _, w') \<Rightarrow> send_all enc_packet enc_msg ops ps w'
      | _ \<Rightarrow> None)"

lemma send_all_wire:
  assumes "writer_law ops wire" and "send_all enc_packet enc_msg ops ps w = Some w'"
  shows "\<exists>fs. list_all2 (\<lambda>p f. frame_reading enc_packet enc_msg p = Ok f) ps fs \<and>
    wire (wifi_socket w') = wire (wifi_socket w) @ concat fs"
  using assms(2)
proof (induction ps arbitrary: w)
  case (Cons p ps)
  obtain w1 where w1: "send_reading enc_packet enc_msg ops p w = Some (Ok (), w1)"
    "send_all enc_packet enc_msg ops ps w1 = Some w'"
    using Cons.prems by (auto split: option.splits sum.splits)
  obtain f where f: "frame_reading enc_packet enc_msg p = Ok f"
    using w1(1) by (auto simp: send_reading_def split: sum.splits)
  have "wire (wifi_socket w1) = wire (wifi_socket w) @ f"
    using wifi_write_all_total [OF assms(1), of f "wifi_socket w"] w1(1) by (auto simp: send_reading_def f)
  moreover obtain fs where "list_all2 (\<lambda>p f. frame_reading enc_packet enc_msg p = Ok f) ps fs"
    "wire (wifi_socket w') = wire (wifi_socket w1) @ concat fs"
    using Cons.IH [OF w1(2)] by blast
  ultimately show ?case using f by (intro exI [of _ "f # fs"]) simp
qed simp

text \<open>
  C3.  Delivery from an edge device to the dispatcher.  An edge device sends packets over a socket that
  takes at least one byte per write; the bytes reach the dispatcher in any non-empty pieces, and the
  device closes the connection.  Then the dispatcher's receiver ends normally, and once its collector
  has taken what the receiver passed on, exactly the readings made of the packets, one for each, have
  been added to the pending readings.
\<close>

theorem delivery_from_edge:
  assumes "edge_codec_law enc_packet enc_msg env" and "tx_send env = open_channel" and "writer_law ops wire"
    and "send_all enc_packet enc_msg ops ps w = Some w'"
    and "wire (wifi_socket w') = wire (wifi_socket w) @ concat chunks" and "[] \<notin> set chunks" and "ses_chan s = []"
  shows "\<exists>s'. serve_device env device dispatcher loc (map Read_chunk chunks @ [Read_chunk []]) [] s = Some (Finished, s') \<and>
    length (ses_chan s') = length ps \<and>
    pending_readings (co_storage (run_data_collector cenv (unit_memory_ops ro so) (map Collector_data (ses_chan s')) c)) =
      pending_readings (co_storage c) ++
        map_of (rev (map (\<lambda>r. (rd_id r, r)) (readings_in (readings_of env device dispatcher loc (ses_count s) ps))))"
proof -
  obtain fs where fs: "list_all2 (\<lambda>p f. frame_reading enc_packet enc_msg p = Ok f) ps fs" "concat chunks = concat fs"
    using send_all_wire [OF assms(3,4)] assms(5) by auto
  let ?s = "took (readings_of env device dispatcher loc (ses_count s) ps) (length ps) s"
  have run: "serve_device env device dispatcher loc (map Read_chunk chunks @ [Read_chunk []]) [] s =
      Some (Finished, disconnect device GracefulClose ?s)"
    using serve_chunks [OF assms(1,2) fs(1), of "[]" chunks device dispatcher loc "[Read_chunk []]" s] fs(2) assms(6)
    by simp
  have chan: "ses_chan (disconnect device GracefulClose ?s) = readings_of env device dispatcher loc (ses_count s) ps"
    by (simp add: disconnect_def took_def assms(7))
  have "length (readings_of env device dispatcher loc k ps) = length ps" for k
    by (induction ps arbitrary: k) simp_all
  moreover have "collected (map Collector_data ds) = ds" for ds by (induction ds) simp_all
  ultimately show ?thesis
    using run by (simp add: chan run_data_collector_fold fold_collect_memory)
qed

definition sample_collector :: "MemoryStorage collector" where
  "sample_collector = \<lparr>co_storage = MemoryStorage_default, co_state = DispatcherState_new 0, co_count = 0\<rparr>"

definition sample_collector_env :: collector_env where
  "sample_collector_env =
     \<lparr>ce_dispatcher = DispatcherId 4, ce_fresh = (\<lambda>k. of_nat k), ce_now = int, ce_show_sensor = (\<lambda>_. ''s'')\<rparr>"

theorem delivery_from_edge_witness:
  "\<exists>s'. serve_device toy_env (DeviceId 3) (DispatcherId 4) 9 (map Read_chunk [[1], [40]] @ [Read_chunk []]) [] toy_session =
      Some (Finished, s') \<and> length (ses_chan s') = 1"
proof -
  have sent: "send_all toy_enc_packet toy_enc_msg trickle_ops [sample_packet] \<lparr>wifi_socket = [9], wifi_device_id = None\<rparr> =
      Some \<lparr>wifi_socket = [9, 1, 40], wifi_device_id = None\<rparr>"
    by (simp add: send_reading_def toy_frame wifi_write_all.simps trickle_ops_def)
  have "tx_send toy_env = open_channel" "ses_chan toy_session = []" by (simp_all add: toy_env_def toy_session_def)
  from delivery_from_edge [OF toy_codec_law this(1) trickle_writer_law sent, of "[[1], [40]]" toy_session "DeviceId 3"
      "DispatcherId 4" 9 sample_collector_env forward_order forward_order sample_collector] this(2)
  show ?thesis by auto
qed

end
