(* ===== verification/Sql.thy ===== *)
theory Sql
  imports Core_Types
begin

text \<open>
  The SQL statements of the two SQLite back ends, \<open>ersha-dispatch/src/storage/sqlite.rs\<close> and
  \<open>ersha-prime/src/registry/sqlite\<close>, on tables with a primary key.  A table is a map from the key to
  the row; the order in which a \<open>SELECT\<close> without \<open>ORDER BY\<close> returns rows is an argument, as the
  iteration order of a hash map is.

  Every statement may fail: \<open>io n\<close> says whether the \<open>n\<close>-th statement of an operation does (the disk is
  full, the database is locked, the connection is gone).  A statement that fails has no effect; a
  transaction that is dropped before its commit, because of the operator \<open>?\<close>, is rolled back.
\<close>

datatype sqlx_error = Sqlx_Io | Sqlx_UniqueViolation | Sqlx_ForeignKeyViolation | Sqlx_Busy

definition run_stmt ::
    "(nat \<Rightarrow> bool) \<Rightarrow> nat \<Rightarrow> ('db \<Rightarrow> ('a, sqlx_error) result \<times> 'db) \<Rightarrow> 'db \<Rightarrow> ('a, sqlx_error) result \<times> 'db" where
  "run_stmt io n stmt db = (if io n then (Err Sqlx_Io, db) else stmt db)"

text \<open>\<open>INSERT\<close>, \<open>INSERT OR REPLACE\<close>, \<open>UPDATE\<close> of the row with a given key, \<open>DELETE\<close>, \<open>COUNT\<close>.\<close>

definition sql_insert :: "'k \<Rightarrow> 'r \<Rightarrow> ('k, 'r) hashmap \<Rightarrow> (unit, sqlx_error) result \<times> ('k, 'r) hashmap" where
  "sql_insert k row t =
     (case hm_get t k of
        Some _ \<Rightarrow> (Err Sqlx_UniqueViolation, t)
      | None \<Rightarrow> (Ok (), hm_insert k row t))"

definition sql_insert_or_replace ::
    "'k \<Rightarrow> 'r \<Rightarrow> ('k, 'r) hashmap \<Rightarrow> (unit, sqlx_error) result \<times> ('k, 'r) hashmap" where
  "sql_insert_or_replace k row t = (Ok (), hm_insert k row t)"

definition sql_update_key ::
    "'k \<Rightarrow> ('r \<Rightarrow> 'r) \<Rightarrow> ('k, 'r) hashmap \<Rightarrow> (unit, sqlx_error) result \<times> ('k, 'r) hashmap" where
  "sql_update_key k f t = (Ok (), hm_modify k f t)"

definition sql_delete :: "('r \<Rightarrow> bool) \<Rightarrow> ('k, 'r) hashmap \<Rightarrow> (nat, sqlx_error) result \<times> ('k, 'r) hashmap" where
  "sql_delete P t = (Ok (length (filter (P \<circ> snd) t)), filter (\<lambda>kr. \<not> P (snd kr)) t)"

definition sql_count :: "('r \<Rightarrow> bool) \<Rightarrow> ('k, 'r) hashmap \<Rightarrow> nat" where
  "sql_count P t = length (filter (P \<circ> snd) t)"

text \<open>A loop of statements in a transaction, and the transaction around it.\<close>

fun tx_each ::
    "(nat \<Rightarrow> 'x \<Rightarrow> 'db \<Rightarrow> (unit, 'e) result \<times> 'db) \<Rightarrow> nat \<Rightarrow> 'x list \<Rightarrow> 'db \<Rightarrow> (unit, 'e) result \<times> 'db" where
  "tx_each step n [] db = (Ok (), db)"
| "tx_each step n (x # xs) db =
     (case step n x db of
        (Inl e, db') \<Rightarrow> (Err e, db')
      | (Inr _, db') \<Rightarrow> tx_each step (Suc n) xs db')"

definition transaction ::
    "(sqlx_error \<Rightarrow> 'e) \<Rightarrow> (nat \<Rightarrow> bool) \<Rightarrow> nat \<Rightarrow> ('db \<Rightarrow> ('a, 'e) result \<times> 'db) \<Rightarrow> 'db \<Rightarrow> ('a, 'e) result \<times> 'db" where
  "transaction wrap io n_commit body db =
     (if io 0 then (Err (wrap Sqlx_Io), db)
      else case body db of
             (Inl e, _) \<Rightarrow> (Err e, db)
           | (Inr x, db') \<Rightarrow> if io n_commit then (Err (wrap Sqlx_Io), db) else (Ok x, db'))"

text \<open>\<open>map_err\<close> of an error by the operator \<open>?\<close>, and the decoding of rows, which stops at the first error.\<close>

definition map_err :: "('e \<Rightarrow> 'f) \<Rightarrow> ('a, 'e) result \<times> 'db \<Rightarrow> ('a, 'f) result \<times> 'db" where
  "map_err f r = (map_sum f id (fst r), snd r)"

fun try_map :: "('a \<Rightarrow> ('b, 'e) result) \<Rightarrow> 'a list \<Rightarrow> ('b list, 'e) result" where
  "try_map f [] = Ok []"
| "try_map f (x # xs) =
     (case f x of
        Inl e \<Rightarrow> Err e
      | Inr y \<Rightarrow> (case try_map f xs of Inl e \<Rightarrow> Err e | Inr ys \<Rightarrow> Ok (y # ys)))"

subsection \<open>Lemmas\<close>

lemma transaction_Err: "fst (transaction wrap io n body db) = Err e \<Longrightarrow> snd (transaction wrap io n body db) = db"
  by (auto simp: transaction_def split: if_splits prod.splits sum.splits)

lemma transaction_OkD:
  "transaction wrap io n body db = (Ok x, db') \<Longrightarrow> body db = (Ok x, db')"
  by (auto simp: transaction_def split: if_splits prod.splits sum.splits)

lemma transaction_started: "transaction wrap io n body db = (Ok x, db') \<Longrightarrow> \<not> io 0"
  by (auto simp: transaction_def split: if_splits)

text \<open>An invariant of every step of a loop is an invariant of the loop, and of the transaction.\<close>

lemma tx_each_inv:
  assumes "\<And>n x db. P db \<Longrightarrow> x \<in> set xs \<Longrightarrow> P (snd (step n x db))" and "P db"
  shows "P (snd (tx_each step n xs db))"
  using assms
proof (induction xs arbitrary: n db)
  case (Cons x xs)
  have "P (snd (step n x db))" using Cons.prems by simp
  moreover have "P (snd (tx_each step (Suc n) xs db'))" if "P db'" for db'
    using Cons.IH Cons.prems(1) that by simp
  ultimately show ?case by (cases "step n x db") (auto split: sum.split)
qed simp

lemma transaction_inv:
  assumes "P db" and "P (snd (body db))"
  shows "P (snd (transaction wrap io n body db))"
  using assms by (auto simp: transaction_def split: prod.split sum.split)

lemma tx_each_Ok:
  assumes "\<And>n x db. step n x db = (Ok (), f x db)"
  shows "tx_each step n xs db = (Ok (), fold f xs db)"
  by (induction xs arbitrary: n db) (simp_all add: assms)

lemma tx_each_OkD:
  assumes "tx_each step n xs db = (Ok u, db')" and "\<And>n x db u db'. step n x db = (Ok u, db') \<Longrightarrow> db' = f x db"
  shows "db' = fold f xs db"
  using assms
proof (induction xs arbitrary: n db)
  case (Cons x xs)
  then show ?case by (fastforce split: prod.splits sum.splits)
qed simp

lemma try_map_Ok: "(\<And>x. x \<in> set xs \<Longrightarrow> f x = Ok (g x)) \<Longrightarrow> try_map f xs = Ok (map g xs)"
  by (induction xs) simp_all

lemma try_map_OkD: "try_map f xs = Ok ys \<Longrightarrow> map f xs = map Ok ys"
  by (induction xs arbitrary: ys) (auto split: sum.splits)

text \<open>Decoding rows that come in another order gives the same records in another order.\<close>

lemma try_map_mset:
  assumes "mset rows = mset (map f xs)" and "\<And>x. x \<in> set xs \<Longrightarrow> dec (f x) = Ok (g x)"
  shows "\<exists>ys. try_map dec rows = Ok ys \<and> mset ys = mset (map g xs)"
proof -
  define h where "h r = (case dec r of Inr y \<Rightarrow> y | Inl _ \<Rightarrow> undefined)" for r
  have h: "h (f x) = g x" if "x \<in> set xs" for x using assms(2) [OF that] by (simp add: h_def)
  have "set rows = f ` set xs" using mset_eq_setD [OF assms(1)] by simp
  then have "try_map dec rows = Ok (map h rows)"
    by (intro try_map_Ok) (auto simp: h assms(2))
  moreover have "mset (map h rows) = mset (map h (map f xs))" using assms(1) by (metis mset_map)
  moreover have "map h (map f xs) = map g xs" using h by simp
  ultimately show ?thesis by metis
qed

lemma hm_get_filter: "hm_wf t \<Longrightarrow> hm_get (filter (\<lambda>kr. P (snd kr)) t) k =
    (case hm_get t k of None \<Rightarrow> None | Some r \<Rightarrow> if P r then Some r else None)"
  by (induction t) (force simp: hm_get_def hm_wf_def split: option.split dest: map_of_SomeD)+

lemma hm_wf_filter: "hm_wf t \<Longrightarrow> hm_wf (filter P t)"
  by (simp add: hm_wf_def distinct_map_filter)

lemma sql_count_card:
  assumes "hm_wf t"
  shows "sql_count P t = card {k. \<exists>r. hm_get t k = Some r \<and> P r}"
proof -
  have "sql_count P t = card {k. hm_get (filter (\<lambda>kr. P (snd kr)) t) k \<noteq> None}"
    using length_hm [OF hm_wf_filter [OF assms], of "\<lambda>kr. P (snd kr)"] by (simp add: sql_count_def comp_def)
  also have "{k. hm_get (filter (\<lambda>kr. P (snd kr)) t) k \<noteq> None} = {k. \<exists>r. hm_get t k = Some r \<and> P r}"
    by (auto simp: hm_get_filter [OF assms] split: option.splits if_splits)
  finally show ?thesis .
qed

end
