(* ===== verification/Dispatch_Sqlite.thy ===== *)
theory Dispatch_Sqlite
  imports Dispatch_Memory Sql
begin

text \<open>
  The SQLite store of a dispatcher (\<open>ersha-dispatch/src/storage/sqlite.rs\<close> and its migration).  Both
  tables have the same columns; the statements are written once, over the encoding of an event, and
  instantiated for readings and statuses.

  The text form of identifiers (crate \<open>ulid\<close>), the JSON form of events (crate \<open>serde_json\<close>) and
  SQLite's \<open>julianday('now') - julianday(uploaded_at)\<close> are arguments, the record \<open>sql_env\<close>.  The clock
  (\<open>sq_now\<close>) and the outcome of the statements of the next operation (\<open>sq_io\<close>) are part of the state:
  no operation changes them, and every theorem holds for all their values.
\<close>

record 'j sql_env =
  ulid_text :: "ulid \<Rightarrow> string"
  to_json_reading :: "SensorReading \<Rightarrow> (string, 'j) result"
  from_json_reading :: "string \<Rightarrow> (SensorReading, 'j) result"
  to_json_status :: "DeviceStatus \<Rightarrow> (string, 'j) result"
  from_json_status :: "string \<Rightarrow> (DeviceStatus, 'j) result"
  age_days :: "timestamp \<Rightarrow> timestamp \<Rightarrow> f64"

datatype 'j SqliteStorageError = Sqlx sqlx_error | SerdeJson 'j | Migrate

record event_row =
  row_id :: string
  row_json :: string
  row_state :: StorageState
  row_created_at :: timestamp
  row_uploaded_at :: "timestamp option"

type_synonym event_table = "(string, event_row) hashmap"

record SqliteStorage =
  sq_readings :: event_table
  sq_statuses :: event_table
  sq_now :: timestamp
  sq_io :: "nat \<Rightarrow> bool"

text \<open>
  Opening a store connects, sets two pragmas and runs the migrations, which create missing tables;
  \<open>db\<close> is what the file holds.  An in-memory database starts empty.
\<close>

definition SqliteStorage_new :: "SqliteStorage \<Rightarrow> (SqliteStorage, 'j SqliteStorageError) result" where
  "SqliteStorage_new db =
     (if sq_io db 0 \<or> sq_io db 1 then Err (Sqlx Sqlx_Io)
      else if sq_io db 2 then Err Migrate
      else Ok db)"

definition SqliteStorage_new_in_memory ::
    "timestamp \<Rightarrow> (nat \<Rightarrow> bool) \<Rightarrow> (SqliteStorage, 'j SqliteStorageError) result" where
  "SqliteStorage_new_in_memory now io =
     (if io 0 then Err (Sqlx Sqlx_Io)
      else if io 1 then Err Migrate
      else Ok \<lparr>sq_readings = [], sq_statuses = [], sq_now = now, sq_io = io\<rparr>)"

subsection \<open>The statements on a table of events\<close>

definition insert_event ::
    "(nat \<Rightarrow> bool) \<Rightarrow> timestamp \<Rightarrow> ('e \<Rightarrow> (string, 'j) result) \<Rightarrow> ('e \<Rightarrow> string) \<Rightarrow> nat \<Rightarrow> 'e \<Rightarrow> event_table \<Rightarrow>
     (unit, 'j SqliteStorageError) result \<times> event_table" where
  "insert_event io now to_json id_str n e t =
     (case to_json e of
        Inl j \<Rightarrow> (Err (SerdeJson j), t)
      | Inr json \<Rightarrow>
          map_err Sqlx
            (run_stmt io n
              (sql_insert (id_str e)
                \<lparr>row_id = id_str e, row_json = json, row_state = Pending, row_created_at = now,
                 row_uploaded_at = None\<rparr>) t))"

definition insert_events ::
    "(nat \<Rightarrow> bool) \<Rightarrow> timestamp \<Rightarrow> ('e \<Rightarrow> (string, 'j) result) \<Rightarrow> ('e \<Rightarrow> string) \<Rightarrow> 'e list \<Rightarrow> event_table \<Rightarrow>
     (unit, 'j SqliteStorageError) result \<times> event_table" where
  "insert_events io now to_json id_str es t =
     (if es = [] then (Ok (), t)
      else transaction Sqlx io (Suc (length es)) (tx_each (insert_event io now to_json id_str) 1 es) t)"

definition select_pending ::
    "(nat \<Rightarrow> bool) \<Rightarrow> (string, event_row) hash_order \<Rightarrow> (string \<Rightarrow> ('e, 'j) result) \<Rightarrow> event_table \<Rightarrow>
     ('e list, 'j SqliteStorageError) result" where
  "select_pending io ord from_json t =
     (if io 0 then Err (Sqlx Sqlx_Io)
      else try_map (\<lambda>row. map_sum SerdeJson id (from_json (row_json row)))
             (filter (\<lambda>row. row_state row = Pending) (hm_values ord t)))"

definition mark_row :: "timestamp \<Rightarrow> event_row \<Rightarrow> event_row" where
  "mark_row now row = row\<lparr>row_state := Uploaded, row_uploaded_at := Some now\<rparr>"

definition update_uploaded ::
    "(nat \<Rightarrow> bool) \<Rightarrow> timestamp \<Rightarrow> nat \<Rightarrow> string \<Rightarrow> event_table \<Rightarrow>
     (unit, 'j SqliteStorageError) result \<times> event_table" where
  "update_uploaded io now n id_str t = map_err Sqlx (run_stmt io n (sql_update_key id_str (mark_row now)) t)"

definition update_all_uploaded ::
    "(nat \<Rightarrow> bool) \<Rightarrow> timestamp \<Rightarrow> string list \<Rightarrow> event_table \<Rightarrow>
     (unit, 'j SqliteStorageError) result \<times> event_table" where
  "update_all_uploaded io now ids t =
     (if ids = [] then (Ok (), t)
      else transaction Sqlx io (Suc (length ids)) (tx_each (update_uploaded io now) 1 ids) t)"

subsection \<open>Sensor readings\<close>

definition sqlite_store_reading ::
    "'j sql_env \<Rightarrow> SensorReading \<Rightarrow> SqliteStorage \<Rightarrow> (unit, 'j SqliteStorageError) result \<times> SqliteStorage" where
  "sqlite_store_reading env reading s =
     (let (r, t) = insert_event (sq_io s) (sq_now s) (to_json_reading env)
            (\<lambda>reading. ulid_text env (reading_ulid (rd_id reading))) 0 reading (sq_readings s)
      in (r, s\<lparr>sq_readings := t\<rparr>))"

definition sqlite_store_readings ::
    "'j sql_env \<Rightarrow> SensorReading list \<Rightarrow> SqliteStorage \<Rightarrow> (unit, 'j SqliteStorageError) result \<times> SqliteStorage" where
  "sqlite_store_readings env readings s =
     (let (r, t) = insert_events (sq_io s) (sq_now s) (to_json_reading env)
            (\<lambda>reading. ulid_text env (reading_ulid (rd_id reading))) readings (sq_readings s)
      in (r, s\<lparr>sq_readings := t\<rparr>))"

definition sqlite_fetch_readings ::
    "'j sql_env \<Rightarrow> (string, event_row) hash_order \<Rightarrow> SqliteStorage \<Rightarrow>
     (SensorReading list, 'j SqliteStorageError) result" where
  "sqlite_fetch_readings env ord s = select_pending (sq_io s) ord (from_json_reading env) (sq_readings s)"

definition sqlite_mark_readings ::
    "'j sql_env \<Rightarrow> ReadingId list \<Rightarrow> SqliteStorage \<Rightarrow> (unit, 'j SqliteStorageError) result \<times> SqliteStorage" where
  "sqlite_mark_readings env ids s =
     (let (r, t) = update_all_uploaded (sq_io s) (sq_now s) (map (\<lambda>i. ulid_text env (reading_ulid i)) ids)
            (sq_readings s)
      in (r, s\<lparr>sq_readings := t\<rparr>))"

subsection \<open>Device statuses\<close>

definition sqlite_store_status ::
    "'j sql_env \<Rightarrow> DeviceStatus \<Rightarrow> SqliteStorage \<Rightarrow> (unit, 'j SqliteStorageError) result \<times> SqliteStorage" where
  "sqlite_store_status env status s =
     (let (r, t) = insert_event (sq_io s) (sq_now s) (to_json_status env)
            (\<lambda>status. ulid_text env (status_ulid (ds_id status))) 0 status (sq_statuses s)
      in (r, s\<lparr>sq_statuses := t\<rparr>))"

definition sqlite_store_statuses ::
    "'j sql_env \<Rightarrow> DeviceStatus list \<Rightarrow> SqliteStorage \<Rightarrow> (unit, 'j SqliteStorageError) result \<times> SqliteStorage" where
  "sqlite_store_statuses env statuses s =
     (let (r, t) = insert_events (sq_io s) (sq_now s) (to_json_status env)
            (\<lambda>status. ulid_text env (status_ulid (ds_id status))) statuses (sq_statuses s)
      in (r, s\<lparr>sq_statuses := t\<rparr>))"

definition sqlite_fetch_statuses ::
    "'j sql_env \<Rightarrow> (string, event_row) hash_order \<Rightarrow> SqliteStorage \<Rightarrow>
     (DeviceStatus list, 'j SqliteStorageError) result" where
  "sqlite_fetch_statuses env ord s = select_pending (sq_io s) ord (from_json_status env) (sq_statuses s)"

definition sqlite_mark_statuses ::
    "'j sql_env \<Rightarrow> StatusId list \<Rightarrow> SqliteStorage \<Rightarrow> (unit, 'j SqliteStorageError) result \<times> SqliteStorage" where
  "sqlite_mark_statuses env ids s =
     (let (r, t) = update_all_uploaded (sq_io s) (sq_now s) (map (\<lambda>i. ulid_text env (status_ulid i)) ids)
            (sq_statuses s)
      in (r, s\<lparr>sq_statuses := t\<rparr>))"

definition sqlite_ops ::
    "'j sql_env \<Rightarrow> (string, event_row) hash_order \<Rightarrow> (string, event_row) hash_order \<Rightarrow>
     (SqliteStorage, 'j SqliteStorageError) storage_ops" where
  "sqlite_ops env ro so =
     \<lparr>op_store_reading = sqlite_store_reading env, op_store_readings = sqlite_store_readings env,
      op_fetch_readings = sqlite_fetch_readings env ro, op_mark_readings = sqlite_mark_readings env,
      op_store_status = sqlite_store_status env, op_store_statuses = sqlite_store_statuses env,
      op_fetch_statuses = sqlite_fetch_statuses env so, op_mark_statuses = sqlite_mark_statuses env\<rparr>"

subsection \<open>Maintenance\<close>

definition sqlite_get_stats :: "SqliteStorage \<Rightarrow> (StorageStats, 'j SqliteStorageError) result" where
  "sqlite_get_stats s =
     (if sq_io s 0 \<or> sq_io s 1 then Err (Sqlx Sqlx_Io)
      else Ok \<lparr>sensor_readings_pending = sql_count (\<lambda>r. row_state r = Pending) (sq_readings s),
               sensor_readings_uploaded = sql_count (\<lambda>r. row_state r = Uploaded) (sq_readings s),
               sensor_readings_total = sql_count (\<lambda>_. True) (sq_readings s),
               device_statuses_pending = sql_count (\<lambda>r. row_state r = Pending) (sq_statuses s),
               device_statuses_uploaded = sql_count (\<lambda>r. row_state r = Uploaded) (sq_statuses s),
               device_statuses_total = sql_count (\<lambda>_. True) (sq_statuses s)\<rparr>)"

text \<open>\<open>std::time::Duration\<close> and its conversion to seconds; the comparison of reals.\<close>

record Duration =
  dur_secs :: u64
  dur_nanos :: u32

fun f64_add_finite :: "f64 \<Rightarrow> f64 \<Rightarrow> f64" where
  "f64_add_finite (F64_Fin a) (F64_Fin b) = f64_round (a + b)"
| "f64_add_finite a b = F64_NaN"

definition as_secs_f64 :: "Duration \<Rightarrow> f64" where
  "as_secs_f64 d =
     f64_add_finite (int_as_f64 (uint (dur_secs d)))
       (f64_div_const (int_as_f64 (uint (dur_nanos d))) 1000000000)"

fun f64_le :: "f64 \<Rightarrow> f64 \<Rightarrow> bool" where
  "f64_le (F64_Fin a) (F64_Fin b) = (a \<le> b)"
| "f64_le (F64_Inf n) (F64_Inf n') = (n \<or> \<not> n')"
| "f64_le (F64_Inf n) (F64_Fin _) = n"
| "f64_le (F64_Fin _) (F64_Inf n) = (\<not> n)"
| "f64_le _ _ = False"

definition expired_row :: "'j sql_env \<Rightarrow> timestamp \<Rightarrow> f64 \<Rightarrow> event_row \<Rightarrow> bool" where
  "expired_row env now cutoff_days row \<longleftrightarrow>
     row_state row = Uploaded \<and>
     (case row_uploaded_at row of
        None \<Rightarrow> False
      | Some uploaded_at \<Rightarrow> f64_le cutoff_days (age_days env now uploaded_at))"

definition delete_both ::
    "(event_row \<Rightarrow> bool) \<Rightarrow> SqliteStorage \<Rightarrow> (CleanupStats, 'j SqliteStorageError) result \<times> SqliteStorage" where
  "delete_both P =
     (\<lambda>s. transaction Sqlx (sq_io s) 3
       (\<lambda>s. case run_stmt (sq_io s) 1 (sql_delete P) (sq_readings s) of
              (Inl e, _) \<Rightarrow> (Err (Sqlx e), s)
            | (Inr sensor_deleted, rt) \<Rightarrow>
                (case run_stmt (sq_io s) 2 (sql_delete P) (sq_statuses s) of
                   (Inl e, _) \<Rightarrow> (Err (Sqlx e), s\<lparr>sq_readings := rt\<rparr>)
                 | (Inr device_deleted, st) \<Rightarrow>
                     (Ok \<lparr>sensor_readings_deleted = sensor_deleted, device_statuses_deleted = device_deleted\<rparr>,
                      s\<lparr>sq_readings := rt, sq_statuses := st\<rparr>))) s)"

definition sqlite_cleanup_uploaded ::
    "'j sql_env \<Rightarrow> Duration \<Rightarrow> SqliteStorage \<Rightarrow> (CleanupStats, 'j SqliteStorageError) result \<times> SqliteStorage" where
  "sqlite_cleanup_uploaded env older_than s =
     (if dur_secs older_than = 0 \<and> dur_nanos older_than = 0
      then delete_both (\<lambda>row. row_state row = Uploaded) s
      else let cutoff_days = f64_div_const (as_secs_f64 older_than) 86400
           in delete_both (expired_row env (sq_now s) cutoff_days) s)"

subsection \<open>A table of events as a store\<close>

text \<open>
  What is relied on of the encodings: a valid event that is encoded decodes to itself, and different
  identifiers have different texts.
\<close>

definition event_codec_ok ::
    "('e \<Rightarrow> (string, 'j) result) \<Rightarrow> (string \<Rightarrow> ('e, 'j) result) \<Rightarrow> ('i \<Rightarrow> string) \<Rightarrow> ('e \<Rightarrow> bool) \<Rightarrow> bool" where
  "event_codec_ok enc dec txt valid \<longleftrightarrow> (\<forall>e s. valid e \<longrightarrow> enc e = Ok s \<longrightarrow> dec s = Ok e) \<and> inj txt"

definition table_ok ::
    "('e \<Rightarrow> (string, 'j) result) \<Rightarrow> ('e \<Rightarrow> string) \<Rightarrow> ('e \<Rightarrow> bool) \<Rightarrow> event_table \<Rightarrow> bool" where
  "table_ok enc id_str valid t \<longleftrightarrow>
     hm_wf t \<and>
     (\<forall>k row. hm_get t k = Some row \<longrightarrow>
        row_id row = k \<and> (\<exists>e. valid e \<and> enc e = Ok (row_json row) \<and> id_str e = k))"

definition table_pend ::
    "(string \<Rightarrow> ('e, 'j) result) \<Rightarrow> ('i \<Rightarrow> string) \<Rightarrow> event_table \<Rightarrow> 'i \<Rightarrow> 'e option" where
  "table_pend dec txt t i =
     (case hm_get t (txt i) of
        None \<Rightarrow> None
      | Some row \<Rightarrow>
          if row_state row = Pending
          then (case dec (row_json row) of Inr e \<Rightarrow> Some e | Inl _ \<Rightarrow> None)
          else None)"

lemma insert_event_Err: "fst (insert_event io now enc id_str n e t) = Err x \<Longrightarrow> snd (insert_event io now enc id_str n e t) = t"
  by (auto simp: insert_event_def map_err_def run_stmt_def sql_insert_def split: sum.splits option.splits if_splits)

lemma insert_event_OkD:
  assumes "insert_event io now enc id_str n e t = (Ok u, t')"
  obtains json where "enc e = Ok json" "hm_get t (id_str e) = None" "\<not> io n"
    "t' = hm_insert (id_str e) \<lparr>row_id = id_str e, row_json = json, row_state = Pending, row_created_at = now,
       row_uploaded_at = None\<rparr> t"
  using assms
  by (auto simp: insert_event_def map_err_def run_stmt_def sql_insert_def split: sum.splits option.splits if_splits)

lemma table_ok_insert_event:
  assumes "table_ok enc id_str valid t" and "valid e"
  shows "table_ok enc id_str valid (snd (insert_event io now enc id_str n e t))"
proof (cases "insert_event io now enc id_str n e t")
  case (Pair r t')
  show ?thesis
  proof (cases r)
    case (Inl x)
    with Pair insert_event_Err [of io now enc id_str n e t x] assms(1) show ?thesis by simp
  next
    case (Inr u)
    with Pair have "insert_event io now enc id_str n e t = (Ok u, t')" by simp
    then show ?thesis
      using assms Pair by (cases rule: insert_event_OkD) (auto simp: table_ok_def hm_simps)
  qed
qed

lemma table_ok_insert_events:
  assumes "table_ok enc id_str valid t" and "list_all valid es"
  shows "table_ok enc id_str valid (snd (insert_events io now enc id_str es t))"
proof -
  let ?P = "table_ok enc id_str valid"
  have "?P (snd (tx_each (insert_event io now enc id_str) 1 es t))"
    by (rule tx_each_inv [where P = ?P]) (use assms in \<open>auto simp: list_all_iff intro: table_ok_insert_event\<close>)
  then show ?thesis
    using transaction_inv [of ?P, OF assms(1)] assms(1) by (auto simp: insert_events_def)
qed

lemma table_pend_insert_event:
  assumes "event_codec_ok enc dec txt valid" and "id_str e = txt (eid e)" and "valid e"
    and "fst (insert_event io now enc id_str n e t) = Ok ()"
  shows "table_pend dec txt (snd (insert_event io now enc id_str n e t)) = (table_pend dec txt t)(eid e \<mapsto> e)"
proof -
  obtain t' where t': "insert_event io now enc id_str n e t = (Ok (), t')"
    using assms(4) by (cases "insert_event io now enc id_str n e t") auto
  have "table_pend dec txt t' = (table_pend dec txt t)(eid e \<mapsto> e)"
    using t' assms(1-3)
    by (cases rule: insert_event_OkD)
      (auto simp: table_pend_def hm_simps event_codec_ok_def fun_eq_iff dest: injD)
  with t' show ?thesis by simp
qed

lemma update_uploaded_OkD: "update_uploaded io now n k t = (Ok u, t') \<Longrightarrow> t' = hm_modify k (mark_row now) t"
  by (auto simp: update_uploaded_def map_err_def run_stmt_def sql_update_key_def split: if_splits)

lemma mark_row_idem [simp]: "mark_row now (mark_row now row) = mark_row now row"
  by (simp add: mark_row_def)

lemma mark_row_simps [simp]:
  "row_id (mark_row now row) = row_id row" "row_json (mark_row now row) = row_json row"
  "row_state (mark_row now row) = Uploaded"
  by (simp_all add: mark_row_def)

lemma update_all_uploaded_cases:
  assumes "update_all_uploaded io now ids t = (r, t')"
  shows "case r of Inl _ \<Rightarrow> t' = t | Inr _ \<Rightarrow> t' = fold (\<lambda>k. hm_modify k (mark_row now)) ids t"
proof (cases "ids = []")
  case False
  then have tx: "transaction Sqlx io (Suc (length ids)) (tx_each (update_uploaded io now) 1 ids) t = (r, t')"
    using assms by (simp add: update_all_uploaded_def)
  show ?thesis
  proof (cases r)
    case (Inl e)
    with tx transaction_Err [of Sqlx io "Suc (length ids)" "tx_each (update_uploaded io now) 1 ids" t e]
    show ?thesis by simp
  next
    case (Inr u)
    from transaction_OkD [OF tx [unfolded this]] have "t' = fold (\<lambda>k. hm_modify k (mark_row now)) ids t"
      by (rule tx_each_OkD) (rule update_uploaded_OkD)
    with Inr show ?thesis by simp
  qed
qed (use assms in \<open>auto simp: update_all_uploaded_def\<close>)

lemma table_ok_update_all_uploaded:
  assumes "table_ok enc id_str valid t" and "update_all_uploaded io now ids t = (r, t')"
  shows "table_ok enc id_str valid t'"
proof -
  have "table_ok enc id_str valid (fold (\<lambda>k. hm_modify k (mark_row now)) ids t)"
    using assms(1) by (auto simp: table_ok_def hm_simps split: if_splits)
  with update_all_uploaded_cases [OF assms(2)] assms(1) show ?thesis
    by (auto split: sum.splits)
qed

lemma table_pend_update_all_uploaded:
  assumes "inj txt" and "update_all_uploaded io now (map txt ids) t = (Ok u, t')"
  shows "table_pend dec txt t' = (\<lambda>i. if i \<in> set ids then None else table_pend dec txt t i)"
proof -
  have "t' = fold (\<lambda>k. hm_modify k (mark_row now)) (map txt ids) t"
    using update_all_uploaded_cases [OF assms(2)] by simp
  then show ?thesis
    by (auto simp: table_pend_def hm_simps fun_eq_iff inj_image_mem_iff [OF assms(1)] split: option.split)
qed

text \<open>The pending rows of a well-formed table all decode.\<close>

lemma select_pending_eq:
  assumes "event_codec_ok enc dec txt valid" and "table_ok enc id_str valid t"
  shows "select_pending io ord dec t =
    (if io 0 then Err (Sqlx Sqlx_Io)
     else Ok (map (\<lambda>row. projr (dec (row_json row))) (filter (\<lambda>row. row_state row = Pending) (hm_values ord t))))"
proof -
  have wf: "hm_wf t" using assms(2) by (simp add: table_ok_def)
  have "map_sum SerdeJson id (dec (row_json row)) = Ok (projr (dec (row_json row)))" if "row \<in> set (hm_values ord t)" for row
  proof -
    from that obtain k where "hm_get t k = Some row" by (auto simp: hm_values_mem [OF wf])
    then obtain e where "valid e" "enc e = Ok (row_json row)" using assms(2) by (auto simp: table_ok_def)
    then show ?thesis using assms(1) by (simp add: event_codec_ok_def)
  qed
  then show ?thesis by (auto simp: select_pending_def intro!: try_map_Ok)
qed

subsection \<open>The store keeps its contract\<close>

text \<open>
  An infinite measurement has no JSON form that decodes, so the store is for finite ones; the edge
  devices send nothing else.
\<close>

fun reading_finite :: "SensorReading \<Rightarrow> bool" where
  "reading_finite r =
     (case rd_metric r of
        SoilTemp (F64_Fin _) \<Rightarrow> True | AirTemp (F64_Fin _) \<Rightarrow> True | Rainfall (F64_Fin _) \<Rightarrow> True
      | SoilMoisture _ \<Rightarrow> True | Humidity _ \<Rightarrow> True | _ \<Rightarrow> False)"

declare reading_finite.simps [simp del]

abbreviation reading_text :: "'j sql_env \<Rightarrow> ReadingId \<Rightarrow> string" where
  "reading_text env i \<equiv> ulid_text env (reading_ulid i)"

abbreviation status_text :: "'j sql_env \<Rightarrow> StatusId \<Rightarrow> string" where
  "status_text env i \<equiv> ulid_text env (status_ulid i)"

definition sql_env_ok :: "'j sql_env \<Rightarrow> bool" where
  "sql_env_ok env \<longleftrightarrow>
     event_codec_ok (to_json_reading env) (from_json_reading env) (reading_text env) reading_finite \<and>
     event_codec_ok (to_json_status env) (from_json_status env) (status_text env) (\<lambda>_. True)"

definition SqliteStorage_inv :: "'j sql_env \<Rightarrow> SqliteStorage \<Rightarrow> bool" where
  "SqliteStorage_inv env s \<longleftrightarrow>
     sql_env_ok env \<and>
     table_ok (to_json_reading env) (\<lambda>r. reading_text env (rd_id r)) reading_finite (sq_readings s) \<and>
     table_ok (to_json_status env) (\<lambda>r. status_text env (ds_id r)) (\<lambda>_. True) (sq_statuses s)"

definition sqlite_pending_readings :: "'j sql_env \<Rightarrow> SqliteStorage \<Rightarrow> ReadingId \<Rightarrow> SensorReading option" where
  "sqlite_pending_readings env s = table_pend (from_json_reading env) (reading_text env) (sq_readings s)"

definition sqlite_pending_statuses :: "'j sql_env \<Rightarrow> SqliteStorage \<Rightarrow> StatusId \<Rightarrow> DeviceStatus option" where
  "sqlite_pending_statuses env s = table_pend (from_json_status env) (status_text env) (sq_statuses s)"

text \<open>Fetching from a table, in terms of its pending events.\<close>

lemma select_pending_spec:
  assumes codec: "event_codec_ok enc dec txt valid" and tbl: "table_ok enc (\<lambda>e. txt (eid e)) valid t"
    and es: "select_pending io ord dec t = Ok es"
  shows "distinct (map eid es)" and "table_pend dec txt t i = Some e \<longleftrightarrow> e \<in> set es \<and> eid e = i"
proof -
  have wf: "hm_wf t" using tbl by (simp add: table_ok_def)
  let ?ev = "\<lambda>row. projr (dec (row_json row))"
  have es: "es = map ?ev (filter (\<lambda>row. row_state row = Pending) (hm_values ord t))"
    using es select_pending_eq [OF codec tbl, of io ord] by (simp split: if_splits)
  have row: "\<exists>e. dec (row_json r) = Ok e \<and> txt (eid e) = k" if "hm_get t k = Some r" for k r
    using that codec tbl unfolding table_ok_def event_codec_ok_def by blast
  have inj: "inj txt" using codec by (simp add: event_codec_ok_def)
  have mem: "e \<in> set es \<longleftrightarrow>
      (\<exists>k r. hm_get t k = Some r \<and> row_state r = Pending \<and> dec (row_json r) = Ok e \<and> k = txt (eid e))"
    unfolding es using row by (fastforce simp: hm_values_mem [OF wf] image_iff)
  show "table_pend dec txt t i = Some e \<longleftrightarrow> e \<in> set es \<and> eid e = i"
    unfolding mem using row [of "txt i"] inj
    by (auto simp: table_pend_def dest: injD split: option.splits sum.splits if_splits) 
  have "distinct (map (\<lambda>r. txt (eid (?ev r))) (hm_values ord t))"
    using row by (intro distinct_hm_values [OF wf]) fastforce
  then have "distinct (map (\<lambda>r. txt (eid (?ev r))) (filter (\<lambda>row. row_state row = Pending) (hm_values ord t)))"
    by (rule distinct_map_filter)
  then have "distinct (map txt (map eid es))"
    by (simp add: es comp_def)
  then show "distinct (map eid es)"
    by (metis distinct_map)
qed

text \<open>
  Both tables as stores of events.  The laws of the encodings, which the program relies on, are part
  of the invariant.
\<close>

lemma sqlite_invD:
  assumes "SqliteStorage_inv env s"
  shows "event_codec_ok (to_json_reading env) (from_json_reading env) (reading_text env) reading_finite"
    "event_codec_ok (to_json_status env) (from_json_status env) (status_text env) (\<lambda>_. True)"
    "table_ok (to_json_reading env) (\<lambda>r. reading_text env (rd_id r)) reading_finite (sq_readings s)"
    "table_ok (to_json_status env) (\<lambda>r. status_text env (ds_id r)) (\<lambda>_. True) (sq_statuses s)"
  using assms by (simp_all add: SqliteStorage_inv_def sql_env_ok_def)

lemma codec_inj: "event_codec_ok enc dec txt valid \<Longrightarrow> inj txt"
  by (simp add: event_codec_ok_def)

lemma update_all_uploaded_Ok:
  "fst (update_all_uploaded io now ids t :: (unit, 'j SqliteStorageError) result \<times> _) = Ok () \<Longrightarrow>
     update_all_uploaded io now ids t =
       (Ok () :: (unit, 'j SqliteStorageError) result, snd (update_all_uploaded io now ids t :: (unit, 'j SqliteStorageError) result \<times> _))"
  by (simp add: prod_eq_iff)

lemma update_all_uploaded_Err:
  "fst (update_all_uploaded io now ids t :: (unit, 'j SqliteStorageError) result \<times> _) = Err x \<Longrightarrow>
     snd (update_all_uploaded io now ids t :: (unit, 'j SqliteStorageError) result \<times> _) = t"
  using update_all_uploaded_cases [OF surjective_pairing, of io now ids t] by (auto split: sum.splits)

interpretation sqlite_readings:
  event_store "sqlite_store_reading env" "sqlite_fetch_readings env ord" "sqlite_mark_readings env"
    rd_id reading_finite "SqliteStorage_inv env" "sqlite_pending_readings env" for env ord
proof (unfold_locales, goal_cases)
  case (1 s e)
  then show ?case
    by (simp add: sqlite_store_reading_def case_prod_beta SqliteStorage_inv_def table_ok_insert_event)
next
  case (2 s ids)
  then show ?case
    using table_ok_update_all_uploaded [OF sqlite_invD(3) [OF 2] surjective_pairing]
    by (simp add: sqlite_mark_readings_def case_prod_beta SqliteStorage_inv_def)
next
  case (3 s es)
  from select_pending_spec(1) [OF sqlite_invD(1,3) [OF 3(1)] 3(2) [unfolded sqlite_fetch_readings_def]]
  show ?case .
next
  case (4 s es i e)
  from select_pending_spec(2) [OF sqlite_invD(1,3) [OF 4(1)] 4(2) [unfolded sqlite_fetch_readings_def]]
  show ?case by (simp add: sqlite_pending_readings_def)
next
  case (5 s e)
  then show ?case
    by (simp add: sqlite_store_reading_def sqlite_pending_readings_def case_prod_beta
        table_pend_insert_event [OF sqlite_invD(1) [OF 5(1)]])
next
  case (6 s e x)
  then show ?case
    by (simp add: sqlite_store_reading_def sqlite_pending_readings_def case_prod_beta insert_event_Err)
next
  case (7 s ids)
  then show ?case
    by (simp add: sqlite_mark_readings_def sqlite_pending_readings_def case_prod_beta cong: if_cong
        add: table_pend_update_all_uploaded [OF codec_inj [OF sqlite_invD(1) [OF 7(1)]] update_all_uploaded_Ok])
next
  case (8 s ids x)
  then show ?case
    by (simp add: sqlite_mark_readings_def sqlite_pending_readings_def case_prod_beta update_all_uploaded_Err)
qed

interpretation sqlite_statuses:
  event_store "sqlite_store_status env" "sqlite_fetch_statuses env ord" "sqlite_mark_statuses env"
    ds_id "\<lambda>_. True" "SqliteStorage_inv env" "sqlite_pending_statuses env" for env ord
proof (unfold_locales, goal_cases)
  case (1 s e)
  then show ?case
    by (simp add: sqlite_store_status_def case_prod_beta SqliteStorage_inv_def table_ok_insert_event)
next
  case (2 s ids)
  then show ?case
    using table_ok_update_all_uploaded [OF sqlite_invD(4) [OF 2] surjective_pairing]
    by (simp add: sqlite_mark_statuses_def case_prod_beta SqliteStorage_inv_def)
next
  case (3 s es)
  from select_pending_spec(1) [OF sqlite_invD(2,4) [OF 3(1)] 3(2) [unfolded sqlite_fetch_statuses_def]]
  show ?case .
next
  case (4 s es i e)
  from select_pending_spec(2) [OF sqlite_invD(2,4) [OF 4(1)] 4(2) [unfolded sqlite_fetch_statuses_def]]
  show ?case by (simp add: sqlite_pending_statuses_def)
next
  case (5 s e)
  then show ?case
    by (simp add: sqlite_store_status_def sqlite_pending_statuses_def case_prod_beta
        table_pend_insert_event [OF sqlite_invD(2) [OF 5(1)]])
next
  case (6 s e x)
  then show ?case
    by (simp add: sqlite_store_status_def sqlite_pending_statuses_def case_prod_beta insert_event_Err)
next
  case (7 s ids)
  then show ?case
    by (simp add: sqlite_mark_statuses_def sqlite_pending_statuses_def case_prod_beta cong: if_cong
        add: table_pend_update_all_uploaded [OF codec_inj [OF sqlite_invD(2) [OF 7(1)]] update_all_uploaded_Ok])
next
  case (8 s ids x)
  then show ?case
    by (simp add: sqlite_mark_statuses_def sqlite_pending_statuses_def case_prod_beta update_all_uploaded_Err)
qed

interpretation sqlite_store:
  dispatch_store "sqlite_ops env ro so" reading_finite "\<lambda>_. True" "SqliteStorage_inv env"
    "sqlite_pending_readings env" "sqlite_pending_statuses env" for env ro so
proof -
  have "event_store (op_store_reading (sqlite_ops env ro so)) (op_fetch_readings (sqlite_ops env ro so))
      (op_mark_readings (sqlite_ops env ro so)) rd_id reading_finite (SqliteStorage_inv env)
      (sqlite_pending_readings env)"
    by (simp add: sqlite_ops_def sqlite_readings.event_store_axioms)
  moreover have "event_store (op_store_status (sqlite_ops env ro so)) (op_fetch_statuses (sqlite_ops env ro so))
      (op_mark_statuses (sqlite_ops env ro so)) ds_id (\<lambda>_. True) (SqliteStorage_inv env)
      (sqlite_pending_statuses env)"
    by (simp add: sqlite_ops_def sqlite_statuses.event_store_axioms)
  ultimately show "dispatch_store (sqlite_ops env ro so) reading_finite (\<lambda>_. True) (SqliteStorage_inv env)
      (sqlite_pending_readings env) (sqlite_pending_statuses env)"
    by (simp add: dispatch_store_def dispatch_store_axioms_def sqlite_ops_def sqlite_mark_readings_def
        sqlite_mark_statuses_def sqlite_pending_readings_def sqlite_pending_statuses_def case_prod_beta)
qed

subsection \<open>Runs of the store\<close>

text \<open>One operation of the store, and whether it succeeded.\<close>

definition outcome :: "('a, 'e) result \<times> SqliteStorage \<Rightarrow> bool \<times> SqliteStorage" where
  "outcome r = (\<not> isl (fst r), snd r)"

fun sqlite_step :: "'j sql_env \<Rightarrow> mem_op \<Rightarrow> SqliteStorage \<Rightarrow> bool \<times> SqliteStorage" where
  "sqlite_step env (M_store_reading r) s = outcome (sqlite_store_reading env r s)"
| "sqlite_step env (M_store_readings rs) s = outcome (sqlite_store_readings env rs s)"
| "sqlite_step env (M_mark_readings ids) s = outcome (sqlite_mark_readings env ids s)"
| "sqlite_step env (M_store_status st) s = outcome (sqlite_store_status env st s)"
| "sqlite_step env (M_store_statuses sts) s = outcome (sqlite_store_statuses env sts s)"
| "sqlite_step env (M_mark_statuses ids) s = outcome (sqlite_mark_statuses env ids s)"
| "sqlite_step env (M_cleanup n) s =
     outcome (sqlite_cleanup_uploaded env \<lparr>dur_secs = of_nat n, dur_nanos = 0\<rparr> s)"

text \<open>
  A run: before every operation the clock has moved and other statements fail.  The result is the
  list of the operations that succeeded, and the store.
\<close>

fun sqlite_run ::
    "'j sql_env \<Rightarrow> (mem_op \<times> timestamp \<times> (nat \<Rightarrow> bool)) list \<Rightarrow> SqliteStorage \<Rightarrow> mem_op list \<times> SqliteStorage" where
  "sqlite_run env [] s = ([], s)"
| "sqlite_run env ((oper, now, io) # rest) s =
     (let (ok, s1) = sqlite_step env oper (s\<lparr>sq_now := now, sq_io := io\<rparr>);
          (succeeded, s2) = sqlite_run env rest s1
      in (if ok then oper # succeeded else succeeded, s2))"

fun op_finite :: "mem_op \<Rightarrow> bool" where
  "op_finite (M_store_reading r) = reading_finite r"
| "op_finite (M_store_readings rs) = list_all reading_finite rs"
| "op_finite _ = True"

text \<open>The abstract effect of an operation on the pending events.\<close>

fun pend_r_step :: "mem_op \<Rightarrow> (ReadingId \<Rightarrow> SensorReading option) \<Rightarrow> ReadingId \<Rightarrow> SensorReading option" where
  "pend_r_step (M_store_reading r) p = p(rd_id r \<mapsto> r)"
| "pend_r_step (M_store_readings rs) p = fold (\<lambda>r p. p(rd_id r \<mapsto> r)) rs p"
| "pend_r_step (M_mark_readings ids) p = (\<lambda>i. if i \<in> set ids then None else p i)"
| "pend_r_step _ p = p"

fun pend_s_step :: "mem_op \<Rightarrow> (StatusId \<Rightarrow> DeviceStatus option) \<Rightarrow> StatusId \<Rightarrow> DeviceStatus option" where
  "pend_s_step (M_store_status st) p = p(ds_id st \<mapsto> st)"
| "pend_s_step (M_store_statuses sts) p = fold (\<lambda>st p. p(ds_id st \<mapsto> st)) sts p"
| "pend_s_step (M_mark_statuses ids) p = (\<lambda>i. if i \<in> set ids then None else p i)"
| "pend_s_step _ p = p"

lemma mem_step_pend:
  assumes "MemoryStorage_inv m"
  shows "pending_readings (mem_step ro so oper m) = pend_r_step oper (pending_readings m)"
    and "pending_statuses (mem_step ro so oper m) = pend_s_step oper (pending_statuses m)"
proof -
  have batch_r: "reading_rows.rows_pend (fold insert_reading rs t) =
      fold (\<lambda>r p. p(rd_id r \<mapsto> r)) rs (reading_rows.rows_pend t)" for rs t
    by (induction rs arbitrary: t) (simp_all add: insert_reading_def reading_rows.rows_pend_insert)
  have batch_s: "status_rows.rows_pend (fold insert_status sts t) =
      fold (\<lambda>st p. p(ds_id st \<mapsto> st)) sts (status_rows.rows_pend t)" for sts t
    by (induction sts arbitrary: t) (simp_all add: insert_status_def status_rows.rows_pend_insert)
  have wf: "hm_wf (sensor_readings m)" "hm_wf (device_statuses m)"
    using assms by (simp_all add: MemoryStorage_inv_def)
  note simps = mem_reading_defs mem_status_defs pending_readings_rows pending_statuses_rows insert_reading_def
    insert_status_def reading_rows.rows_pend_insert status_rows.rows_pend_insert batch_r batch_s
    reading_rows.rows_pend_fold_modify status_rows.rows_pend_fold_modify
  show "pending_readings (mem_step ro so oper m) = pend_r_step oper (pending_readings m)"
    by (cases oper) (auto simp: simps mem_cleanup_uploaded_def Let_def reading_rows.rows_pend_def fun_eq_iff
        reading_rows.hm_get_cleanup [OF wf(1)] split: option.split)
  show "pending_statuses (mem_step ro so oper m) = pend_s_step oper (pending_statuses m)"
    by (cases oper) (auto simp: simps mem_cleanup_uploaded_def Let_def status_rows.rows_pend_def fun_eq_iff
        status_rows.hm_get_cleanup [OF wf(2)] split: option.split)
qed

text \<open>A batch that was inserted, a cleanup that was committed, and operations that failed.\<close>

lemma tx_each_insert_pend:
  assumes "event_codec_ok enc dec txt valid"
  shows "tx_each (insert_event io now enc (\<lambda>e. txt (eid e))) n es t = (Ok u, t') \<Longrightarrow> list_all valid es \<Longrightarrow>
    table_pend dec txt t' = fold (\<lambda>e p. p(eid e \<mapsto> e)) es (table_pend dec txt t)"
proof (induction es arbitrary: n t)
  case (Cons e es)
  let ?ins = "insert_event io now enc (\<lambda>e. txt (eid e)) n e t"
  obtain t1 where t1: "?ins = (Ok (), t1)"
      "tx_each (insert_event io now enc (\<lambda>e. txt (eid e))) (Suc n) es t1 = (Ok u, t')"
    using Cons.prems(1) by (auto split: prod.splits sum.splits)
  with Cons.prems(2) have "table_pend dec txt t1 = (table_pend dec txt t)(eid e \<mapsto> e)"
    using table_pend_insert_event [OF assms, of "\<lambda>e. txt (eid e)" e eid io now n t] by simp
  with Cons.IH [OF t1(2)] Cons.prems(2) show ?case by simp
qed simp

lemma insert_events_pend:
  assumes "event_codec_ok enc dec txt valid" and "list_all valid es"
    and "insert_events io now enc (\<lambda>e. txt (eid e)) es t = (Ok u, t')"
  shows "table_pend dec txt t' = fold (\<lambda>e p. p(eid e \<mapsto> e)) es (table_pend dec txt t)"
proof (cases "es = []")
  case False
  then have "tx_each (insert_event io now enc (\<lambda>e. txt (eid e))) 1 es t = (Ok u, t')"
    using assms(3) by (intro transaction_OkD) (auto simp: insert_events_def)
  then show ?thesis
    using tx_each_insert_pend [OF assms(1)] assms(2) by blast
qed (use assms(3) in \<open>simp add: insert_events_def\<close>)

lemma insert_events_Err:
  "fst (insert_events io now enc id_str es t) = Err x \<Longrightarrow> snd (insert_events io now enc id_str es t) = t"
  by (auto simp: insert_events_def intro: transaction_Err split: if_splits)

lemma delete_both_cases:
  assumes "delete_both P s = (r, s')"
  shows "case r of
      Inl _ \<Rightarrow> s' = s
    | Inr st \<Rightarrow> s' = s\<lparr>sq_readings := filter (\<lambda>kr. \<not> P (snd kr)) (sq_readings s),
                       sq_statuses := filter (\<lambda>kr. \<not> P (snd kr)) (sq_statuses s)\<rparr> \<and>
        st = \<lparr>sensor_readings_deleted = sql_count P (sq_readings s),
              device_statuses_deleted = sql_count P (sq_statuses s)\<rparr>"
  using assms
  by (auto simp: delete_both_def transaction_def run_stmt_def sql_delete_def sql_count_def
      split: sum.splits if_splits)

definition cleanup_deletes :: "'j sql_env \<Rightarrow> Duration \<Rightarrow> timestamp \<Rightarrow> event_row \<Rightarrow> bool" where
  "cleanup_deletes env older_than now row \<longleftrightarrow>
     (if dur_secs older_than = 0 \<and> dur_nanos older_than = 0 then row_state row = Uploaded
      else expired_row env now (f64_div_const (as_secs_f64 older_than) 86400) row)"

lemma sqlite_cleanup_eq: "sqlite_cleanup_uploaded env d s = delete_both (cleanup_deletes env d (sq_now s)) s"
  by (auto simp: sqlite_cleanup_uploaded_def cleanup_deletes_def [abs_def] Let_def)

lemma cleanup_deletes_uploaded: "cleanup_deletes env d now row \<Longrightarrow> row_state row = Uploaded"
  by (auto simp: cleanup_deletes_def expired_row_def split: if_splits)

lemma table_filter:
  assumes "table_ok enc id_str valid t" and "\<And>row. P row \<Longrightarrow> row_state row = Uploaded"
  shows "table_ok enc id_str valid (filter (\<lambda>kr. \<not> P (snd kr)) t)"
    and "table_pend dec txt (filter (\<lambda>kr. \<not> P (snd kr)) t) = table_pend dec txt t"
proof -
  have wf: "hm_wf t" using assms(1) by (simp add: table_ok_def)
  note get = hm_get_filter [OF wf, of "\<lambda>r. \<not> P r"]
  show "table_ok enc id_str valid (filter (\<lambda>kr. \<not> P (snd kr)) t)"
    using assms(1) by (auto simp: table_ok_def get hm_wf_filter split: option.splits if_splits)
  show "table_pend dec txt (filter (\<lambda>kr. \<not> P (snd kr)) t) = table_pend dec txt t"
    using assms(2) by (auto simp: table_pend_def get fun_eq_iff split: option.splits)
qed

lemma table_cleanup:
  assumes "table_ok enc id_str valid t"
  shows "table_ok enc id_str valid (filter (\<lambda>kr. \<not> cleanup_deletes env d now (snd kr)) t)"
    and "table_pend dec txt (filter (\<lambda>kr. \<not> cleanup_deletes env d now (snd kr)) t) = table_pend dec txt t"
  by (rule table_filter [OF assms], erule cleanup_deletes_uploaded)+

lemma sqlite_step_failed:
  assumes "sqlite_step env oper s = (False, s')"
  shows "s' = s"
proof (cases oper)
  case (M_cleanup n)
  let ?c = "sqlite_cleanup_uploaded env \<lparr>dur_secs = of_nat n, dur_nanos = 0\<rparr> s"
  obtain r s1 where c: "?c = (r, s1)" by fastforce
  with M_cleanup assms delete_both_cases [OF c [unfolded sqlite_cleanup_eq]] show ?thesis
    by (auto simp: outcome_def split: sum.splits)
qed (use assms in \<open>auto simp: outcome_def isl_def sqlite_store_reading_def sqlite_store_readings_def
    sqlite_store_status_def sqlite_store_statuses_def sqlite_mark_readings_def sqlite_mark_statuses_def
    case_prod_beta insert_event_Err insert_events_Err update_all_uploaded_Err\<close>)

lemma outcome_True_iff: "outcome r = (True, s') \<longleftrightarrow> (\<exists>x. r = (Ok x, s'))"
  by (cases r; cases "fst r") (auto simp: outcome_def)

lemma readings_changed:
  assumes "SqliteStorage_inv env s"
    and "table_ok (to_json_reading env) (\<lambda>r. reading_text env (rd_id r)) reading_finite t"
    and "table_pend (from_json_reading env) (reading_text env) t = p"
  shows "SqliteStorage_inv env (s\<lparr>sq_readings := t\<rparr>)" "sqlite_pending_readings env (s\<lparr>sq_readings := t\<rparr>) = p"
    "sqlite_pending_statuses env (s\<lparr>sq_readings := t\<rparr>) = sqlite_pending_statuses env s"
  using assms by (simp_all add: SqliteStorage_inv_def sqlite_pending_readings_def sqlite_pending_statuses_def)

lemma statuses_changed:
  assumes "SqliteStorage_inv env s"
    and "table_ok (to_json_status env) (\<lambda>r. status_text env (ds_id r)) (\<lambda>_. True) t"
    and "table_pend (from_json_status env) (status_text env) t = p"
  shows "SqliteStorage_inv env (s\<lparr>sq_statuses := t\<rparr>)" "sqlite_pending_statuses env (s\<lparr>sq_statuses := t\<rparr>) = p"
    "sqlite_pending_readings env (s\<lparr>sq_statuses := t\<rparr>) = sqlite_pending_readings env s"
  using assms by (simp_all add: SqliteStorage_inv_def sqlite_pending_readings_def sqlite_pending_statuses_def)

lemma sqlite_step_succeeded:
  assumes "SqliteStorage_inv env s" and "op_finite oper" and "sqlite_step env oper s = (True, s')"
  shows "SqliteStorage_inv env s' \<and>
    sqlite_pending_readings env s' = pend_r_step oper (sqlite_pending_readings env s) \<and>
    sqlite_pending_statuses env s' = pend_s_step oper (sqlite_pending_statuses env s)"
proof -
  note inv = sqlite_invD [OF assms(1)]
  show ?thesis
  proof (cases oper)
    case (M_store_reading r)
    with assms(3) obtain t where t: "insert_event (sq_io s) (sq_now s) (to_json_reading env)
        (\<lambda>r. reading_text env (rd_id r)) 0 r (sq_readings s) = (Ok (), t)" "s' = s\<lparr>sq_readings := t\<rparr>"
      by (auto simp: outcome_True_iff sqlite_store_reading_def split: prod.splits)
    with M_store_reading assms(2) readings_changed [OF assms(1), of t]
      table_ok_insert_event [OF inv(3), of r "sq_io s" "sq_now s" 0]
      table_pend_insert_event [OF inv(1), of "\<lambda>r. reading_text env (rd_id r)" r rd_id "sq_io s" "sq_now s" 0
        "sq_readings s"]
    show ?thesis by (simp add: sqlite_pending_readings_def)
  next
    case (M_store_readings rs)
    with assms(3) obtain t where t: "insert_events (sq_io s) (sq_now s) (to_json_reading env)
        (\<lambda>r. reading_text env (rd_id r)) rs (sq_readings s) = (Ok (), t)" "s' = s\<lparr>sq_readings := t\<rparr>"
      by (auto simp: outcome_True_iff sqlite_store_readings_def split: prod.splits)
    moreover have "list_all reading_finite rs" using assms(2) M_store_readings by simp
    ultimately show ?thesis
      using M_store_readings readings_changed [OF assms(1), of t]
        table_ok_insert_events [OF inv(3), of rs "sq_io s" "sq_now s"] insert_events_pend [OF inv(1) _ t(1)]
      by (simp add: sqlite_pending_readings_def)
  next
    case (M_mark_readings ids)
    with assms(3) obtain t where t: "update_all_uploaded (sq_io s) (sq_now s) (map (reading_text env) ids)
        (sq_readings s) = (Ok () :: (unit, 'a SqliteStorageError) result, t)" "s' = s\<lparr>sq_readings := t\<rparr>"
      by (auto simp: outcome_True_iff sqlite_mark_readings_def split: prod.splits)
    with M_mark_readings readings_changed [OF assms(1), of t] table_ok_update_all_uploaded [OF inv(3) t(1)]
      table_pend_update_all_uploaded [OF codec_inj [OF inv(1)] t(1)]
    show ?thesis by (simp add: sqlite_pending_readings_def)
  next
    case (M_store_status r)
    with assms(3) obtain t where t: "insert_event (sq_io s) (sq_now s) (to_json_status env)
        (\<lambda>r. status_text env (ds_id r)) 0 r (sq_statuses s) = (Ok (), t)" "s' = s\<lparr>sq_statuses := t\<rparr>"
      by (auto simp: outcome_True_iff sqlite_store_status_def split: prod.splits)
    with M_store_status statuses_changed [OF assms(1), of t]
      table_ok_insert_event [OF inv(4), where e = r and io = "sq_io s" and now = "sq_now s" and n = 0]
      table_pend_insert_event [OF inv(2), where id_str = "\<lambda>r. status_text env (ds_id r)" and e = r and eid = ds_id
        and io = "sq_io s" and now = "sq_now s" and n = 0 and t =
        "sq_statuses s"]
    show ?thesis by (simp add: sqlite_pending_statuses_def)
  next
    case (M_store_statuses rs)
    with assms(3) obtain t where t: "insert_events (sq_io s) (sq_now s) (to_json_status env)
        (\<lambda>r. status_text env (ds_id r)) rs (sq_statuses s) = (Ok (), t)" "s' = s\<lparr>sq_statuses := t\<rparr>"
      by (auto simp: outcome_True_iff sqlite_store_statuses_def split: prod.splits)
    then show ?thesis
      using M_store_statuses statuses_changed [OF assms(1), of t]
        table_ok_insert_events [OF inv(4), of rs "sq_io s" "sq_now s"] insert_events_pend [OF inv(2) _ t(1)]
      by (simp add: sqlite_pending_statuses_def list_all_iff)
  next
    case (M_mark_statuses ids)
    with assms(3) obtain t where t: "update_all_uploaded (sq_io s) (sq_now s) (map (status_text env) ids)
        (sq_statuses s) = (Ok () :: (unit, 'a SqliteStorageError) result, t)" "s' = s\<lparr>sq_statuses := t\<rparr>"
      by (auto simp: outcome_True_iff sqlite_mark_statuses_def split: prod.splits)
    with M_mark_statuses statuses_changed [OF assms(1), of t] table_ok_update_all_uploaded [OF inv(4) t(1)]
      table_pend_update_all_uploaded [OF codec_inj [OF inv(2)] t(1)]
    show ?thesis by (simp add: sqlite_pending_statuses_def)
  next
    case (M_cleanup n)
    let ?d = "cleanup_deletes env \<lparr>dur_secs = of_nat n, dur_nanos = 0\<rparr> (sq_now s)"
    from M_cleanup assms(3) obtain st where
        "delete_both ?d s = (Ok st :: (CleanupStats, 'a SqliteStorageError) result, s')"
      by (auto simp: outcome_True_iff sqlite_cleanup_eq)
    from delete_both_cases [OF this] assms(1) M_cleanup show ?thesis
      by (simp add: SqliteStorage_inv_def sqlite_pending_readings_def sqlite_pending_statuses_def
          table_cleanup [OF inv(3)] table_cleanup [OF inv(4)])
  qed
qed

lemma sqlite_run_refines:
  assumes "SqliteStorage_inv env s" and "list_all (op_finite \<circ> fst) ops" and "sqlite_run env ops s = (done_ops, s')"
    and "MemoryStorage_inv m" and "sqlite_pending_readings env s = pending_readings m"
    and "sqlite_pending_statuses env s = pending_statuses m"
  shows "SqliteStorage_inv env s' \<and>
    sqlite_pending_readings env s' = pending_readings (fold (mem_step ro so) done_ops m) \<and>
    sqlite_pending_statuses env s' = pending_statuses (fold (mem_step ro so) done_ops m)"
  using assms
proof (induction ops arbitrary: s m done_ops)
  case (Cons x ops)
  obtain oper now io where x: "x = (oper, now, io)" by (cases x) auto
  let ?s0 = "s\<lparr>sq_now := now, sq_io := io\<rparr>"
  have s0: "SqliteStorage_inv env ?s0" "sqlite_pending_readings env ?s0 = pending_readings m"
      "sqlite_pending_statuses env ?s0 = pending_statuses m"
    using Cons.prems(1,5,6)
    by (simp_all add: SqliteStorage_inv_def sqlite_pending_readings_def sqlite_pending_statuses_def)
  obtain ok s1 where step: "sqlite_step env oper ?s0 = (ok, s1)" by fastforce
  obtain rest where rest: "sqlite_run env ops s1 = (rest, s')" "done_ops = (if ok then oper # rest else rest)"
    using Cons.prems(3) by (auto simp: x step split: prod.splits)
  have fin: "op_finite oper" "list_all (op_finite \<circ> fst) ops" using Cons.prems(2) by (simp_all add: x comp_def)
  show ?case
  proof (cases ok)
    case True
    with step have "sqlite_step env oper ?s0 = (True, s1)" by simp
    from sqlite_step_succeeded [OF s0(1) fin(1) this] s0(2,3)
    have "SqliteStorage_inv env s1" "sqlite_pending_readings env s1 = pending_readings (mem_step ro so oper m)"
        "sqlite_pending_statuses env s1 = pending_statuses (mem_step ro so oper m)"
      by (simp_all add: mem_step_pend [OF Cons.prems(4)])
    from Cons.IH [OF this(1) fin(2) rest(1) mem_step_inv [OF Cons.prems(4)] this(2,3)] show ?thesis
      by (simp add: rest(2) True)
  next
    case False
    with step have "s1 = ?s0" by (intro sqlite_step_failed [of env oper]) simp
    with Cons.IH [OF s0(1) fin(2) _ Cons.prems(4) s0(2,3)] rest False show ?thesis by simp
  qed
qed simp

subsection \<open>Concrete stores\<close>

text \<open>
  An environment in which two readings and no status have a JSON form, and the text of an identifier
  is unary.
\<close>

definition sample_sql_env :: "unit sql_env" where
  "sample_sql_env =
     \<lparr>ulid_text = (\<lambda>u. replicate (unat u) (CHR ''x'')),
      to_json_reading = (\<lambda>r. if r = sample_reading 1 5 then Ok ''a'' else if r = sample_reading 2 4 then Ok ''b''
        else Err ()),
      from_json_reading = (\<lambda>s. if s = ''a'' then Ok (sample_reading 1 5) else if s = ''b'' then Ok (sample_reading 2 4)
        else Err ()),
      to_json_status = (\<lambda>_. Err ()), from_json_status = (\<lambda>_. Err ()),
      age_days = (\<lambda>now t. int_as_f64 (now - t))\<rparr>"

definition sample_sqlite :: SqliteStorage where
  "sample_sqlite = \<lparr>sq_readings = [], sq_statuses = [], sq_now = 0, sq_io = (\<lambda>_. False)\<rparr>"

lemma sample_sqlite_inv: "SqliteStorage_inv sample_sql_env sample_sqlite"
proof -
  have "inj (\<lambda>u :: ulid. replicate (unat u) (CHR ''x''))"
    by (rule injI) (metis length_replicate word_unat_eq_iff)
  then have "inj (\<lambda>i. replicate (unat (reading_ulid i)) (CHR ''x''))" "inj (\<lambda>i. replicate (unat (status_ulid i)) (CHR ''x''))"
    by (simp_all add: inj_def) (metis ReadingId.expand StatusId.expand)+
  then show ?thesis
    by (simp add: SqliteStorage_inv_def sql_env_ok_def event_codec_ok_def table_ok_def sample_sql_env_def
        sample_sqlite_def)
qed

subsection \<open>Properties\<close>



text \<open>
  C22.  A failing operation changes nothing.  Whatever statement of whatever operation fails, also in
  the middle of a batch or because an identifier is already stored, the tables are as they were
  before the operation.
\<close>

theorem sqlite_failure_atomic:
  assumes "sqlite_step env oper s = (False, s')"
  shows "s' = s"
  using assms by (rule sqlite_step_failed)

theorem sqlite_failure_atomic_witness:
  "snd (sqlite_step sample_sql_env (M_store_readings [sample_reading 1 5, sample_reading 1 5]) sample_sqlite) =
     sample_sqlite"
proof -
  have "fst (sqlite_step sample_sql_env (M_store_readings [sample_reading 1 5, sample_reading 1 5]) sample_sqlite) = False"
    by (simp add: outcome_def sqlite_store_readings_def insert_events_def insert_event_def map_err_def run_stmt_def
        sql_insert_def sample_sql_env_def sample_sqlite_def transaction_def hm_insert_def hm_get_def Let_def)
  from sqlite_failure_atomic [of sample_sql_env _ _ "snd (sqlite_step sample_sql_env
      (M_store_readings [sample_reading 1 5, sample_reading 1 5]) sample_sqlite)"] this
  show ?thesis by (metis prod.collapse)
qed

text \<open>
  Cleaning up.  It either fails and changes nothing, or deletes from both tables exactly the
  uploaded rows whose age is at least the given duration (all uploaded rows if it is zero), reports
  how many these were, and leaves every pending row in place.
\<close>

lemma sqlite_cleanup_correct:
  assumes "SqliteStorage_inv env s"
  shows "case sqlite_cleanup_uploaded env d s of
      (Inl _, s') \<Rightarrow> s' = s
    | (Inr stats, s') \<Rightarrow>
        sensor_readings_deleted stats = sql_count (cleanup_deletes env d (sq_now s)) (sq_readings s) \<and>
        device_statuses_deleted stats = sql_count (cleanup_deletes env d (sq_now s)) (sq_statuses s) \<and>
        (\<forall>k. hm_get (sq_readings s') k =
          (case hm_get (sq_readings s) k of
             None \<Rightarrow> None
           | Some row \<Rightarrow> if cleanup_deletes env d (sq_now s) row then None else Some row)) \<and>
        (\<forall>k. hm_get (sq_statuses s') k =
          (case hm_get (sq_statuses s) k of
             None \<Rightarrow> None
           | Some row \<Rightarrow> if cleanup_deletes env d (sq_now s) row then None else Some row)) \<and>
        sqlite_pending_readings env s' = sqlite_pending_readings env s \<and>
        sqlite_pending_statuses env s' = sqlite_pending_statuses env s"
proof -
  obtain r s' where c: "sqlite_cleanup_uploaded env d s = (r, s')" by fastforce
  note inv = sqlite_invD [OF assms]
  have wf: "hm_wf (sq_readings s)" "hm_wf (sq_statuses s)"
    using inv(3,4) by (simp_all add: table_ok_def)
  note get = wf [THEN hm_get_filter, of "\<lambda>row. \<not> cleanup_deletes env d (sq_now s) row"]
  from delete_both_cases [OF c [unfolded sqlite_cleanup_eq]] c show ?thesis
    by (auto simp: get table_cleanup(2) [OF inv(3)] table_cleanup(2) [OF inv(4)] sqlite_pending_readings_def sqlite_pending_statuses_def split: sum.splits option.split)
qed

end
