(* ===== verification/Prime_Api.thy ===== *)
theory Prime_Api
  imports Prime_Handlers
begin

text \<open>
  The HTTP interface of prime: \<open>ersha-prime/src/api/dispatchers.rs\<close>, \<open>api/devices.rs\<close> and the
  routes of \<open>api/mod.rs\<close>.  The text forms of identifiers and instants belong to the crates \<open>ulid\<close>
  and \<open>jiff\<close>: they are arguments (the record \<open>api_env\<close>), as is the generator behind \<open>Ulid::new\<close>,
  whose state every handler that may draw an identifier passes on.  \<open>jiff::Timestamp::now()\<close> is the
  argument \<open>now\<close>.  Requests are the values that the extractors of \<open>axum\<close> hand to the handlers.
\<close>

record 'g api_env =
  ulid_show :: "ulid \<Rightarrow> string"
  ulid_parse :: "string \<Rightarrow> ulid option"
  ts_show :: "timestamp \<Rightarrow> string"
  ts_parse :: "string \<Rightarrow> timestamp option"
  next_ulid :: "'g \<Rightarrow> ulid \<times> 'g"

datatype StatusCode = OK | CREATED | BAD_REQUEST | NOT_FOUND | INTERNAL_SERVER_ERROR

fun as_u16 :: "StatusCode \<Rightarrow> u16" where
  "as_u16 OK = 200"
| "as_u16 CREATED = 201"
| "as_u16 BAD_REQUEST = 400"
| "as_u16 NOT_FOUND = 404"
| "as_u16 INTERNAL_SERVER_ERROR = 500"

datatype 'a http = Json StatusCode 'a | Text StatusCode string

record ('p, 'd) ApiState =
  api_dispatchers :: 'p
  api_devices :: 'd

definition unwrap_or_new :: "'g api_env \<Rightarrow> ulid option \<Rightarrow> 'g \<Rightarrow> ulid \<times> 'g" where
  "unwrap_or_new env i g = (case i of Some u \<Rightarrow> (u, g) | None \<Rightarrow> next_ulid env g)"

definition page_limit :: "nat option \<Rightarrow> nat" where
  "page_limit limit = min (case limit of Some n \<Rightarrow> n | None \<Rightarrow> 100) 100"

definition page_of :: "'g api_env \<Rightarrow> string option \<Rightarrow> nat option \<Rightarrow> nat option \<Rightarrow> Pagination option" where
  "page_of env after offset limit =
     (case after of
        Some s \<Rightarrow>
          (case ulid_parse env s of
             Some cursor \<Rightarrow> Some (Cursor (Some cursor) (page_limit limit))
           | None \<Rightarrow> None)
      | None \<Rightarrow> Some (Offset (case offset of Some n \<Rightarrow> n | None \<Rightarrow> 0) (page_limit limit)))"

subsection \<open>Dispatchers\<close>

record RegisterDispatcherRequest =
  rpr_id :: "ulid option"
  rpr_location :: u64

record DispatcherResponse =
  presp_id :: string
  presp_location :: u64
  presp_state :: string
  presp_provisioned_at :: string

definition DispatcherResponse_from :: "'g api_env \<Rightarrow> Dispatcher \<Rightarrow> DispatcherResponse" where
  "DispatcherResponse_from env d =
     \<lparr>presp_id = ulid_show env (dispatcher_ulid (disp_id d)),
      presp_location = h3_index (disp_location d),
      presp_state = (case disp_state d of Dispatcher_Active \<Rightarrow> ''active'' | Dispatcher_Suspended \<Rightarrow> ''suspended''),
      presp_provisioned_at = ts_show env (disp_provisioned_at d)\<rparr>"

record ListDispatchersResponse =
  lpr_dispatchers :: "DispatcherResponse list"
  lpr_total :: nat

datatype StateFilter = SF_Active | SF_Suspended

datatype QuerySortOrder = Q_Asc | Q_Desc

record ListDispatchersQuery =
  lpq_state :: "StateFilter option"
  lpq_location :: "u64 option"
  lpq_sort_order :: "QuerySortOrder option"
  lpq_offset :: "nat option"
  lpq_limit :: "nat option"
  lpq_after :: "string option"

definition sort_order_of :: "QuerySortOrder option \<Rightarrow> SortOrder" where
  "sort_order_of q = (case q of Some Q_Asc \<Rightarrow> Asc | Some Q_Desc \<Rightarrow> Desc | None \<Rightarrow> Desc)"

definition register_dispatcher ::
    "'g api_env \<Rightarrow> ('p, 'e) DispatcherRegistry \<Rightarrow> timestamp \<Rightarrow> RegisterDispatcherRequest \<Rightarrow>
     ('p, 'd) ApiState \<Rightarrow> 'g \<Rightarrow> DispatcherResponse http \<times> ('p, 'd) ApiState \<times> 'g" where
  "register_dispatcher env pr now request st g =
     (let (i, g') = unwrap_or_new env (rpr_id request) g;
          dispatcher = \<lparr>disp_id = DispatcherId i, disp_location = H3Cell (rpr_location request),
                        disp_state = Dispatcher_Active, disp_provisioned_at = now\<rparr>;
          (r, m) = disp_register pr dispatcher (api_dispatchers st);
          st' = st\<lparr>api_dispatchers := m\<rparr>
      in case r of
           Inr _ \<Rightarrow> (Json CREATED (DispatcherResponse_from env dispatcher), st', g')
         | Inl e \<Rightarrow> (Text INTERNAL_SERVER_ERROR ''Failed to register dispatcher'', st', g'))"

definition get_dispatcher ::
    "'g api_env \<Rightarrow> ('p, 'e) DispatcherRegistry \<Rightarrow> string \<Rightarrow> ('p, 'd) ApiState \<Rightarrow> DispatcherResponse http" where
  "get_dispatcher env pr i st =
     (case ulid_parse env i of
        None \<Rightarrow> Text BAD_REQUEST ''Invalid dispatcher ID''
      | Some u \<Rightarrow>
          (case disp_get pr (DispatcherId u) (api_dispatchers st) of
             Inr (Some dispatcher) \<Rightarrow> Json OK (DispatcherResponse_from env dispatcher)
           | Inr None \<Rightarrow> Text NOT_FOUND ''Dispatcher not found''
           | Inl e \<Rightarrow> Text INTERNAL_SERVER_ERROR ''Failed to get dispatcher''))"

definition dispatcher_filter_of :: "ListDispatchersQuery \<Rightarrow> DispatcherFilter" where
  "dispatcher_filter_of query =
     DispatcherFilter_default
       \<lparr>pf_states := (case lpq_state query of
            Some SF_Active \<Rightarrow> Some [Dispatcher_Active]
          | Some SF_Suspended \<Rightarrow> Some [Dispatcher_Suspended]
          | None \<Rightarrow> pf_states DispatcherFilter_default),
        pf_locations := (case lpq_location query of
            Some location \<Rightarrow> Some [H3Cell location]
          | None \<Rightarrow> pf_locations DispatcherFilter_default)\<rparr>"

definition list_dispatchers ::
    "'g api_env \<Rightarrow> ('p, 'e) DispatcherRegistry \<Rightarrow> ListDispatchersQuery \<Rightarrow> ('p, 'd) ApiState \<Rightarrow>
     ListDispatchersResponse http" where
  "list_dispatchers env pr query st =
     (case page_of env (lpq_after query) (lpq_offset query) (lpq_limit query) of
        None \<Rightarrow> Text BAD_REQUEST ''Invalid cursor''
      | Some pagination \<Rightarrow>
          (let options = \<lparr>qo_filter = dispatcher_filter_of query, qo_sort_by = DispBy_ProvisionAt,
                          qo_sort_order = sort_order_of (lpq_sort_order query), qo_pagination = pagination\<rparr>
           in case disp_list pr options (api_dispatchers st) of
                Inr ds \<Rightarrow>
                  Json OK \<lparr>lpr_dispatchers = map (DispatcherResponse_from env) ds, lpr_total = length ds\<rparr>
              | Inl e \<Rightarrow> Text INTERNAL_SERVER_ERROR ''Failed to list dispatchers''))"

text \<open>The registry's error is shown as text: \<open>err_show\<close> is \<open>e.to_string()\<close>.\<close>

definition suspend_dispatcher ::
    "'g api_env \<Rightarrow> ('p, 'e) DispatcherRegistry \<Rightarrow> ('e \<Rightarrow> string) \<Rightarrow> string \<Rightarrow> ('p, 'd) ApiState \<Rightarrow>
     DispatcherResponse http \<times> ('p, 'd) ApiState" where
  "suspend_dispatcher env pr err_show i st =
     (case ulid_parse env i of
        None \<Rightarrow> (Text BAD_REQUEST ''Invalid dispatcher ID'', st)
      | Some u \<Rightarrow>
          (let (r, m) = disp_suspend pr (DispatcherId u) (api_dispatchers st);
               st' = st\<lparr>api_dispatchers := m\<rparr>
           in case r of
                Inr _ \<Rightarrow>
                  ((case disp_get pr (DispatcherId u) m of
                      Inr (Some dispatcher) \<Rightarrow> Json OK (DispatcherResponse_from env dispatcher)
                    | Inr None \<Rightarrow> Text NOT_FOUND ''Dispatcher not found''
                    | Inl e \<Rightarrow> Text INTERNAL_SERVER_ERROR ''Dispatcher suspended but failed to fetch''), st')
              | Inl e \<Rightarrow>
                  (if str_contains ''not found'' (err_show e) \<or> str_contains ''NotFound'' (err_show e)
                   then (Text NOT_FOUND ''Dispatcher not found'', st')
                   else (Text INTERNAL_SERVER_ERROR ''Failed to suspend dispatcher'', st'))))"

text \<open>The display form of the error of the in-memory registries.\<close>

fun in_memory_error_show :: "InMemoryError \<Rightarrow> string" where
  "in_memory_error_show NotFound = ''not found''"

subsection \<open>Devices\<close>

record SensorRequest =
  sreq_id :: "ulid option"
  sreq_kind :: string

record RegisterDeviceRequest =
  rdr_id :: "ulid option"
  rdr_location :: u64
  rdr_kind :: "string option"
  rdr_manufacturer :: "string option"
  rdr_sensors :: "SensorRequest list"

record SensorResponse =
  sresp_id :: string
  sresp_kind :: string

fun sensor_kind_name :: "SensorKind \<Rightarrow> string" where
  "sensor_kind_name SK_SoilMoisture = ''soil_moisture''"
| "sensor_kind_name SK_SoilTemp = ''soil_temp''"
| "sensor_kind_name SK_AirTemp = ''air_temp''"
| "sensor_kind_name SK_Humidity = ''humidity''"
| "sensor_kind_name SK_Rainfall = ''rainfall''"

definition SensorResponse_from :: "'g api_env \<Rightarrow> Sensor \<Rightarrow> SensorResponse" where
  "SensorResponse_from env s =
     \<lparr>sresp_id = ulid_show env (sensor_ulid (sensor_id s)), sresp_kind = sensor_kind_name (sensor_kind s)\<rparr>"

record DeviceResponse =
  dresp_id :: string
  dresp_kind :: string
  dresp_state :: string
  dresp_location :: u64
  dresp_manufacturer :: "string option"
  dresp_provisioned_at :: string
  dresp_sensors :: "SensorResponse list"

definition DeviceResponse_from :: "'g api_env \<Rightarrow> Device \<Rightarrow> DeviceResponse" where
  "DeviceResponse_from env d =
     \<lparr>dresp_id = ulid_show env (device_ulid (dev_id d)),
      dresp_kind = (case dev_kind d of DK_Sensor \<Rightarrow> ''sensor''),
      dresp_state = (case dev_state d of Device_Active \<Rightarrow> ''active'' | Device_Suspended \<Rightarrow> ''suspended''),
      dresp_location = h3_index (dev_location d),
      dresp_manufacturer = dev_manufacturer d,
      dresp_provisioned_at = ts_show env (dev_provisioned_at d),
      dresp_sensors = map (SensorResponse_from env) (dev_sensors d)\<rparr>"

record ListDevicesResponse =
  ldr_devices :: "DeviceResponse list"
  ldr_total :: nat

datatype DeviceQuerySortBy = DQ_State | DQ_Manufacturer | DQ_ProvisionedAt | DQ_SensorCount

record ListDevicesQuery =
  ldq_state :: "StateFilter option"
  ldq_location :: "u64 option"
  ldq_manufacturer :: "string option"
  ldq_provisioned_after :: "string option"
  ldq_provisioned_before :: "string option"
  ldq_sort_by :: "DeviceQuerySortBy option"
  ldq_sort_order :: "QuerySortOrder option"
  ldq_offset :: "nat option"
  ldq_limit :: "nat option"
  ldq_after :: "string option"

definition parse_sensor_kind :: "string \<Rightarrow> SensorKind option" where
  "parse_sensor_kind s =
     (if s = ''soil_moisture'' then Some SK_SoilMoisture
      else if s = ''soil_temp'' then Some SK_SoilTemp
      else if s = ''air_temp'' then Some SK_AirTemp
      else if s = ''humidity'' then Some SK_Humidity
      else if s = ''rainfall'' then Some SK_Rainfall
      else None)"

fun default_metric_for_kind :: "SensorKind \<Rightarrow> SensorMetric" where
  "default_metric_for_kind SK_SoilMoisture = SoilMoisture (Percentage 0)"
| "default_metric_for_kind SK_SoilTemp = SoilTemp (F64_Fin 0)"
| "default_metric_for_kind SK_AirTemp = AirTemp (F64_Fin 0)"
| "default_metric_for_kind SK_Humidity = Humidity (Percentage 0)"
| "default_metric_for_kind SK_Rainfall = Rainfall (F64_Fin 0)"

text \<open>The loop over the requested sensors: it stops at the first unknown kind.\<close>

fun parse_sensors ::
    "'g api_env \<Rightarrow> SensorRequest list \<Rightarrow> Sensor list \<Rightarrow> 'g \<Rightarrow> (Sensor list, string) result \<times> 'g" where
  "parse_sensors env [] sensors g = (Ok sensors, g)"
| "parse_sensors env (sensor_req # rest) sensors g =
     (case parse_sensor_kind (sreq_kind sensor_req) of
        None \<Rightarrow> (Err (sreq_kind sensor_req), g)
      | Some kind \<Rightarrow>
          (let (i, g') = unwrap_or_new env (sreq_id sensor_req) g
           in parse_sensors env rest
                (sensors @ [\<lparr>sensor_id = SensorId i, sensor_metric = default_metric_for_kind kind,
                             sensor_kind = kind\<rparr>]) g'))"

definition register_device ::
    "'g api_env \<Rightarrow> ('d, 'e) DeviceRegistry \<Rightarrow> timestamp \<Rightarrow> RegisterDeviceRequest \<Rightarrow>
     ('p, 'd) ApiState \<Rightarrow> 'g \<Rightarrow> DeviceResponse http \<times> ('p, 'd) ApiState \<times> 'g" where
  "register_device env dr now request st g =
     (let (i, g') = unwrap_or_new env (rdr_id request) g
      in case parse_sensors env (rdr_sensors request) [] g' of
           (Inl kind, g'') \<Rightarrow> (Text BAD_REQUEST (''Invalid sensor kind: '' @ kind), st, g'')
         | (Inr sensors, g'') \<Rightarrow>
             (let device = \<lparr>dev_id = DeviceId i, dev_kind = DK_Sensor, dev_state = Device_Active,
                            dev_location = H3Cell (rdr_location request),
                            dev_manufacturer = rdr_manufacturer request, dev_provisioned_at = now,
                            dev_sensors = sensors\<rparr>;
                  (r, m) = dev_register dr device (api_devices st);
                  st' = st\<lparr>api_devices := m\<rparr>
              in case r of
                   Inr _ \<Rightarrow> (Json CREATED (DeviceResponse_from env device), st', g'')
                 | Inl e \<Rightarrow> (Text INTERNAL_SERVER_ERROR ''Failed to register device'', st', g'')))"

definition get_device ::
    "'g api_env \<Rightarrow> ('d, 'e) DeviceRegistry \<Rightarrow> string \<Rightarrow> ('p, 'd) ApiState \<Rightarrow> DeviceResponse http" where
  "get_device env dr i st =
     (case ulid_parse env i of
        None \<Rightarrow> Text BAD_REQUEST ''Invalid device ID''
      | Some u \<Rightarrow>
          (case dev_get dr (DeviceId u) (api_devices st) of
             Inr (Some device) \<Rightarrow> Json OK (DeviceResponse_from env device)
           | Inr None \<Rightarrow> Text NOT_FOUND ''Device not found''
           | Inl e \<Rightarrow> Text INTERNAL_SERVER_ERROR ''Failed to get device''))"

text \<open>The two optional timestamps of a query: \<open>None\<close> is the early return on a malformed one.\<close>

definition ts_param :: "'g api_env \<Rightarrow> string option \<Rightarrow> timestamp option option" where
  "ts_param env s =
     (case s of
        None \<Rightarrow> Some None
      | Some ts_str \<Rightarrow> (case ts_parse env ts_str of Some ts \<Rightarrow> Some (Some ts) | None \<Rightarrow> None))"

definition device_filter_of ::
    "ListDevicesQuery \<Rightarrow> timestamp option \<Rightarrow> timestamp option \<Rightarrow> DeviceFilter" where
  "device_filter_of query after before =
     DeviceFilter_default
       \<lparr>df_states := (case ldq_state query of
            Some SF_Active \<Rightarrow> Some [Device_Active]
          | Some SF_Suspended \<Rightarrow> Some [Device_Suspended]
          | None \<Rightarrow> df_states DeviceFilter_default),
        df_locations := (case ldq_location query of
            Some location \<Rightarrow> Some [H3Cell location]
          | None \<Rightarrow> df_locations DeviceFilter_default),
        df_manufacturer_pattern := (case ldq_manufacturer query of
            Some manufacturer \<Rightarrow> Some manufacturer
          | None \<Rightarrow> df_manufacturer_pattern DeviceFilter_default),
        df_provisioned_after := after, df_provisioned_before := before\<rparr>"

definition device_sort_of :: "DeviceQuerySortBy option \<Rightarrow> DeviceSortBy" where
  "device_sort_of q =
     (case q of
        Some DQ_State \<Rightarrow> DevBy_State
      | Some DQ_Manufacturer \<Rightarrow> DevBy_Manufacturer
      | Some DQ_SensorCount \<Rightarrow> DevBy_SensorCount
      | Some DQ_ProvisionedAt \<Rightarrow> DevBy_ProvisionAt
      | None \<Rightarrow> DevBy_ProvisionAt)"

definition list_devices ::
    "'g api_env \<Rightarrow> ('d, 'e) DeviceRegistry \<Rightarrow> ListDevicesQuery \<Rightarrow> ('p, 'd) ApiState \<Rightarrow>
     ListDevicesResponse http" where
  "list_devices env dr query st =
     (case ts_param env (ldq_provisioned_after query) of
        None \<Rightarrow> Text BAD_REQUEST ''Invalid provisioned_after timestamp''
      | Some after \<Rightarrow>
     (case ts_param env (ldq_provisioned_before query) of
        None \<Rightarrow> Text BAD_REQUEST ''Invalid provisioned_before timestamp''
      | Some before \<Rightarrow>
     (case page_of env (ldq_after query) (ldq_offset query) (ldq_limit query) of
        None \<Rightarrow> Text BAD_REQUEST ''Invalid cursor''
      | Some pagination \<Rightarrow>
          (let options = \<lparr>qo_filter = device_filter_of query after before,
                          qo_sort_by = device_sort_of (ldq_sort_by query),
                          qo_sort_order = sort_order_of (ldq_sort_order query), qo_pagination = pagination\<rparr>
           in case dev_list dr options (api_devices st) of
                Inr ds \<Rightarrow> Json OK \<lparr>ldr_devices = map (DeviceResponse_from env) ds, ldr_total = length ds\<rparr>
              | Inl e \<Rightarrow> Text INTERNAL_SERVER_ERROR ''Failed to list devices''))))"

end
