(* ===== verification/Prime_Client.thy ===== *)
theory Prime_Client
  imports Prime_Api
begin

text \<open>
  The routes of \<open>ersha-prime/src/api/mod.rs\<close> and the HTTP client of \<open>ersha-prime/src/client.rs\<close>.

  A request carries its path as text and its body or query string as the value that \<open>serde\<close> encodes
  on one side and decodes on the other.  What \<open>reqwest\<close> does with a request is the client's field
  \<open>cl_http\<close>; the decoding of percent escapes in a path parameter, which \<open>axum\<close> performs, is the
  argument \<open>decode\<close> of the router.
\<close>

datatype http_method = GET | POST

datatype payload =
    No_payload
  | Dispatcher_body RegisterDispatcherRequest
  | Device_body RegisterDeviceRequest
  | Dispatchers_query ListDispatchersQuery
  | Devices_query ListDevicesQuery

record http_request =
  hr_method :: http_method
  hr_url :: string
  hr_payload :: payload

datatype api_body =
    Dispatcher_json DispatcherResponse
  | Dispatchers_json ListDispatchersResponse
  | Device_json DeviceResponse
  | Devices_json ListDevicesResponse

definition ListDispatchersQuery_default :: ListDispatchersQuery where
  "ListDispatchersQuery_default =
     \<lparr>lpq_state = None, lpq_location = None, lpq_sort_order = None, lpq_offset = None, lpq_limit = None,
      lpq_after = None\<rparr>"

definition ListDevicesQuery_default :: ListDevicesQuery where
  "ListDevicesQuery_default =
     \<lparr>ldq_state = None, ldq_location = None, ldq_manufacturer = None, ldq_provisioned_after = None,
      ldq_provisioned_before = None, ldq_sort_by = None, ldq_sort_order = None, ldq_offset = None,
      ldq_limit = None, ldq_after = None\<rparr>"

subsection \<open>Routes\<close>

fun path_segments :: "string \<Rightarrow> string list" where
  "path_segments [] = [[]]"
| "path_segments (c # cs) =
     (if c = CHR ''/'' then [] # path_segments cs
      else case path_segments cs of [] \<Rightarrow> [[c]] | s # ss \<Rightarrow> (c # s) # ss)"

text \<open>A route pattern: literal segments and parameters, which match one segment that is not empty.\<close>

datatype route_segment = Lit string | Param

fun route_match :: "route_segment list \<Rightarrow> string list \<Rightarrow> string list option" where
  "route_match [] [] = Some []"
| "route_match (Lit l # ps) (s # ss) = (if s = l then route_match ps ss else None)"
| "route_match (Param # ps) (s # ss) =
     (if s = [] then None else map_option (\<lambda>vs. s # vs) (route_match ps ss))"
| "route_match _ _ = None"

datatype api_endpoint =
    Ep_register_dispatcher | Ep_list_dispatchers | Ep_get_dispatcher | Ep_suspend_dispatcher
  | Ep_register_device | Ep_list_devices | Ep_get_device

definition api_routes :: "(route_segment list \<times> http_method \<times> api_endpoint) list" where
  "api_routes =
     [([Lit '''', Lit ''api'', Lit ''dispatchers''], POST, Ep_register_dispatcher),
      ([Lit '''', Lit ''api'', Lit ''dispatchers''], GET, Ep_list_dispatchers),
      ([Lit '''', Lit ''api'', Lit ''dispatchers'', Param], GET, Ep_get_dispatcher),
      ([Lit '''', Lit ''api'', Lit ''dispatchers'', Param, Lit ''suspend''], POST, Ep_suspend_dispatcher),
      ([Lit '''', Lit ''api'', Lit ''devices''], POST, Ep_register_device),
      ([Lit '''', Lit ''api'', Lit ''devices''], GET, Ep_list_devices),
      ([Lit '''', Lit ''api'', Lit ''devices'', Param], GET, Ep_get_device)]"

fun find_route ::
    "(route_segment list \<times> http_method \<times> api_endpoint) list \<Rightarrow> http_method \<Rightarrow> string list \<Rightarrow>
     (api_endpoint \<times> string list) option" where
  "find_route [] mt segs = None"
| "find_route ((pat, mt', ep) # rs) mt segs =
     (case route_match pat segs of
        Some vs \<Rightarrow> if mt' = mt then Some (ep, vs) else find_route rs mt segs
      | None \<Rightarrow> find_route rs mt segs)"

text \<open>The endpoint of a request; \<open>None\<close> when an extractor of \<open>axum\<close> rejects the request.\<close>

definition run_endpoint ::
    "'g api_env \<Rightarrow> ('p, 'e1) DispatcherRegistry \<Rightarrow> ('d, 'e2) DeviceRegistry \<Rightarrow> ('e1 \<Rightarrow> string) \<Rightarrow> timestamp \<Rightarrow>
     api_endpoint \<Rightarrow> string list \<Rightarrow> payload \<Rightarrow> ('p, 'd) ApiState \<Rightarrow> 'g \<Rightarrow>
     (api_body http \<times> ('p, 'd) ApiState \<times> 'g) option" where
  "run_endpoint env pr dr err_show now ep vs p st g =
     (case ep of
        Ep_register_dispatcher \<Rightarrow>
          (case p of
             Dispatcher_body r \<Rightarrow>
               (let (h, st', g') = register_dispatcher env pr now r st g
                in Some (map_http Dispatcher_json h, st', g'))
           | _ \<Rightarrow> None)
      | Ep_list_dispatchers \<Rightarrow>
          (case p of
             Dispatchers_query q \<Rightarrow> Some (map_http Dispatchers_json (list_dispatchers env pr q st), st, g)
           | No_payload \<Rightarrow>
               Some (map_http Dispatchers_json (list_dispatchers env pr ListDispatchersQuery_default st), st, g)
           | _ \<Rightarrow> None)
      | Ep_get_dispatcher \<Rightarrow> Some (map_http Dispatcher_json (get_dispatcher env pr (hd vs) st), st, g)
      | Ep_suspend_dispatcher \<Rightarrow>
          (let (h, st') = suspend_dispatcher env pr err_show (hd vs) st
           in Some (map_http Dispatcher_json h, st', g))
      | Ep_register_device \<Rightarrow>
          (case p of
             Device_body r \<Rightarrow>
               (let (h, st', g') = register_device env dr now r st g
                in Some (map_http Device_json h, st', g'))
           | _ \<Rightarrow> None)
      | Ep_list_devices \<Rightarrow>
          (case p of
             Devices_query q \<Rightarrow> Some (map_http Devices_json (list_devices env dr q st), st, g)
           | No_payload \<Rightarrow> Some (map_http Devices_json (list_devices env dr ListDevicesQuery_default st), st, g)
           | _ \<Rightarrow> None)
      | Ep_get_device \<Rightarrow> Some (map_http Device_json (get_device env dr (hd vs) st), st, g))"

definition api_router ::
    "'g api_env \<Rightarrow> ('p, 'e1) DispatcherRegistry \<Rightarrow> ('d, 'e2) DeviceRegistry \<Rightarrow> ('e1 \<Rightarrow> string) \<Rightarrow>
     (string \<Rightarrow> string) \<Rightarrow> timestamp \<Rightarrow> http_method \<Rightarrow> string \<Rightarrow> payload \<Rightarrow> ('p, 'd) ApiState \<Rightarrow> 'g \<Rightarrow>
     (api_body http \<times> ('p, 'd) ApiState \<times> 'g) option" where
  "api_router env pr dr err_show decode now mt path p st g =
     (case find_route api_routes mt (path_segments path) of
        Some (ep, vs) \<Rightarrow> run_endpoint env pr dr err_show now ep (map decode vs) p st g
      | None \<Rightarrow> None)"

subsection \<open>The client\<close>

datatype 'e ApiClientError =
    Request 'e
  | ServerError u16 string
  | ApiNotFound
  | BadRequest string

record ('w, 'e) ApiClient =
  cl_http :: "http_request \<Rightarrow> 'w \<Rightarrow> (api_body http, 'e) result \<times> 'w"
  cl_base_url :: string

definition trim_end_slashes :: "string \<Rightarrow> string" where
  "trim_end_slashes s = rev (trim_slashes (rev s))"

definition ApiClient_with_http_client ::
    "(http_request \<Rightarrow> 'w \<Rightarrow> (api_body http, 'e) result \<times> 'w) \<Rightarrow> string \<Rightarrow> ('w, 'e) ApiClient" where
  "ApiClient_with_http_client http base_url = \<lparr>cl_http = http, cl_base_url = trim_end_slashes base_url\<rparr>"

text \<open>\<open>Client::new\<close> uses the default client of \<open>reqwest\<close>.\<close>

definition ApiClient_new ::
    "(http_request \<Rightarrow> 'w \<Rightarrow> (api_body http, 'e) result \<times> 'w) \<Rightarrow> string \<Rightarrow> ('w, 'e) ApiClient" where
  "ApiClient_new default_http base_url =
     \<lparr>cl_http = default_http, cl_base_url = trim_end_slashes base_url\<rparr>"

fun http_status :: "'a http \<Rightarrow> StatusCode" where
  "http_status (Json s _) = s"
| "http_status (Text s _) = s"

definition is_success :: "StatusCode \<Rightarrow> bool" where
  "is_success s \<longleftrightarrow> 200 \<le> as_u16 s \<and> as_u16 s < 300"

text \<open>
  What the client needs of \<open>serde_json\<close> and \<open>reqwest\<close>: the text of a body, and the error for a body
  that does not decode to the expected type.
\<close>

record 'e json_env =
  json_text :: "api_body \<Rightarrow> string"
  decode_error :: 'e

fun http_text :: "'e json_env \<Rightarrow> api_body http \<Rightarrow> string" where
  "http_text js (Json _ b) = json_text js b"
| "http_text js (Text _ s) = s"

definition handle_response ::
    "'e json_env \<Rightarrow> (api_body \<Rightarrow> 'a option) \<Rightarrow> api_body http \<Rightarrow> ('a, 'e ApiClientError) result" where
  "handle_response js expect response =
     (let status = http_status response
      in if is_success status then
           (case response of
              Json _ b \<Rightarrow> (case expect b of Some x \<Rightarrow> Ok x | None \<Rightarrow> Err (Request (decode_error js)))
            | Text _ _ \<Rightarrow> Err (Request (decode_error js)))
         else if status = NOT_FOUND then Err ApiNotFound
         else if status = BAD_REQUEST then Err (BadRequest (http_text js response))
         else Err (ServerError (as_u16 status) (http_text js response)))"

fun expect_dispatcher :: "api_body \<Rightarrow> DispatcherResponse option" where
  "expect_dispatcher (Dispatcher_json r) = Some r"
| "expect_dispatcher _ = None"

fun expect_dispatchers :: "api_body \<Rightarrow> ListDispatchersResponse option" where
  "expect_dispatchers (Dispatchers_json r) = Some r"
| "expect_dispatchers _ = None"

fun expect_device :: "api_body \<Rightarrow> DeviceResponse option" where
  "expect_device (Device_json r) = Some r"
| "expect_device _ = None"

fun expect_devices :: "api_body \<Rightarrow> ListDevicesResponse option" where
  "expect_devices (Devices_json r) = Some r"
| "expect_devices _ = None"

text \<open>\<open>self.http.get(&url)...send().await?\<close> followed by \<open>handle_response\<close>.\<close>

definition send_and_handle ::
    "'e json_env \<Rightarrow> (api_body \<Rightarrow> 'a option) \<Rightarrow> ('w, 'e) ApiClient \<Rightarrow> http_method \<Rightarrow> string \<Rightarrow> payload \<Rightarrow> 'w \<Rightarrow>
     ('a, 'e ApiClientError) result \<times> 'w" where
  "send_and_handle js expect c mt url p w =
     (case cl_http c \<lparr>hr_method = mt, hr_url = url, hr_payload = p\<rparr> w of
        (Inl e, w') \<Rightarrow> (Err (Request e), w')
      | (Inr response, w') \<Rightarrow> (handle_response js expect response, w'))"

definition cl_register_dispatcher_with_id where
  "cl_register_dispatcher_with_id js c i location =
     send_and_handle js expect_dispatcher c POST (cl_base_url c @ ''/api/dispatchers'')
       (Dispatcher_body \<lparr>rpr_id = i, rpr_location = location\<rparr>)"

definition cl_register_dispatcher where
  "cl_register_dispatcher js c location = cl_register_dispatcher_with_id js c None location"

definition cl_get_dispatcher where
  "cl_get_dispatcher env js c i =
     send_and_handle js expect_dispatcher c GET (cl_base_url c @ ''/api/dispatchers/'' @ ulid_show env i)
       No_payload"

definition cl_list_dispatchers_with_query where
  "cl_list_dispatchers_with_query js c query =
     send_and_handle js expect_dispatchers c GET (cl_base_url c @ ''/api/dispatchers'') (Dispatchers_query query)"

definition cl_list_dispatchers where
  "cl_list_dispatchers js c = cl_list_dispatchers_with_query js c ListDispatchersQuery_default"

definition cl_suspend_dispatcher where
  "cl_suspend_dispatcher env js c i =
     send_and_handle js expect_dispatcher c POST
       (cl_base_url c @ ''/api/dispatchers/'' @ ulid_show env i @ ''/suspend'') No_payload"

definition cl_register_device where
  "cl_register_device js c request =
     send_and_handle js expect_device c POST (cl_base_url c @ ''/api/devices'') (Device_body request)"

definition cl_register_device_simple where
  "cl_register_device_simple js c location =
     cl_register_device js c
       \<lparr>rdr_id = None, rdr_location = location, rdr_kind = None, rdr_manufacturer = None, rdr_sensors = []\<rparr>"

definition cl_get_device where
  "cl_get_device env js c i =
     send_and_handle js expect_device c GET (cl_base_url c @ ''/api/devices/'' @ ulid_show env i) No_payload"

definition cl_list_devices_with_query where
  "cl_list_devices_with_query js c query =
     send_and_handle js expect_devices c GET (cl_base_url c @ ''/api/devices'') (Devices_query query)"

definition cl_list_devices where
  "cl_list_devices js c = cl_list_devices_with_query js c ListDevicesQuery_default"

subsection \<open>Query builders\<close>

record ListDispatchersQueryBuilder =
  lpqb_query :: ListDispatchersQuery

definition ListDispatchersQueryBuilder_new :: ListDispatchersQueryBuilder where
  "ListDispatchersQueryBuilder_new = \<lparr>lpqb_query = ListDispatchersQuery_default\<rparr>"

definition lpq_with_state :: "StateFilter \<Rightarrow> ListDispatchersQueryBuilder \<Rightarrow> ListDispatchersQueryBuilder" where
  "lpq_with_state x b = b\<lparr>lpqb_query := (lpqb_query b)\<lparr>lpq_state := Some x\<rparr>\<rparr>"

definition lpq_with_location :: "u64 \<Rightarrow> ListDispatchersQueryBuilder \<Rightarrow> ListDispatchersQueryBuilder" where
  "lpq_with_location x b = b\<lparr>lpqb_query := (lpqb_query b)\<lparr>lpq_location := Some x\<rparr>\<rparr>"

definition lpq_with_sort_order :: "QuerySortOrder \<Rightarrow> ListDispatchersQueryBuilder \<Rightarrow> ListDispatchersQueryBuilder" where
  "lpq_with_sort_order x b = b\<lparr>lpqb_query := (lpqb_query b)\<lparr>lpq_sort_order := Some x\<rparr>\<rparr>"

definition lpq_with_offset :: "nat \<Rightarrow> ListDispatchersQueryBuilder \<Rightarrow> ListDispatchersQueryBuilder" where
  "lpq_with_offset x b = b\<lparr>lpqb_query := (lpqb_query b)\<lparr>lpq_offset := Some x\<rparr>\<rparr>"

definition lpq_with_limit :: "nat \<Rightarrow> ListDispatchersQueryBuilder \<Rightarrow> ListDispatchersQueryBuilder" where
  "lpq_with_limit x b = b\<lparr>lpqb_query := (lpqb_query b)\<lparr>lpq_limit := Some x\<rparr>\<rparr>"

definition lpq_with_after :: "string \<Rightarrow> ListDispatchersQueryBuilder \<Rightarrow> ListDispatchersQueryBuilder" where
  "lpq_with_after x b = b\<lparr>lpqb_query := (lpqb_query b)\<lparr>lpq_after := Some x\<rparr>\<rparr>"

definition lpq_build :: "ListDispatchersQueryBuilder \<Rightarrow> ListDispatchersQuery" where
  "lpq_build b = lpqb_query b"

record ListDevicesQueryBuilder =
  ldqb_query :: ListDevicesQuery

definition ListDevicesQueryBuilder_new :: ListDevicesQueryBuilder where
  "ListDevicesQueryBuilder_new = \<lparr>ldqb_query = ListDevicesQuery_default\<rparr>"

definition ldq_with_state :: "StateFilter \<Rightarrow> ListDevicesQueryBuilder \<Rightarrow> ListDevicesQueryBuilder" where
  "ldq_with_state x b = b\<lparr>ldqb_query := (ldqb_query b)\<lparr>ldq_state := Some x\<rparr>\<rparr>"

definition ldq_with_location :: "u64 \<Rightarrow> ListDevicesQueryBuilder \<Rightarrow> ListDevicesQueryBuilder" where
  "ldq_with_location x b = b\<lparr>ldqb_query := (ldqb_query b)\<lparr>ldq_location := Some x\<rparr>\<rparr>"

definition ldq_with_manufacturer :: "string \<Rightarrow> ListDevicesQueryBuilder \<Rightarrow> ListDevicesQueryBuilder" where
  "ldq_with_manufacturer x b = b\<lparr>ldqb_query := (ldqb_query b)\<lparr>ldq_manufacturer := Some x\<rparr>\<rparr>"

definition ldq_with_provisioned_after :: "string \<Rightarrow> ListDevicesQueryBuilder \<Rightarrow> ListDevicesQueryBuilder" where
  "ldq_with_provisioned_after x b = b\<lparr>ldqb_query := (ldqb_query b)\<lparr>ldq_provisioned_after := Some x\<rparr>\<rparr>"

definition ldq_with_provisioned_before :: "string \<Rightarrow> ListDevicesQueryBuilder \<Rightarrow> ListDevicesQueryBuilder" where
  "ldq_with_provisioned_before x b = b\<lparr>ldqb_query := (ldqb_query b)\<lparr>ldq_provisioned_before := Some x\<rparr>\<rparr>"

definition ldq_with_sort_by :: "DeviceQuerySortBy \<Rightarrow> ListDevicesQueryBuilder \<Rightarrow> ListDevicesQueryBuilder" where
  "ldq_with_sort_by x b = b\<lparr>ldqb_query := (ldqb_query b)\<lparr>ldq_sort_by := Some x\<rparr>\<rparr>"

definition ldq_with_sort_order :: "QuerySortOrder \<Rightarrow> ListDevicesQueryBuilder \<Rightarrow> ListDevicesQueryBuilder" where
  "ldq_with_sort_order x b = b\<lparr>ldqb_query := (ldqb_query b)\<lparr>ldq_sort_order := Some x\<rparr>\<rparr>"

definition ldq_with_offset :: "nat \<Rightarrow> ListDevicesQueryBuilder \<Rightarrow> ListDevicesQueryBuilder" where
  "ldq_with_offset x b = b\<lparr>ldqb_query := (ldqb_query b)\<lparr>ldq_offset := Some x\<rparr>\<rparr>"

definition ldq_with_limit :: "nat \<Rightarrow> ListDevicesQueryBuilder \<Rightarrow> ListDevicesQueryBuilder" where
  "ldq_with_limit x b = b\<lparr>ldqb_query := (ldqb_query b)\<lparr>ldq_limit := Some x\<rparr>\<rparr>"

definition ldq_with_after :: "string \<Rightarrow> ListDevicesQueryBuilder \<Rightarrow> ListDevicesQueryBuilder" where
  "ldq_with_after x b = b\<lparr>ldqb_query := (ldqb_query b)\<lparr>ldq_after := Some x\<rparr>\<rparr>"

definition ldq_build :: "ListDevicesQueryBuilder \<Rightarrow> ListDevicesQuery" where
  "ldq_build b = ldqb_query b"

record RegisterDeviceBuilder =
  rdb_id :: "ulid option"
  rdb_location :: u64
  rdb_kind :: "string option"
  rdb_manufacturer :: "string option"
  rdb_sensors :: "SensorRequest list"

definition RegisterDeviceBuilder_new :: "u64 \<Rightarrow> RegisterDeviceBuilder" where
  "RegisterDeviceBuilder_new location =
     \<lparr>rdb_id = None, rdb_location = location, rdb_kind = None, rdb_manufacturer = None, rdb_sensors = []\<rparr>"

definition rdb_with_id :: "ulid \<Rightarrow> RegisterDeviceBuilder \<Rightarrow> RegisterDeviceBuilder" where
  "rdb_with_id i b = b\<lparr>rdb_id := Some i\<rparr>"

definition rdb_with_kind :: "string \<Rightarrow> RegisterDeviceBuilder \<Rightarrow> RegisterDeviceBuilder" where
  "rdb_with_kind kind b = b\<lparr>rdb_kind := Some kind\<rparr>"

definition rdb_with_manufacturer :: "string \<Rightarrow> RegisterDeviceBuilder \<Rightarrow> RegisterDeviceBuilder" where
  "rdb_with_manufacturer manufacturer b = b\<lparr>rdb_manufacturer := Some manufacturer\<rparr>"

definition rdb_with_sensor :: "string \<Rightarrow> RegisterDeviceBuilder \<Rightarrow> RegisterDeviceBuilder" where
  "rdb_with_sensor kind b = b\<lparr>rdb_sensors := rdb_sensors b @ [\<lparr>sreq_id = None, sreq_kind = kind\<rparr>]\<rparr>"

definition rdb_with_sensor_id :: "ulid \<Rightarrow> string \<Rightarrow> RegisterDeviceBuilder \<Rightarrow> RegisterDeviceBuilder" where
  "rdb_with_sensor_id i kind b = b\<lparr>rdb_sensors := rdb_sensors b @ [\<lparr>sreq_id = Some i, sreq_kind = kind\<rparr>]\<rparr>"

definition rdb_build :: "RegisterDeviceBuilder \<Rightarrow> RegisterDeviceRequest" where
  "rdb_build b =
     \<lparr>rdr_id = rdb_id b, rdr_location = rdb_location b, rdr_kind = rdb_kind b,
      rdr_manufacturer = rdb_manufacturer b, rdr_sensors = rdb_sensors b\<rparr>"

subsection \<open>The client against the server\<close>

text \<open>
  The transport that hands a request to the router of a server reachable under \<open>base\<close>; what the
  server answers to other requests (its fallback handler) is an argument.
\<close>

fun strip_prefix :: "string \<Rightarrow> string \<Rightarrow> string option" where
  "strip_prefix [] s = Some s"
| "strip_prefix (p # ps) (c # cs) = (if p = c then strip_prefix ps cs else None)"
| "strip_prefix (p # ps) [] = None"

definition http_loopback ::
    "'g api_env \<Rightarrow> ('p, 'e1) DispatcherRegistry \<Rightarrow> ('d, 'e2) DeviceRegistry \<Rightarrow> ('e1 \<Rightarrow> string) \<Rightarrow>
     (string \<Rightarrow> string) \<Rightarrow> timestamp \<Rightarrow> api_body http \<Rightarrow> string \<Rightarrow> http_request \<Rightarrow> ('p, 'd) ApiState \<times> 'g \<Rightarrow>
     (api_body http, 'e) result \<times> ('p, 'd) ApiState \<times> 'g" where
  "http_loopback env pr dr err_show decode now fallback base req w =
     (case strip_prefix base (hr_url req) of
        Some path \<Rightarrow>
          (case api_router env pr dr err_show decode now (hr_method req) path (hr_payload req) (fst w) (snd w) of
             Some (h, st', g') \<Rightarrow> (Ok h, (st', g'))
           | None \<Rightarrow> (Ok fallback, w))
      | None \<Rightarrow> (Ok fallback, w))"

text \<open>
  What is relied on of the text form of identifiers: it parses back, is not empty, has no slash and
  no percent escape.
\<close>

definition api_text_ok :: "'g api_env \<Rightarrow> (string \<Rightarrow> string) \<Rightarrow> bool" where
  "api_text_ok env decode \<longleftrightarrow>
     (\<forall>u. ulid_parse env (ulid_show env u) = Some u \<and> ulid_show env u \<noteq> [] \<and>
          CHR ''/'' \<notin> set (ulid_show env u) \<and> decode (ulid_show env u) = ulid_show env u)"

lemma api_text_okD:
  assumes "api_text_ok env decode"
  shows "ulid_parse env (ulid_show env u) = Some u" "ulid_show env u \<noteq> []"
    "CHR ''/'' \<notin> set (ulid_show env u)" "decode (ulid_show env u) = ulid_show env u"
  using assms by (simp_all add: api_text_ok_def)

lemma strip_prefix_append [simp]: "strip_prefix base (base @ path) = Some path"
  by (induction base) simp_all

lemma path_segments_single: "CHR ''/'' \<notin> set s \<Longrightarrow> path_segments s = [s]"
  by (induction s) auto

lemma path_segments_append:
  "CHR ''/'' \<notin> set s \<Longrightarrow> path_segments (s @ CHR ''/'' # t) = s # path_segments t"
  by (induction s) auto

lemma find_routes:
  "find_route api_routes POST ['''', ''api'', ''dispatchers''] = Some (Ep_register_dispatcher, [])"
  "find_route api_routes GET ['''', ''api'', ''dispatchers''] = Some (Ep_list_dispatchers, [])"
  "s \<noteq> [] \<Longrightarrow> find_route api_routes GET ['''', ''api'', ''dispatchers'', s] = Some (Ep_get_dispatcher, [s])"
  "s \<noteq> [] \<Longrightarrow>
     find_route api_routes POST ['''', ''api'', ''dispatchers'', s, ''suspend''] = Some (Ep_suspend_dispatcher, [s])"
  "find_route api_routes POST ['''', ''api'', ''devices''] = Some (Ep_register_device, [])"
  "find_route api_routes GET ['''', ''api'', ''devices''] = Some (Ep_list_devices, [])"
  "s \<noteq> [] \<Longrightarrow> find_route api_routes GET ['''', ''api'', ''devices'', s] = Some (Ep_get_device, [s])"
  by (simp_all add: api_routes_def)

lemma id_paths:
  assumes "CHR ''/'' \<notin> set s"
  shows "path_segments (''/api/dispatchers/'' @ s) = ['''', ''api'', ''dispatchers'', s]"
    "path_segments (''/api/dispatchers/'' @ s @ ''/suspend'') = ['''', ''api'', ''dispatchers'', s, ''suspend'']"
    "path_segments (''/api/devices/'' @ s) = ['''', ''api'', ''devices'', s]"
  using assms by (simp_all add: path_segments_single path_segments_append)

lemma collection_paths:
  "path_segments ''/api/dispatchers'' = ['''', ''api'', ''dispatchers'']"
  "path_segments ''/api/devices'' = ['''', ''api'', ''devices'']"
  by simp_all

text \<open>The client of a server with in-memory registries.\<close>

type_synonym 'g mem_api = "(InMemoryDispatcherRegistry, InMemoryDeviceRegistry) ApiState \<times> 'g"

definition mem_client ::
    "'g api_env \<Rightarrow> (string \<Rightarrow> string) \<Rightarrow> (DispatcherId, Dispatcher) hash_order \<Rightarrow> (DeviceId, Device) hash_order \<Rightarrow>
     (string \<Rightarrow> string) \<Rightarrow> timestamp \<Rightarrow> api_body http \<Rightarrow> string \<Rightarrow> ('g mem_api, 'e) ApiClient" where
  "mem_client env decode pord dord low now fallback base =
     ApiClient_new
       (http_loopback env (in_memory_dispatchers pord) (in_memory_devices dord low) in_memory_error_show decode now
         fallback (trim_end_slashes base)) base"

lemma mem_client_call:
  assumes "find_route api_routes mt (path_segments path) = Some (ep, vs)"
    and "run_endpoint env (in_memory_dispatchers pord) (in_memory_devices dord low) in_memory_error_show now ep
        (map decode vs) p st g = Some (h, st', g')"
  shows "send_and_handle js expect (mem_client env decode pord dord low now fallback base) mt
      (trim_end_slashes base @ path) p (st, g) = (handle_response js expect h, (st', g'))"
  using assms by (simp add: send_and_handle_def mem_client_def ApiClient_new_def http_loopback_def api_router_def)

lemma mem_client_base [simp]:
  "cl_base_url (mem_client env decode pord dord low now fallback base) = trim_end_slashes base"
  by (simp add: mem_client_def ApiClient_new_def)

lemma http_status_map [simp]: "http_status (map_http f h) = http_status h"
  by (cases h) simp_all

lemma is_success_simps [simp]:
  "is_success OK" "is_success CREATED" "\<not> is_success BAD_REQUEST" "\<not> is_success NOT_FOUND"
  "\<not> is_success INTERNAL_SERVER_ERROR"
  by (simp_all add: is_success_def)

lemma handle_response_simps [simp]:
  "handle_response js expect (Text BAD_REQUEST m) = Err (BadRequest m)"
  "handle_response js expect (Text NOT_FOUND m) = Err ApiNotFound"
  "handle_response js expect (Text INTERNAL_SERVER_ERROR m) = Err (ServerError 500 m)"
  "handle_response js expect_device (Json OK (Device_json d)) = Ok d"
  "handle_response js expect_device (Json CREATED (Device_json d)) = Ok d"
  "handle_response js expect_devices (Json OK (Devices_json ds)) = Ok ds"
  "handle_response js expect_dispatcher (Json OK (Dispatcher_json p)) = Ok p"
  "handle_response js expect_dispatcher (Json CREATED (Dispatcher_json p)) = Ok p"
  "handle_response js expect_dispatchers (Json OK (Dispatchers_json ps)) = Ok ps"
  by (simp_all add: handle_response_def)

lemma mem_client_get_device:
  assumes "api_text_ok env decode"
  shows "cl_get_device env js (mem_client env decode pord dord low now fallback base) u (st, g) =
    ((case hm_get (devices (api_devices st)) (DeviceId u) of
        Some d \<Rightarrow> Ok (DeviceResponse_from env d)
      | None \<Rightarrow> Err ApiNotFound), (st, g))"
proof -
  note ok = api_text_okD [OF assms, of u]
  show ?thesis
    unfolding cl_get_device_def mem_client_base
    by (rule trans [OF mem_client_call [OF find_routes(7) [OF ok(2), folded id_paths(3) [OF ok(3)]]]])
      (auto simp: run_endpoint_def get_device_def ok in_memory_devices_def imd_get_def split: option.split)
qed

lemma mem_client_get_dispatcher:
  assumes "api_text_ok env decode"
  shows "cl_get_dispatcher env js (mem_client env decode pord dord low now fallback base) u (st, g) =
    ((case hm_get (dispatchers (api_dispatchers st)) (DispatcherId u) of
        Some d \<Rightarrow> Ok (DispatcherResponse_from env d)
      | None \<Rightarrow> Err ApiNotFound), (st, g))"
proof -
  note ok = api_text_okD [OF assms, of u]
  show ?thesis
    unfolding cl_get_dispatcher_def mem_client_base
    by (rule trans [OF mem_client_call [OF find_routes(3) [OF ok(2), folded id_paths(1) [OF ok(3)]]]])
      (auto simp: run_endpoint_def get_dispatcher_def ok in_memory_dispatchers_def imp_get_def split: option.split)
qed

lemma mem_client_suspend_dispatcher:
  assumes "api_text_ok env decode"
  shows "cl_suspend_dispatcher env js (mem_client env decode pord dord low now fallback base) u (st, g) =
    (case hm_get (dispatchers (api_dispatchers st)) (DispatcherId u) of
        Some d \<Rightarrow> (Ok (DispatcherResponse_from env (d\<lparr>disp_state := Dispatcher_Suspended\<rparr>)),
          (st\<lparr>api_dispatchers := snd (imp_suspend (DispatcherId u) (api_dispatchers st))\<rparr>, g))
      | None \<Rightarrow> (Err ApiNotFound, (st, g)))"
proof -
  note ok = api_text_okD [OF assms, of u]
  note call = mem_client_call [OF find_routes(4) [OF ok(2), folded id_paths(2) [OF ok(3)]],
      where js = js and expect = expect_dispatcher and p = No_payload and env = env and decode = decode]
  note suspend_simps = run_endpoint_def suspend_dispatcher_def ok in_memory_dispatchers_def imp_defs hm_simps Let_def
  show ?thesis
  proof (cases "hm_get (dispatchers (api_dispatchers st)) (DispatcherId u)")
    case None
    then show ?thesis
      unfolding cl_suspend_dispatcher_def mem_client_base
      by - (rule trans [OF call], (simp add: suspend_simps)+)
  next
    case (Some d)
    then show ?thesis
      unfolding cl_suspend_dispatcher_def mem_client_base
      by - (rule trans [OF call], (simp add: suspend_simps)+)
  qed
qed

lemma mem_client_register_dispatcher:
  "cl_register_dispatcher_with_id js (mem_client env decode pord dord low now fallback base) i location (st, g) =
    (let (u, g') = unwrap_or_new env i g;
         dispatcher = \<lparr>disp_id = DispatcherId u, disp_location = H3Cell location,
           disp_state = Dispatcher_Active, disp_provisioned_at = now\<rparr>
     in (Ok (DispatcherResponse_from env dispatcher),
         (st\<lparr>api_dispatchers := snd (imp_register dispatcher (api_dispatchers st))\<rparr>, g')))"
proof -
  let ?request = "\<lparr>rpr_id = i, rpr_location = location\<rparr>"
  let ?reg = "register_dispatcher env (in_memory_dispatchers pord) now ?request st g"
  have "run_endpoint env (in_memory_dispatchers pord) (in_memory_devices dord low) in_memory_error_show now
      Ep_register_dispatcher (map decode []) (Dispatcher_body ?request) st g =
      Some (map_http Dispatcher_json (fst ?reg), fst (snd ?reg), snd (snd ?reg))"
    by (simp add: run_endpoint_def split: prod.split)
  note call = mem_client_call [OF find_routes(1) [folded collection_paths(1)] this]
  show ?thesis
    unfolding cl_register_dispatcher_with_id_def mem_client_base call
    by (simp add: register_dispatcher_def in_memory_dispatchers_def imp_register_def Let_def split: prod.split)
qed

lemma mem_client_register_device:
  "cl_register_device js (mem_client env decode pord dord low now fallback base) request (st, g) =
    (let (i, g') = unwrap_or_new env (rdr_id request) g
     in case parse_sensors env (rdr_sensors request) [] g' of
          (Inl kind, g'') \<Rightarrow> (Err (BadRequest (''Invalid sensor kind: '' @ kind)), (st, g''))
        | (Inr sensors, g'') \<Rightarrow>
            (let device = \<lparr>dev_id = DeviceId i, dev_kind = DK_Sensor, dev_state = Device_Active,
                 dev_location = H3Cell (rdr_location request), dev_manufacturer = rdr_manufacturer request,
                 dev_provisioned_at = now, dev_sensors = sensors\<rparr>
             in (Ok (DeviceResponse_from env device),
                 (st\<lparr>api_devices := snd (imd_register device (api_devices st))\<rparr>, g''))))"
proof -
  let ?reg = "register_device env (in_memory_devices dord low) now request st g"
  have "run_endpoint env (in_memory_dispatchers pord) (in_memory_devices dord low) in_memory_error_show now
      Ep_register_device (map decode []) (Device_body request) st g =
      Some (map_http Device_json (fst ?reg), fst (snd ?reg), snd (snd ?reg))"
    by (simp add: run_endpoint_def split: prod.split)
  note call = mem_client_call [OF find_routes(5) [folded collection_paths(2)] this]
  show ?thesis
    unfolding cl_register_device_def mem_client_base call
    by (simp add: register_device_def in_memory_devices_def imd_register_def Let_def split: prod.split sum.split)
qed

text \<open>The sensors of a registration: of the requested kinds in order, or the first unknown kind.\<close>

lemma parse_sensors_cases:
  "case fst (parse_sensors env reqs acc g) of
     Inr sensors \<Rightarrow>
       map (\<lambda>r. parse_sensor_kind (sreq_kind r)) reqs = map (Some \<circ> sensor_kind) (drop (length acc) sensors) \<and>
       take (length acc) sensors = acc
   | Inl kind \<Rightarrow> kind \<in> sreq_kind ` set reqs \<and> parse_sensor_kind kind = None"
proof (induction reqs arbitrary: acc g)
  case (Cons r reqs)
  show ?case
  proof (cases "parse_sensor_kind (sreq_kind r)")
    case (Some kind)
    obtain i g' where g': "unwrap_or_new env (sreq_id r) g = (i, g')" by fastforce
    let ?s = "\<lparr>sensor_id = SensorId i, sensor_metric = default_metric_for_kind kind, sensor_kind = kind\<rparr>"
    have head: "drop (length acc) sensors = ?s # drop (Suc (length acc)) sensors \<and> take (length acc) sensors = acc"
      if "take (Suc (length acc)) sensors = acc @ [?s]" for sensors
    proof -
      have "sensors = (acc @ [?s]) @ drop (Suc (length acc)) sensors"
        by (metis append_take_drop_id that)
      then show ?thesis by (metis append.assoc append_Cons append_Nil append_eq_conv_conj)
    qed
    from Some g' Cons.IH [of "acc @ [?s]" g'] show ?thesis
      by (auto simp: head split: sum.splits)
  qed simp
qed simp

lemma parse_sensor_kind_name: "parse_sensor_kind s = Some k \<longleftrightarrow> s = sensor_kind_name k"
  by (cases k) (auto simp: parse_sensor_kind_def split: if_splits)

lemma parsed_sensor_names:
  "map (\<lambda>r. parse_sensor_kind (sreq_kind r)) reqs = map (Some \<circ> sensor_kind) sensors \<Longrightarrow>
     map sresp_kind (map (SensorResponse_from env) sensors) = map sreq_kind reqs \<and>
     list_all (\<lambda>r. parse_sensor_kind (sreq_kind r) \<noteq> None) reqs"
proof (induction reqs arbitrary: sensors)
  case (Cons r reqs)
  from Cons.prems obtain s ss where "sensors = s # ss" by (cases sensors) auto
  with Cons show ?case by (auto simp: parse_sensor_kind_name SensorResponse_from_def)
qed simp

lemma mem_client_list_devices:
  "cl_list_devices_with_query js (mem_client env decode pord dord low now fallback base) query (st, g) =
    (handle_response js expect_devices
       (map_http Devices_json (list_devices env (in_memory_devices dord low) query st)), (st, g))"
  unfolding cl_list_devices_with_query_def mem_client_base
  by (rule trans [OF mem_client_call [OF find_routes(6) [folded collection_paths(2)]]])
    (auto simp: run_endpoint_def)

lemma imd_list_page:
  "imd_list ord low \<lparr>qo_filter = f, qo_sort_by = sb, qo_sort_order = so, qo_pagination = pg\<rparr> m =
     Ok (device_page ord low f sb so pg m)"
  by (simp add: device_page_def imd_list_def)

lemma device_page_le: "length (device_page ord low f sb so pg m) \<le> (case pg of Offset _ n \<Rightarrow> n | Cursor _ n \<Rightarrow> n)"
  by (auto simp: device_page_eq paginate_devices_def split: Pagination.split option.split)

subsection \<open>A concrete text form of identifiers\<close>

text \<open>Thirty-two letters, one for each group of four bits: an instance for the witnesses.\<close>

fun nib_show :: "nat \<Rightarrow> nat \<Rightarrow> string" where
  "nib_show 0 n = []"
| "nib_show (Suc k) n = nib_show k (n div 16) @ [char_of (97 + n mod 16)]"

definition nib_value :: "string \<Rightarrow> nat" where
  "nib_value s = foldl (\<lambda>a c. a * 16 + (of_char c - 97)) 0 s"

definition sample_env :: "ulid api_env" where
  "sample_env =
     \<lparr>ulid_show = (\<lambda>u. nib_show 32 (unat u)),
      ulid_parse = (\<lambda>s. if length s = 32 then Some (of_nat (nib_value s)) else None),
      ts_show = (\<lambda>_. ''1970-01-01T00:00:00Z''),
      ts_parse = (\<lambda>s. if s = ''1970-01-01T00:00:00Z'' then Some 0 else None),
      next_ulid = (\<lambda>g. (g, g + 1))\<rparr>"

lemma length_nib_show [simp]: "length (nib_show k n) = k"
  by (induction k arbitrary: n) simp_all

lemma nib_char: "of_char (char_of (97 + n mod 16) :: char) = (97 + n mod 16 :: nat)"
proof -
  have "n mod 16 < 16" by simp
  then have "97 + n mod 16 < 256" by linarith
  then show ?thesis by (simp add: of_char_of)
qed

lemma nib_value_show: "nib_value (nib_show k n) = n mod 16 ^ k"
proof (induction k arbitrary: n)
  case (Suc k)
  have "nib_value (nib_show (Suc k) n) = nib_value (nib_show k (n div 16)) * 16 + n mod 16"
    by (simp add: nib_value_def nib_char)
  also have "\<dots> = n mod 16 ^ Suc k"
    by (simp add: Suc.IH mod_mult2_eq mult.commute)
  finally show ?case .
qed (simp add: nib_value_def)

lemma nib_show_no_slash: "CHR ''/'' \<notin> set (nib_show k n)"
proof (induction k arbitrary: n)
  case (Suc k)
  have "of_char (char_of (97 + n mod 16) :: char) \<noteq> (47 :: nat)" by (simp add: nib_char)
  moreover have "of_char (CHR ''/'') = (47 :: nat)" by simp
  ultimately have "char_of (97 + n mod 16) \<noteq> CHR ''/''" by metis
  then show ?case using Suc by auto
qed simp

lemma sample_env_ok: "api_text_ok sample_env id"
proof -
  have "unat u mod 16 ^ 32 = unat u" for u :: ulid
    using unsigned_less [of u, where ?'a = nat] by simp
  moreover have "nib_show 32 n \<noteq> []" for n
    using length_nib_show [of 32 n] by fastforce
  ultimately show ?thesis
    by (simp add: api_text_ok_def sample_env_def nib_value_show nib_show_no_slash)
qed

subsection \<open>Properties\<close>


definition sample_json :: "unit json_env" where
  "sample_json = \<lparr>json_text = (\<lambda>_. ''{}''), decode_error = ()\<rparr>"

definition sample_api :: "ulid mem_api" where
  "sample_api = (\<lparr>api_dispatchers = dispatcher_registry (sample_app Dispatcher_Active),
     api_devices = device_registry (sample_app Dispatcher_Active)\<rparr>, 40)"

definition sample_client :: "(ulid mem_api, unit) ApiClient" where
  "sample_client = mem_client sample_env id forward_order backward_order id 7 (Text NOT_FOUND '''') ''http://prime/''"

definition sample_registration :: "string \<Rightarrow> RegisterDeviceRequest" where
  "sample_registration kind =
     rdb_build (rdb_with_sensor kind (rdb_with_manufacturer ''m'' (RegisterDeviceBuilder_new 5)))"


text \<open>
  Listing devices through the client.  A malformed timestamp or cursor gives \<open>BadRequest\<close>.
  Otherwise the answer is the requested page of the registry, sorted and filtered as asked, of at
  most 100 devices and at most the requested limit; the field \<open>total\<close> is the length of that page.
\<close>

lemma client_list_devices:
  "let c = mem_client env decode pord dord low now fallback base;
       pg = page_of env (ldq_after query) (ldq_offset query) (ldq_limit query)
   in (case (ts_param env (ldq_provisioned_after query), ts_param env (ldq_provisioned_before query), pg) of
         (Some after, Some before, Some page) \<Rightarrow>
           (let ds = device_page dord low (device_filter_of query after before) (device_sort_of (ldq_sort_by query))
                  (sort_order_of (ldq_sort_order query)) page (api_devices st)
            in cl_list_devices_with_query js c query (st, g) =
                 (Ok \<lparr>ldr_devices = map (DeviceResponse_from env) ds, ldr_total = length ds\<rparr>, (st, g)) \<and>
               length ds \<le> 100 \<and> (case ldq_limit query of Some n \<Rightarrow> length ds \<le> n | None \<Rightarrow> True))
       | _ \<Rightarrow> \<exists>msg. cl_list_devices_with_query js c query (st, g) = (Err (BadRequest msg), (st, g)))"
proof -
  have le: "length (device_page ord low f sb so page m) \<le> page_limit (ldq_limit query)"
    if "page_of env (ldq_after query) (ldq_offset query) (ldq_limit query) = Some page" for ord low f sb so page m
    using that device_page_le [of ord low f sb so page m]
    by (auto simp: page_of_def split: option.splits)
  then show ?thesis
    by (auto simp: Let_def mem_client_list_devices list_devices_def in_memory_devices_def imd_list_page page_limit_def
        split: option.splits)
qed



end
