(* ===== verification/Dispatch_Mock.thy ===== *)
theory Dispatch_Mock
  imports Dispatch_Main Prime_Client
begin

text \<open>
  The mock edge receiver of a dispatcher (\<open>ersha-dispatch/src/edge/mock.rs\<close>), its configuration
  (\<open>ersha-dispatch/src/config.rs\<close>) and the registration of its devices with prime over HTTP
  (\<open>register_mock_entities\<close> and the mock branch of \<open>run_dispatcher\<close> in \<open>ersha-dispatch/src/main.rs\<close>).

  The generators of random numbers, identifiers and times, and the grid of cells of the crate \<open>h3o\<close>, are
  arguments: functions on a source of type \<open>'g\<close>, in the record \<open>mock_env\<close>.  \<open>mock_env_ok\<close> states what the
  documentation of \<open>rand\<close> promises of them.  A panic is the value \<open>None\<close>.
\<close>

subsection \<open>Configuration\<close>

record DispatcherConfig =
  dcfg_id :: string
  dcfg_location :: u64

record ServerConfig =
  scfg_http_addr :: string

datatype StorageConfig = Storage_Memory | Storage_Sqlite string

record PrimeConfig =
  pcfg_rpc_addr :: string
  pcfg_upload_interval_secs :: u64

datatype EdgeConfig =
    Edge_Mock (mock_reading_interval: u64) (mock_status_interval: u64) (mock_device_count: nat)
  | Edge_Tcp string

record 'tls DispatchConfig =
  cfg_dispatcher :: DispatcherConfig
  cfg_server :: ServerConfig
  cfg_storage :: StorageConfig
  cfg_prime :: PrimeConfig
  cfg_edge :: EdgeConfig
  cfg_tls :: 'tls

text \<open>\<open>Config::default\<close>; \<open>client_default\<close> is \<open>TlsConfig::client_default()\<close>.\<close>

definition DispatchConfig_default :: "'tls \<Rightarrow> 'tls DispatchConfig" where
  "DispatchConfig_default client_default =
     \<lparr>cfg_dispatcher = \<lparr>dcfg_id = ''01JJNQ1KQCNZ8X9PQRV5ABCD12'', dcfg_location = 0x8a529b4c8daffff\<rparr>,
      cfg_server = \<lparr>scfg_http_addr = ''0.0.0.0:8081''\<rparr>,
      cfg_storage = Storage_Memory,
      cfg_prime = \<lparr>pcfg_rpc_addr = ''127.0.0.1:9000'', pcfg_upload_interval_secs = 60\<rparr>,
      cfg_edge = Edge_Mock 5 30 100,
      cfg_tls = client_default\<rparr>"

subsection \<open>Sources of randomness\<close>

record 'g mock_env =
  rand_int :: "int \<Rightarrow> int \<Rightarrow> 'g \<Rightarrow> int \<times> 'g"
  rand_f64 :: "f64 \<Rightarrow> f64 \<Rightarrow> 'g \<Rightarrow> f64 \<times> 'g"
  rand_ratio :: "nat \<Rightarrow> nat \<Rightarrow> 'g \<Rightarrow> bool \<times> 'g"
  mock_ulid :: "'g \<Rightarrow> ulid \<times> 'g"
  mock_now :: "'g \<Rightarrow> timestamp \<times> 'g"
  cell_centre :: "u64 \<Rightarrow> (f64 \<times> f64) option"
  cell_at :: "f64 \<Rightarrow> f64 \<Rightarrow> u64 option"

fun f64_add :: "f64 \<Rightarrow> f64 \<Rightarrow> f64" where
  "f64_add (F64_Fin a) (F64_Fin b) = f64_round (a + b)"
| "f64_add (F64_Inf n) (F64_Inf k) = (if n = k then F64_Inf n else F64_NaN)"
| "f64_add (F64_Inf n) (F64_Fin b) = F64_Inf n"
| "f64_add (F64_Fin a) (F64_Inf n) = F64_Inf n"
| "f64_add F64_NaN b = F64_NaN"
| "f64_add a F64_NaN = F64_NaN"

fun f64_neg :: "f64 \<Rightarrow> f64" where
  "f64_neg F64_NaN = F64_NaN"
| "f64_neg (F64_Inf n) = F64_Inf (\<not> n)"
| "f64_neg (F64_Fin a) = F64_Fin (- a)"

definition radius :: f64 where
  "radius = f64_round (1 / 20)"

subsection \<open>Cells\<close>

text \<open>One pass of the loop up to the cell, which there is not when \<open>LatLng::new\<close> fails.\<close>

definition draw_cell :: "'g mock_env \<Rightarrow> f64 \<times> f64 \<Rightarrow> 'g \<Rightarrow> u64 option \<times> 'g" where
  "draw_cell env centre g =
     (let (lat_offset, g1) = rand_f64 env (f64_neg radius) radius g;
          (lng_offset, g2) = rand_f64 env (f64_neg radius) radius g1
      in (cell_at env (f64_add (fst centre) lat_offset) (f64_add (snd centre) lng_offset), g2))"

text \<open>The loop, by the number of attempts that are left.\<close>

fun nearby_loop ::
    "'g mock_env \<Rightarrow> f64 \<times> f64 \<Rightarrow> nat \<Rightarrow> nat \<Rightarrow> H3Cell list \<Rightarrow> u64 list \<Rightarrow> 'g \<Rightarrow> H3Cell list \<times> 'g" where
  "nearby_loop env centre wanted 0 cells seen g = (cells, g)"
| "nearby_loop env centre wanted (Suc n) cells seen g =
     (if length cells < wanted then
        (case draw_cell env centre g of
           (None, g') \<Rightarrow> nearby_loop env centre wanted n cells seen g'
         | (Some cell, g') \<Rightarrow>
             if cell \<in> set seen then nearby_loop env centre wanted n cells seen g'
             else nearby_loop env centre wanted n (cells @ [H3Cell cell]) (cell # seen) g')
      else (cells, g))"

definition generate_nearby_cells :: "'g mock_env \<Rightarrow> H3Cell \<Rightarrow> nat \<Rightarrow> 'g \<Rightarrow> H3Cell list option \<times> 'g" where
  "generate_nearby_cells env center wanted g =
     (case cell_centre env (h3_index center) of
        None \<Rightarrow> (None, g)
      | Some centre \<Rightarrow>
          (let (cells, g') = nearby_loop env centre wanted (wanted * 10) [center] [h3_index center] g
           in (Some cells, g')))"

subsection \<open>Devices\<close>

record MockDevice =
  md_device_id :: DeviceId
  md_sensor_ids :: "SensorId list"
  md_location :: H3Cell

fun draw_ulids :: "'g mock_env \<Rightarrow> nat \<Rightarrow> 'g \<Rightarrow> ulid list \<times> 'g" where
  "draw_ulids env 0 g = ([], g)"
| "draw_ulids env (Suc n) g =
     (let (u, g1) = mock_ulid env g; (us, g2) = draw_ulids env n g1 in (u # us, g2))"

definition MockDevice_new :: "'g mock_env \<Rightarrow> H3Cell \<Rightarrow> 'g \<Rightarrow> MockDevice \<times> 'g" where
  "MockDevice_new env location g =
     (let (u, g1) = mock_ulid env g; (us, g2) = draw_ulids env 5 g1
      in (\<lparr>md_device_id = DeviceId u, md_sensor_ids = map SensorId us, md_location = location\<rparr>, g2))"

definition generate_metric :: "'g mock_env \<Rightarrow> nat \<Rightarrow> 'g \<Rightarrow> SensorMetric option \<times> 'g" where
  "generate_metric env sensor_idx g =
     (let percentage = (\<lambda>c lo hi. let (v, g') = rand_int env lo hi g in (Some (c (Percentage (word_of_int v))), g'));
          not_nan = (\<lambda>c lo hi. let (v, g') = rand_f64 env (F64_Fin lo) (F64_Fin hi) g in (map_option c (NotNan_new v), g'))
      in if sensor_idx = 0 then percentage SoilMoisture 20 80
         else if sensor_idx = 1 then not_nan SoilTemp 15 35
         else if sensor_idx = 2 then not_nan AirTemp 10 40
         else if sensor_idx = 3 then percentage Humidity 30 90
         else not_nan Rainfall 0 50)"

definition generate_reading :: "'g mock_env \<Rightarrow> MockDevice \<Rightarrow> DispatcherId \<Rightarrow> 'g \<Rightarrow> SensorReading option \<times> 'g" where
  "generate_reading env d dispatcher g =
     (let (i, g1) = rand_int env 0 (int (length (md_sensor_ids d))) g; sensor_idx = nat i
      in if length (md_sensor_ids d) \<le> sensor_idx then (None, g1)
         else case generate_metric env sensor_idx g1 of
                (None, g2) \<Rightarrow> (None, g2)
              | (Some metric, g2) \<Rightarrow>
                  (let (u, g3) = mock_ulid env g2; (confidence, g4) = rand_int env 85 100 g3; (t, g5) = mock_now env g4
                   in (Some \<lparr>rd_id = ReadingId u, rd_device_id = md_device_id d, rd_dispatcher_id = dispatcher,
                         rd_metric = metric, rd_location = md_location d,
                         rd_confidence = Percentage (word_of_int confidence), rd_timestamp = t,
                         rd_sensor_id = md_sensor_ids d ! sensor_idx\<rparr>, g5)))"

fun generate_sensor_statuses :: "'g mock_env \<Rightarrow> SensorId list \<Rightarrow> 'g \<Rightarrow> SensorStatus list \<times> 'g" where
  "generate_sensor_statuses env [] g = ([], g)"
| "generate_sensor_statuses env (i # is) g =
     (let (ok, g1) = rand_ratio env 95 100 g; (t, g2) = mock_now env g1;
          (rest, g3) = generate_sensor_statuses env is g2
      in (\<lparr>ss_sensor_id = i, ss_state = (if ok then Sensor_Active else Sensor_Faulty), ss_last_reading = Some t\<rparr> # rest, g3))"

definition generate_status :: "'g mock_env \<Rightarrow> MockDevice \<Rightarrow> DispatcherId \<Rightarrow> 'g \<Rightarrow> DeviceStatus \<times> 'g" where
  "generate_status env d dispatcher g =
     (let (sensor_statuses, g1) = generate_sensor_statuses env (md_sensor_ids d) g;
          (low, g2) = rand_ratio env 5 100 g1;
          errors = (if low then [\<lparr>de_code = LowBattery, de_message = Some ''Battery below 20%''\<rparr>] else []);
          (u, g3) = mock_ulid env g2; (battery, g4) = rand_int env 20 100 g3;
          (uptime, g5) = rand_int env 3600 86400 g4; (rssi, g6) = rand_int env (- 80) (- 30) g5;
          (t, g7) = mock_now env g6
      in (\<lparr>ds_id = StatusId u, ds_device_id = md_device_id d, ds_dispatcher_id = dispatcher,
           ds_battery_percent = Percentage (word_of_int battery), ds_uptime_seconds = word_of_int uptime,
           ds_signal_rssi = word_of_int rssi, ds_errors = errors, ds_timestamp = t,
           ds_sensor_statuses = sensor_statuses\<rparr>, g7))"

subsection \<open>The receiver\<close>

record MockDeviceInfo =
  mi_device_id :: DeviceId
  mi_location :: H3Cell
  mi_sensor_ids :: "SensorId list"

record MockEdgeReceiver =
  mk_dispatcher_id :: DispatcherId
  mk_reading_interval :: u64
  mk_status_interval :: u64
  mk_devices :: "MockDevice list"

fun make_devices :: "'g mock_env \<Rightarrow> H3Cell list \<Rightarrow> 'g \<Rightarrow> MockDevice list \<times> 'g" where
  "make_devices env [] g = ([], g)"
| "make_devices env (c # cs) g =
     (let (d, g1) = MockDevice_new env c g; (ds, g2) = make_devices env cs g1 in (d # ds, g2))"

definition MockEdgeReceiver_new ::
    "'g mock_env \<Rightarrow> DispatcherId \<Rightarrow> u64 \<Rightarrow> u64 \<Rightarrow> nat \<Rightarrow> H3Cell \<Rightarrow> 'g \<Rightarrow> MockEdgeReceiver option \<times> 'g" where
  "MockEdgeReceiver_new env dispatcher reading_secs status_secs device_count center g =
     (case generate_nearby_cells env center device_count g of
        (None, g1) \<Rightarrow> (None, g1)
      | (Some cells, g1) \<Rightarrow>
          (let (ds, g2) = make_devices env cells g1
           in (Some \<lparr>mk_dispatcher_id = dispatcher, mk_reading_interval = reading_secs,
                 mk_status_interval = status_secs, mk_devices = ds\<rparr>, g2)))"

definition device_info :: "MockEdgeReceiver \<Rightarrow> MockDeviceInfo list" where
  "device_info r =
     map (\<lambda>d. \<lparr>mi_device_id = md_device_id d, mi_location = md_location d, mi_sensor_ids = md_sensor_ids d\<rparr>) (mk_devices r)"

text \<open>
  The two tasks of \<open>start\<close>, driven by what their \<open>select!\<close> sees.  A task ends when it is cancelled, when the
  channel is closed, or by a panic.
\<close>

datatype mock_event = Mock_cancelled | Mock_tick

datatype mock_outcome = Mock_running | Mock_stopped | Mock_closed | Mock_panicked

fun send_readings ::
    "'g mock_env \<Rightarrow> (EdgeData \<Rightarrow> 'c \<Rightarrow> (unit, unit) result \<times> 'c) \<Rightarrow> DispatcherId \<Rightarrow> MockDevice list \<Rightarrow> 'c \<times> 'g \<Rightarrow>
     mock_outcome \<times> 'c \<times> 'g" where
  "send_readings env send dispatcher [] (ch, g) = (Mock_running, ch, g)"
| "send_readings env send dispatcher (d # ds) (ch, g) =
     (case generate_reading env d dispatcher g of
        (None, g') \<Rightarrow> (Mock_panicked, ch, g')
      | (Some reading, g') \<Rightarrow>
          (case send (EdgeReading reading) ch of
             (Inl _, ch') \<Rightarrow> (Mock_closed, ch', g')
           | (Inr _, ch') \<Rightarrow> send_readings env send dispatcher ds (ch', g')))"

fun send_statuses ::
    "'g mock_env \<Rightarrow> (EdgeData \<Rightarrow> 'c \<Rightarrow> (unit, unit) result \<times> 'c) \<Rightarrow> DispatcherId \<Rightarrow> MockDevice list \<Rightarrow> 'c \<times> 'g \<Rightarrow>
     mock_outcome \<times> 'c \<times> 'g" where
  "send_statuses env send dispatcher [] (ch, g) = (Mock_running, ch, g)"
| "send_statuses env send dispatcher (d # ds) (ch, g) =
     (let (status, g') = generate_status env d dispatcher g
      in case send (EdgeStatus status) ch of
           (Inl _, ch') \<Rightarrow> (Mock_closed, ch', g')
         | (Inr _, ch') \<Rightarrow> send_statuses env send dispatcher ds (ch', g'))"

fun mock_task ::
    "('c \<times> 'g \<Rightarrow> mock_outcome \<times> 'c \<times> 'g) \<Rightarrow> mock_event list \<Rightarrow> 'c \<times> 'g \<Rightarrow> mock_outcome \<times> 'c \<times> 'g" where
  "mock_task tick [] s = (Mock_running, s)"
| "mock_task tick (Mock_cancelled # evs) s = (Mock_stopped, s)"
| "mock_task tick (Mock_tick # evs) s =
     (case tick s of
        (Mock_running, s') \<Rightarrow> mock_task tick evs s'
      | (stop, s') \<Rightarrow> (stop, s'))"

text \<open>\<open>tokio::time::interval\<close> panics on a period of zero.\<close>

definition interval_task ::
    "u64 \<Rightarrow> ('c \<times> 'g \<Rightarrow> mock_outcome \<times> 'c \<times> 'g) \<Rightarrow> mock_event list \<Rightarrow> 'c \<times> 'g \<Rightarrow> mock_outcome \<times> 'c \<times> 'g" where
  "interval_task period tick evs s = (if period = 0 then (Mock_panicked, s) else mock_task tick evs s)"

definition reading_task where
  "reading_task env send r =
     interval_task (mk_reading_interval r) (send_readings env send (mk_dispatcher_id r) (mk_devices r))"

definition status_task where
  "status_task env send r =
     interval_task (mk_status_interval r) (send_statuses env send (mk_dispatcher_id r) (mk_devices r))"

subsection \<open>Registration with prime\<close>

definition SENSOR_KINDS :: "string list" where
  "SENSOR_KINDS = [''soil_moisture'', ''soil_temp'', ''air_temp'', ''humidity'', ''rainfall'']"

text \<open>A \<open>POST\<close>: whether it was answered with success.  Failures are only logged.\<close>

definition post_ok ::
    "(http_request \<Rightarrow> 'w \<Rightarrow> (api_body http, 'e) result \<times> 'w) \<Rightarrow> string \<Rightarrow> payload \<Rightarrow> 'w \<Rightarrow> bool \<times> 'w" where
  "post_ok http url body w =
     (case http \<lparr>hr_method = POST, hr_url = url, hr_payload = body\<rparr> w of
        (Inr resp, w') \<Rightarrow> (is_success (http_status resp), w')
      | (Inl _, w') \<Rightarrow> (False, w'))"

definition mock_device_body :: "MockDeviceInfo \<Rightarrow> RegisterDeviceRequest" where
  "mock_device_body d =
     \<lparr>rdr_id = Some (device_ulid (mi_device_id d)), rdr_location = h3_index (mi_location d), rdr_kind = Some ''sensor'',
      rdr_manufacturer = Some ''ersha-mock'',
      rdr_sensors = map (\<lambda>(sid, kind). \<lparr>sreq_id = Some (sensor_ulid sid), sreq_kind = kind\<rparr>)
        (zip (mi_sensor_ids d) SENSOR_KINDS)\<rparr>"

fun register_mock_devices ::
    "(http_request \<Rightarrow> 'w \<Rightarrow> (api_body http, 'e) result \<times> 'w) \<Rightarrow> string \<Rightarrow> MockDeviceInfo list \<Rightarrow> u32 \<Rightarrow> u32 \<Rightarrow> 'w \<Rightarrow>
     (u32 \<times> u32) \<times> 'w" where
  "register_mock_devices http url [] registered failed w = ((registered, failed), w)"
| "register_mock_devices http url (d # ds) registered failed w =
     (case post_ok http (url @ ''/api/devices'') (Device_body (mock_device_body d)) w of
        (True, w') \<Rightarrow> register_mock_devices http url ds (registered + 1) failed w'
      | (False, w') \<Rightarrow> register_mock_devices http url ds registered (failed + 1) w')"

definition register_mock_entities ::
    "(http_request \<Rightarrow> 'w \<Rightarrow> (api_body http, 'e) result \<times> 'w) \<Rightarrow> string \<Rightarrow> DispatcherId \<Rightarrow> H3Cell \<Rightarrow> MockDeviceInfo list \<Rightarrow> 'w \<Rightarrow>
     (u32 \<times> u32) \<times> 'w" where
  "register_mock_entities http url dispatcher location infos w =
     (let (_, w1) = post_ok http (url @ ''/api/dispatchers'')
            (Dispatcher_body \<lparr>rpr_id = Some (dispatcher_ulid dispatcher), rpr_location = h3_index location\<rparr>) w
      in register_mock_devices http url infos 0 0 w1)"

text \<open>\<open>str::replace\<close> and the URL of prime.\<close>

function str_replace :: "string \<Rightarrow> string \<Rightarrow> string \<Rightarrow> string" where
  "str_replace from to_text s =
     (if s = [] \<or> from = [] then s
      else if take (length from) s = from then to_text @ str_replace from to_text (drop (length from) s)
      else hd s # str_replace from to_text (tl s))"
  by auto
termination by (relation "measure (\<lambda>(f, t, s). length s)") auto

declare str_replace.simps [simp del]

definition prime_http_url :: "string \<Rightarrow> string" where
  "prime_http_url rpc_addr = str_replace '':9000'' '':8080'' (''http://'' @ rpc_addr)"

text \<open>
  \<open>run_dispatcher\<close> up to \<open>run_edge_receiver\<close>: the receiver that is started, and what the registration of a
  mock receiver did to the world behind the HTTP client.
\<close>

datatype edge_receiver = Mock_receiver MockEdgeReceiver | Tcp_receiver string DispatcherId

definition run_dispatcher ::
    "'g mock_env \<Rightarrow> (http_request \<Rightarrow> 'w \<Rightarrow> (api_body http, 'e) result \<times> 'w) \<Rightarrow> 'tls DispatchConfig \<Rightarrow>
     DispatcherId \<Rightarrow> H3Cell \<Rightarrow> 'w \<times> 'g \<Rightarrow> edge_receiver option \<times> 'w \<times> 'g" where
  "run_dispatcher env http config dispatcher location s =
     (case cfg_edge config of
        Edge_Mock reading_secs status_secs device_count \<Rightarrow>
          (case MockEdgeReceiver_new env dispatcher reading_secs status_secs device_count location (snd s) of
             (None, g') \<Rightarrow> (None, fst s, g')
           | (Some receiver, g') \<Rightarrow>
               (let (_, w') = register_mock_entities http (prime_http_url (pcfg_rpc_addr (cfg_prime config))) dispatcher location
                      (device_info receiver) (fst s)
                in (Some (Mock_receiver receiver), w', g')))
      | Edge_Tcp addr \<Rightarrow> (Some (Tcp_receiver addr dispatcher), s))"

subsection \<open>Cells are distinct and not too many\<close>

lemma nearby_loop_spec:
  assumes "distinct cells" and "set seen = h3_index ` set cells" and "nearby_loop env centre wanted n cells seen g = (cells', g')"
  shows "distinct cells' \<and> (\<exists>more. cells' = cells @ more) \<and> length cells' \<le> max (length cells) wanted \<and>
    length cells' \<le> length cells + n"
  using assms
proof (induction n arbitrary: cells seen g)
  case (Suc n)
  show ?case
  proof (cases "length cells < wanted")
    case True
    obtain c g1 where draw: "draw_cell env centre g = (c, g1)" by fastforce
    show ?thesis
    proof (cases "\<exists>u. c = Some u \<and> u \<notin> set seen")
      case new: True
      then obtain u where u: "c = Some u" "u \<notin> set seen" by blast
      have loop: "nearby_loop env centre wanted n (cells @ [H3Cell u]) (u # seen) g1 = (cells', g')"
        using Suc.prems(3) True draw u by simp
      have "distinct (cells @ [H3Cell u])" "set (u # seen) = h3_index ` set (cells @ [H3Cell u])"
        using Suc.prems(1,2) u(2) by (auto simp: image_iff)
      from Suc.IH [OF this loop] True show ?thesis by auto
    next
      case False
      then have "nearby_loop env centre wanted n cells seen g1 = (cells', g')"
        using Suc.prems(3) True draw by (auto split: option.splits)
      from Suc.IH [OF Suc.prems(1,2) this] show ?thesis by auto
    qed
  qed (use Suc.prems in auto)
qed simp

text \<open>
  Cells of mock devices.  For a valid centre \<open>generate_nearby_cells\<close> returns, after at most ten
  draws for each cell that is wanted, a list of distinct cells that starts with the centre and is no
  longer than the number wanted, except that it has one cell when none is wanted.
\<close>

lemma mock_cells_bounded:
  assumes "cell_centre env (h3_index center) = Some centre"
  shows "\<exists>cells g' rest. generate_nearby_cells env center wanted g = (Some cells, g') \<and>
    cells = center # rest \<and> distinct cells \<and> length cells \<le> max 1 wanted \<and> (wanted = 0 \<longrightarrow> rest = [])"
proof -
  obtain cells g' where loop: "nearby_loop env centre wanted (wanted * 10) [center] [h3_index center] g = (cells, g')"
    by fastforce
  from nearby_loop_spec [OF _ _ this] show ?thesis
    using assms loop by (auto simp: generate_nearby_cells_def)
qed

subsection \<open>Generated data\<close>

text \<open>A number drawn from a range is in the range, and a floating point number from finite bounds is finite.\<close>

definition mock_env_ok :: "'g mock_env \<Rightarrow> bool" where
  "mock_env_ok env \<longleftrightarrow>
     (\<forall>lo hi g. lo < hi \<longrightarrow> lo \<le> fst (rand_int env lo hi g) \<and> fst (rand_int env lo hi g) < hi) \<and>
     (\<forall>a b g. a < b \<longrightarrow> (\<exists>v. fst (rand_f64 env (F64_Fin a) (F64_Fin b) g) = F64_Fin v \<and> a \<le> v \<and> v < b))"

lemma rand_int_range:
  "mock_env_ok env \<Longrightarrow> rand_int env lo hi g = (v, g') \<Longrightarrow> lo < hi \<Longrightarrow> lo \<le> v \<and> v < hi"
  unfolding mock_env_ok_def by (metis fst_conv)

lemma rand_f64_range:
  "mock_env_ok env \<Longrightarrow> rand_f64 env (F64_Fin a) (F64_Fin b) g = (x, g') \<Longrightarrow> a < b \<Longrightarrow> \<exists>v. x = F64_Fin v \<and> a \<le> v \<and> v < b"
  unfolding mock_env_ok_def by (metis fst_conv)

text \<open>The metric that the sensor at a position of a mock device reports.\<close>

fun metric_expected :: "nat \<Rightarrow> SensorMetric \<Rightarrow> bool" where
  "metric_expected i (SoilMoisture p) = (i = 0 \<and> 20 \<le> uint (percent p) \<and> uint (percent p) < 80)"
| "metric_expected i (SoilTemp x) = (i = 1 \<and> (\<exists>v. x = F64_Fin v \<and> 15 \<le> v \<and> v < 35))"
| "metric_expected i (AirTemp x) = (i = 2 \<and> (\<exists>v. x = F64_Fin v \<and> 10 \<le> v \<and> v < 40))"
| "metric_expected i (Humidity p) = (i = 3 \<and> 30 \<le> uint (percent p) \<and> uint (percent p) < 90)"
| "metric_expected i (Rainfall x) = (i = 4 \<and> (\<exists>v. x = F64_Fin v \<and> 0 \<le> v \<and> v < 50))"

lemma uint_small_byte: "0 \<le> v \<Longrightarrow> v < 256 \<Longrightarrow> uint (word_of_int v :: u8) = v"
  by (simp add: uint_word_of_int)

lemma generate_metric_expected:
  assumes "mock_env_ok env" and "i < 5"
  shows "\<exists>m g'. generate_metric env i g = (Some m, g') \<and> metric_expected i m"
proof -
  have int: "\<exists>v g'. rand_int env lo hi g = (v, g') \<and> lo \<le> v \<and> v < hi" if "lo < hi" for lo hi
    using rand_int_range [OF assms(1) _ that, of g] by (cases "rand_int env lo hi g") blast
  have flt: "\<exists>v g'. rand_f64 env (F64_Fin a) (F64_Fin b) g = (F64_Fin v, g') \<and> a \<le> v \<and> v < b" if "a < b" for a b
    using rand_f64_range [OF assms(1) _ that, of g] by (cases "rand_f64 env (F64_Fin a) (F64_Fin b) g") blast
  consider "i = 0" | "i = 1" | "i = 2" | "i = 3" | "i = 4" using assms(2) by linarith
  then show ?thesis
    using int [of 20 80] int [of 30 90] flt [of 15 35] flt [of 10 40] flt [of 0 50]
    by cases (auto simp: generate_metric_def NotNan_new_def uint_small_byte)
qed

lemma generate_reading_spec:
  assumes "mock_env_ok env" and "length (md_sensor_ids d) = 5"
  shows "\<exists>r i g'. generate_reading env d dispatcher g = (Some r, g') \<and> i < 5 \<and>
    rd_sensor_id r = md_sensor_ids d ! i \<and> metric_expected i (rd_metric r) \<and>
    rd_device_id r = md_device_id d \<and> rd_dispatcher_id r = dispatcher \<and> rd_location r = md_location d \<and>
    85 \<le> uint (percent (rd_confidence r)) \<and> uint (percent (rd_confidence r)) < 100"
proof -
  obtain v g1 where v: "rand_int env 0 5 g = (v, g1)" by fastforce
  then have range: "0 \<le> v \<and> v < 5" using rand_int_range [OF assms(1) v] by simp
  then have i: "nat v < 5" by linarith
  obtain m g2 where m: "generate_metric env (nat v) g1 = (Some m, g2)" "metric_expected (nat v) m"
    using generate_metric_expected [OF assms(1) i] by blast
  obtain u g3 where u: "mock_ulid env g2 = (u, g3)" by fastforce
  obtain c g4 where c: "rand_int env 85 100 g3 = (c, g4)" by fastforce
  obtain t g5 where t: "mock_now env g4 = (t, g5)" by fastforce
  have conf: "85 \<le> c \<and> c < 100" using rand_int_range [OF assms(1) c] by simp
  then have "uint (word_of_int c :: u8) = c" by (intro uint_small_byte) simp_all
  with v m u c t i conf assms(2) show ?thesis
    by (auto simp: generate_reading_def intro!: exI [of _ "nat v"])
qed

lemma generate_sensor_statuses_ids:
  "generate_sensor_statuses env is g = (ss, g') \<Longrightarrow> map ss_sensor_id ss = is \<and> (\<forall>s \<in> set ss. ss_state s \<noteq> Sensor_Inactive)"
  by (induction env "is" g arbitrary: ss g' rule: generate_sensor_statuses.induct)
    (auto simp: Let_def split: prod.splits if_splits)

lemma generate_status_spec:
  assumes "mock_env_ok env"
  shows "\<exists>st g'. generate_status env d dispatcher g = (st, g') \<and>
    ds_device_id st = md_device_id d \<and> ds_dispatcher_id st = dispatcher \<and>
    map ss_sensor_id (ds_sensor_statuses st) = md_sensor_ids d \<and>
    20 \<le> uint (percent (ds_battery_percent st)) \<and> uint (percent (ds_battery_percent st)) < 100"
proof -
  obtain ss g1 where ss: "generate_sensor_statuses env (md_sensor_ids d) g = (ss, g1)" by fastforce
  obtain lo g2 where lo: "rand_ratio env 5 100 g1 = (lo, g2)" by fastforce
  obtain u g3 where u: "mock_ulid env g2 = (u, g3)" by fastforce
  obtain b g4 where b: "rand_int env 20 100 g3 = (b, g4)" by fastforce
  obtain up g5 where up: "rand_int env 3600 86400 g4 = (up, g5)" by fastforce
  obtain rs g6 where rs: "rand_int env (- 80) (- 30) g5 = (rs, g6)" by fastforce
  obtain t g7 where t: "mock_now env g6 = (t, g7)" by fastforce
  have bat: "20 \<le> b \<and> b < 100" using rand_int_range [OF assms b] by simp
  then have "uint (word_of_int b :: u8) = b" by (intro uint_small_byte) simp_all
  with bat show ?thesis
    using generate_sensor_statuses_ids [OF ss] ss lo u b up rs t
    by (simp add: generate_status_def)
qed

subsection \<open>Ticks\<close>

lemma length_draw_ulids: "draw_ulids env n g = (us, g') \<Longrightarrow> length us = n"
  by (induction env n g arbitrary: us g' rule: draw_ulids.induct) (auto simp: Let_def split: prod.splits)

lemma make_devices_spec:
  "make_devices env cells g = (ds, g') \<Longrightarrow>
     map md_location ds = cells \<and> (\<forall>d \<in> set ds. length (md_sensor_ids d) = 5)"
  by (induction env cells g arbitrary: ds g' rule: make_devices.induct)
    (auto simp: Let_def MockDevice_new_def split: prod.splits dest!: length_draw_ulids)

text \<open>On an open channel a tick sends one reading for every device, in the order of the devices.\<close>

lemma send_readings_open:
  assumes "mock_env_ok env" and "\<forall>d \<in> set ds. length (md_sensor_ids d) = 5"
  shows "\<exists>rs g'. send_readings env open_channel dispatcher ds (ch, g) = (Mock_running, ch @ map EdgeReading rs, g') \<and>
    map rd_device_id rs = map md_device_id ds \<and> (\<forall>r \<in> set rs. rd_dispatcher_id r = dispatcher)"
  using assms(2)
proof (induction ds arbitrary: ch g)
  case (Cons d ds)
  obtain r g1 where r: "generate_reading env d dispatcher g = (Some r, g1)" "rd_device_id r = md_device_id d"
      "rd_dispatcher_id r = dispatcher"
    using generate_reading_spec [OF assms(1), of d dispatcher g] Cons.prems by auto
  obtain rs g' where rs: "send_readings env open_channel dispatcher ds (ch @ [EdgeReading r], g1) =
        (Mock_running, (ch @ [EdgeReading r]) @ map EdgeReading rs, g')"
      "map rd_device_id rs = map md_device_id ds" "\<forall>r \<in> set rs. rd_dispatcher_id r = dispatcher"
    using Cons.IH [of "ch @ [EdgeReading r]" g1] Cons.prems by auto
  show ?case
    using r rs by (intro exI [of _ "r # rs"] exI [of _ g']) (simp add: open_channel_def [of "EdgeReading r" ch])
qed simp

lemma send_statuses_open:
  assumes "mock_env_ok env"
  shows "\<exists>ss g'. send_statuses env open_channel dispatcher ds (ch, g) = (Mock_running, ch @ map EdgeStatus ss, g') \<and>
    map ds_device_id ss = map md_device_id ds \<and>
    (\<forall>s \<in> set ss. 20 \<le> uint (percent (ds_battery_percent s)))"
proof (induction ds arbitrary: ch g)
  case (Cons d ds)
  obtain st g1 where st: "generate_status env d dispatcher g = (st, g1)" "ds_device_id st = md_device_id d"
      "20 \<le> uint (percent (ds_battery_percent st))"
    using generate_status_spec [OF assms(1), of d dispatcher g] by auto
  obtain ss g' where ss: "send_statuses env open_channel dispatcher ds (ch @ [EdgeStatus st], g1) =
        (Mock_running, (ch @ [EdgeStatus st]) @ map EdgeStatus ss, g')"
      "map ds_device_id ss = map md_device_id ds" "\<forall>s \<in> set ss. 20 \<le> uint (percent (ds_battery_percent s))"
    using Cons.IH [of "ch @ [EdgeStatus st]" g1] by auto
  show ?case
    using st ss by (intro exI [of _ "st # ss"] exI [of _ g']) (simp add: open_channel_def [of "EdgeStatus st" ch])
qed simp

lemma mock_task_ticks:
  assumes "\<And>ch g. \<exists>xs g'. tick (ch, g) = (Mock_running, ch @ map f xs, g') \<and> map key_of xs = ks \<and> (\<forall>x \<in> set xs. P x)"
  shows "\<exists>xs g'. mock_task tick (replicate n Mock_tick) (ch, g) = (Mock_running, ch @ map f xs, g') \<and>
    map key_of xs = concat (replicate n ks) \<and> (\<forall>x \<in> set xs. P x)"
proof (induction n arbitrary: ch g)
  case (Suc n)
  obtain xs g1 where xs: "tick (ch, g) = (Mock_running, ch @ map f xs, g1)" "map key_of xs = ks" "\<forall>x \<in> set xs. P x"
    using assms by blast
  obtain ys g2 where ys: "mock_task tick (replicate n Mock_tick) (ch @ map f xs, g1) =
        (Mock_running, (ch @ map f xs) @ map f ys, g2)" "map key_of ys = concat (replicate n ks)" "\<forall>x \<in> set ys. P x"
    using Suc.IH [of "ch @ map f xs" g1] by blast
  show ?case
    using xs ys by (intro exI [of _ "xs @ ys"] exI [of _ g2]) auto
qed simp

lemma interval_task_runs: "period \<noteq> 0 \<Longrightarrow> interval_task period tick = mock_task tick"
  by (simp add: interval_task_def fun_eq_iff)

lemma ticks_keys:
  assumes "map f xs = concat (replicate n (map h ds))"
  shows "\<forall>x \<in> set xs. \<exists>d \<in> set ds. f x = h d"
proof
  fix x assume "x \<in> set xs"
  then have "f x \<in> set (map f xs)" by simp
  then show "\<exists>d \<in> set ds. f x = h d" unfolding assms by (auto split: if_splits)
qed

subsection \<open>Registration over HTTP\<close>

text \<open>The mock devices as prime keeps them.\<close>

definition mock_sensors :: "SensorId list \<Rightarrow> Sensor list" where
  "mock_sensors is =
     map (\<lambda>(i, kind). \<lparr>sensor_id = i, sensor_metric = default_metric_for_kind kind, sensor_kind = kind\<rparr>)
       (zip is [SK_SoilMoisture, SK_SoilTemp, SK_AirTemp, SK_Humidity, SK_Rainfall])"

definition mock_registered :: "timestamp \<Rightarrow> MockDeviceInfo \<Rightarrow> Device" where
  "mock_registered now d =
     \<lparr>dev_id = mi_device_id d, dev_kind = DK_Sensor, dev_state = Device_Active, dev_location = mi_location d,
      dev_manufacturer = Some ''ersha-mock'', dev_provisioned_at = now, dev_sensors = mock_sensors (mi_sensor_ids d)\<rparr>"

lemma parse_sensors_given:
  "list_all2 (\<lambda>k kind. parse_sensor_kind k = Some kind) ks kinds \<Longrightarrow>
     parse_sensors env (map (\<lambda>(sid, k). \<lparr>sreq_id = Some (sensor_ulid sid), sreq_kind = k\<rparr>) (zip is ks)) acc g =
       (Ok (acc @ map (\<lambda>(i, kind). \<lparr>sensor_id = i, sensor_metric = default_metric_for_kind kind, sensor_kind = kind\<rparr>)
         (zip is kinds)), g)"
proof (induction ks kinds arbitrary: "is" acc rule: list_all2_induct)
  case (Cons k ks kind kinds)
  then show ?case by (cases "is") (simp_all add: unwrap_or_new_def)
qed simp

lemma register_mock_device:
  "register_device env (in_memory_devices dord low) now (mock_device_body d) st g =
     (Json CREATED (DeviceResponse_from env (mock_registered now d)),
      st\<lparr>api_devices := snd (imd_register (mock_registered now d) (api_devices st))\<rparr>, g)"
proof -
  have "list_all2 (\<lambda>k kind. parse_sensor_kind k = Some kind) SENSOR_KINDS
      [SK_SoilMoisture, SK_SoilTemp, SK_AirTemp, SK_Humidity, SK_Rainfall]"
    by (simp add: SENSOR_KINDS_def parse_sensor_kind_def)
  from parse_sensors_given [OF this, of env "mi_sensor_ids d" "[]" g] show ?thesis
    by (simp add: register_device_def mock_device_body_def unwrap_or_new_def mock_registered_def mock_sensors_def
        in_memory_devices_def imd_register_def Let_def)
qed

abbreviation mem_http where
  "mem_http env decode pord dord low now fallback base \<equiv>
     http_loopback env (in_memory_dispatchers pord) (in_memory_devices dord low) in_memory_error_show decode now fallback base"

lemma loopback_post:
  assumes "find_route api_routes POST (path_segments path) = Some (ep, vs)"
    and "run_endpoint env (in_memory_dispatchers pord) (in_memory_devices dord low) in_memory_error_show now ep
      (map decode vs) p st g = Some (h, st', g')"
  shows "post_ok (mem_http env decode pord dord low now fallback base) (base @ path) p (st, g) =
    (is_success (http_status h), (st', g'))"
  using assms by (simp add: post_ok_def http_loopback_def api_router_def)

lemma post_mock_device:
  "post_ok (mem_http env decode pord dord low now fallback base) (base @ ''/api/devices'') (Device_body (mock_device_body d)) (st, g) =
     (True, (st\<lparr>api_devices := snd (imd_register (mock_registered now d) (api_devices st))\<rparr>, g))"
proof -
  have "run_endpoint env (in_memory_dispatchers pord) (in_memory_devices dord low) in_memory_error_show now
      Ep_register_device (map decode []) (Device_body (mock_device_body d)) st g =
      Some (map_http Device_json (Json CREATED (DeviceResponse_from env (mock_registered now d))),
        st\<lparr>api_devices := snd (imd_register (mock_registered now d) (api_devices st))\<rparr>, g)"
    by (simp add: run_endpoint_def register_mock_device)
  from loopback_post [OF find_routes(5) [folded collection_paths(2)] this] show ?thesis
    by (simp add: is_success_def)
qed

lemma register_mock_devices_mem:
  "register_mock_devices (mem_http env decode pord dord low now fallback base) base infos registered failed (st, g) =
     ((registered + of_nat (length infos), failed),
      (st\<lparr>api_devices := fold (\<lambda>d m. snd (imd_register (mock_registered now d) m)) infos (api_devices st)\<rparr>, g))"
  by (induction infos arbitrary: registered st)
    (simp_all only: register_mock_devices.simps post_mock_device prod.case bool.case, simp_all)

lemma imd_get_registered:
  "distinct (map mi_device_id infos) \<Longrightarrow> d \<in> set infos \<Longrightarrow>
     imd_get (mi_device_id d) (fold (\<lambda>d m. snd (imd_register (mock_registered now d) m)) infos m) = Ok (Some (mock_registered now d))"
proof (induction infos arbitrary: m rule: rev_induct)
  case (snoc x infos)
  have "mi_device_id d \<noteq> mi_device_id x" if "d \<noteq> x"
    using snoc.prems that by (auto simp: image_iff)
  with snoc show ?case
    by (cases "d = x") (simp_all add: imd_register_def imd_get_def hm_simps, simp_all add: mock_registered_def)
qed simp

definition mock_dispatcher :: "DispatcherId \<Rightarrow> H3Cell \<Rightarrow> timestamp \<Rightarrow> Dispatcher" where
  "mock_dispatcher i location now =
     \<lparr>disp_id = i, disp_location = location, disp_state = Dispatcher_Active, disp_provisioned_at = now\<rparr>"

lemma register_mock_entities_mem:
  "register_mock_entities (mem_http env decode pord dord low now fallback base) base dispatcher location infos (st, g) =
     ((of_nat (length infos), 0),
      (st\<lparr>api_dispatchers := snd (imp_register (mock_dispatcher dispatcher location now) (api_dispatchers st)),
          api_devices := fold (\<lambda>d m. snd (imd_register (mock_registered now d) m)) infos (api_devices st)\<rparr>, g))"
proof -
  let ?st = "st\<lparr>api_dispatchers := snd (imp_register (mock_dispatcher dispatcher location now) (api_dispatchers st))\<rparr>"
  have "run_endpoint env (in_memory_dispatchers pord) (in_memory_devices dord low) in_memory_error_show now
      Ep_register_dispatcher (map decode [])
      (Dispatcher_body \<lparr>rpr_id = Some (dispatcher_ulid dispatcher), rpr_location = h3_index location\<rparr>) st g =
      Some (map_http Dispatcher_json (Json CREATED (DispatcherResponse_from env (mock_dispatcher dispatcher location now))), ?st, g)"
    by (simp add: run_endpoint_def register_dispatcher_def unwrap_or_new_def mock_dispatcher_def in_memory_dispatchers_def imp_register_def Let_def)
  note post = loopback_post [OF find_routes(1) [folded collection_paths(1)] this]
  show ?thesis
    unfolding register_mock_entities_def post Let_def prod.case register_mock_devices_mem by simp
qed

subsection \<open>From the mock devices to prime\<close>

lemma device_info_ids: "map mi_device_id (device_info r) = map md_device_id (mk_devices r)"
  by (simp add: device_info_def)

lemma run_dispatcher_mock:
  assumes "run_dispatcher menv http config dispatcher location (w, g) = (Some (Mock_receiver r), w', g')"
  shows "\<exists>c. cfg_edge config = Edge_Mock (mk_reading_interval r) (mk_status_interval r) c"
    "mk_dispatcher_id r = dispatcher" "\<forall>d \<in> set (mk_devices r). length (md_sensor_ids d) = 5"
    "w' = snd (register_mock_entities http (prime_http_url (pcfg_rpc_addr (cfg_prime config))) dispatcher location
      (device_info r) w)"
  using assms
  by (auto simp: run_dispatcher_def MockEdgeReceiver_new_def split: EdgeConfig.splits prod.splits option.splits
      dest: make_devices_spec)

text \<open>After the registration prime knows the devices of the receiver.\<close>

lemma mock_devices_known:
  assumes "api_devices st' = fold (\<lambda>d m. snd (imd_register (mock_registered now d) m)) (device_info r) m"
    and "distinct (map md_device_id (mk_devices r))" and "d \<in> set (mk_devices r)"
  shows "mem_known \<lparr>dispatcher_registry = p, device_registry = api_devices st', reading_registry = rd,
    device_status_registry = sr\<rparr> (md_device_id d)"
proof -
  let ?x = "\<lparr>mi_device_id = md_device_id d, mi_location = md_location d, mi_sensor_ids = md_sensor_ids d\<rparr>"
  have x: "?x \<in> set (device_info r)" "mi_device_id ?x = md_device_id d"
    using assms(3) by (auto simp: device_info_def)
  have "imd_get (mi_device_id ?x) (api_devices st') = Ok (Some (mock_registered now ?x))"
    unfolding assms(1) by (rule imd_get_registered [OF _ x(1)]) (simp add: device_info_ids assms(2))
  with x(2) show ?thesis by (simp add: mem_known_def)
qed

lemma batch_all_known:
  assumes "\<forall>x \<in> set rs. mem_known app (rd_device_id x)" and "\<forall>x \<in> set ss. mem_known app (ds_device_id x)"
  shows "fst (mem_on_batch_upload dord low rord sord
      \<lparr>bu_id = b, bu_dispatcher_id = dispatcher, bu_readings = rs, bu_statuses = ss, bu_timestamp = t\<rparr> i app) =
     \<lparr>br_id = b, br_readings_stored = of_nat (length rs), br_readings_rejected = 0,
      br_statuses_stored = of_nat (length ss), br_statuses_rejected = 0\<rparr>"
  using assms by (simp add: mem_on_batch_upload_eq Let_def filter_id_conv [THEN iffD2] filter_False)

lemma no_battery_alert: "\<forall>s \<in> set ss. 20 \<le> uint (percent (ds_battery_percent s)) \<Longrightarrow> fold (check_battery cenv) ss c = c"
proof (induction ss)
  case (Cons s ss)
  then have "\<not> percent (ds_battery_percent s) < 10" by (simp add: word_less_def)
  with Cons show ?case by (simp add: check_battery_def)
qed simp


subsection \<open>Witnesses\<close>

text \<open>A source that counts: ranges give their lower end, and cells are the latitudes it is asked for.\<close>

definition sample_mock :: "ulid mock_env" where
  "sample_mock =
     \<lparr>rand_int = (\<lambda>lo hi g. (lo, g)), rand_f64 = (\<lambda>lo hi g. (lo, g)), rand_ratio = (\<lambda>a b g. (True, g)),
      mock_ulid = (\<lambda>g. (g, g + 1)), mock_now = (\<lambda>g. (0, g)),
      cell_centre = (\<lambda>_. Some (F64_Fin 9, F64_Fin 38)), cell_at = (\<lambda>_ _. Some 7)\<rparr>"

lemma sample_mock_ok: "mock_env_ok sample_mock"
  by (simp add: mock_env_ok_def sample_mock_def)

definition sample_mock_config :: "unit DispatchConfig" where
  "sample_mock_config = DispatchConfig_default ()\<lparr>cfg_edge := Edge_Mock 5 30 2\<rparr>"

definition sample_mock_devices :: "MockDevice list" where
  "sample_mock_devices =
     [\<lparr>md_device_id = DeviceId 0, md_sensor_ids = map SensorId [1, 2, 3, 4, 5], md_location = H3Cell 5\<rparr>,
      \<lparr>md_device_id = DeviceId 6, md_sensor_ids = map SensorId [7, 8, 9, 10, 11], md_location = H3Cell 7\<rparr>]"

lemma sample_mock_receiver:
  "MockEdgeReceiver_new sample_mock (DispatcherId 4) 5 30 2 (H3Cell 5) 0 =
     (Some \<lparr>mk_dispatcher_id = DispatcherId 4, mk_reading_interval = 5, mk_status_interval = 30,
        mk_devices = sample_mock_devices\<rparr>, 12)"
  by (simp add: MockEdgeReceiver_new_def generate_nearby_cells_def sample_mock_def draw_cell_def MockDevice_new_def
      sample_mock_devices_def numeral_eq_Suc)

abbreviation sample_mock_http :: "http_request \<Rightarrow> ulid mem_api \<Rightarrow> (api_body http, unit) result \<times> ulid mem_api" where
  "sample_mock_http \<equiv> mem_http sample_env id forward_order forward_order id 7 (Text NOT_FOUND [])
     (prime_http_url (pcfg_rpc_addr (cfg_prime sample_mock_config)))"


end
