(* ===== verification/Tls.thy ===== *)
theory Tls
  imports Ersha_Prelude
begin

text \<open>
  The TLS settings of prime and the dispatchers (\<open>ersha-tls/src/lib.rs\<close>): the configuration, its
  defaults, and the two functions that read certificates and keys and build the settings of a server
  and of a client, with every error they return.

  Opening files, the PEM parser and the checks of \<open>rustls\<close> are arguments (the record \<open>tls_env\<close>).  A
  root store is the list of the certificates added to it; a built configuration is the record of what
  was given to its builder.
\<close>

datatype ('io, 're) TlsError =
    CertFileIo 'io
  | CertPem 'io
  | KeyPem 'io
  | NoPrivateKey string
  | RootCertError 're
  | ServerConfigError 're
  | ClientConfigError 're

record TlsConfig =
  tls_cert :: string
  tls_key :: string
  tls_root_ca :: string
  tls_domain :: string

definition TlsConfig_server_default :: TlsConfig where
  "TlsConfig_server_default =
     \<lparr>tls_cert = ''./keys/server.crt'', tls_key = ''./keys/server.key'', tls_root_ca = ''./keys/root_ca.crt'',
      tls_domain = ''localhost''\<rparr>"

definition TlsConfig_client_default :: TlsConfig where
  "TlsConfig_client_default =
     \<lparr>tls_cert = ''./keys/client.crt'', tls_key = ''./keys/client.key'', tls_root_ca = ''./keys/root_ca.crt'',
      tls_domain = ''localhost''\<rparr>"

definition TlsConfig_default :: TlsConfig where
  "TlsConfig_default =
     \<lparr>tls_cert = ''./keys/cert.pem'', tls_key = ''./keys/private.key'', tls_root_ca = ''./keys/rootCA.pem'',
      tls_domain = ''localhost''\<rparr>"

text \<open>
  \<open>pem_certs\<close> is the iterator of \<open>rustls_pemfile::certs\<close>.  The last four fields are the errors of
  \<open>RootCertStore::add\<close>, of building a verifier of client certificates (as text), of using a
  certificate chain with a key, and the error \<open>General\<close>.
\<close>

record ('file, 'io, 'cert, 'key, 're) tls_env =
  open_file :: "string \<Rightarrow> ('file, 'io) result"
  pem_certs :: "'file \<Rightarrow> ('cert, 'io) result list"
  pem_private_key :: "'file \<Rightarrow> ('key option, 'io) result"
  root_refused :: "'cert \<Rightarrow> 're option"
  verifier_refused :: "'cert list \<Rightarrow> string option"
  identity_refused :: "'cert list \<Rightarrow> 'key \<Rightarrow> 're option"
  general_error :: "string \<Rightarrow> 're"

record ('cert, 'key) tls_built =
  built_roots :: "'cert list"
  built_chain :: "'cert list"
  built_key :: 'key

subsection \<open>Reading the files\<close>

fun add_roots ::
    "('file, 'io, 'cert, 'key, 're) tls_env \<Rightarrow> ('cert, 'io) result list \<Rightarrow> 'cert list \<Rightarrow>
     ('cert list, ('io, 're) TlsError) result" where
  "add_roots env [] store = Ok store"
| "add_roots env (Inl e # certs) store = Err (CertPem e)"
| "add_roots env (Inr cert # certs) store =
     (case root_refused env cert of
        Some e \<Rightarrow> Err (RootCertError e)
      | None \<Rightarrow> add_roots env certs (store @ [cert]))"

definition read_roots ::
    "('file, 'io, 'cert, 'key, 're) tls_env \<Rightarrow> TlsConfig \<Rightarrow> ('cert list, ('io, 're) TlsError) result" where
  "read_roots env config =
     (case open_file env (tls_root_ca config) of
        Inl e \<Rightarrow> Err (CertFileIo e)
      | Inr ca_file \<Rightarrow> add_roots env (pem_certs env ca_file) [])"

text \<open>Collecting an iterator of results stops at the first error.\<close>

fun collect_results :: "('a, 'e) result list \<Rightarrow> ('a list, 'e) result" where
  "collect_results [] = Ok []"
| "collect_results (Inl e # xs) = Err e"
| "collect_results (Inr x # xs) =
     (case collect_results xs of Inl e \<Rightarrow> Err e | Inr ys \<Rightarrow> Ok (x # ys))"

definition read_chain ::
    "('file, 'io, 'cert, 'key, 're) tls_env \<Rightarrow> TlsConfig \<Rightarrow> ('cert list, ('io, 're) TlsError) result" where
  "read_chain env config =
     (case open_file env (tls_cert config) of
        Inl e \<Rightarrow> Err (CertFileIo e)
      | Inr cert_file \<Rightarrow>
          (case collect_results (pem_certs env cert_file) of
             Inl e \<Rightarrow> Err (CertPem e)
           | Inr chain \<Rightarrow> Ok chain))"

definition read_key ::
    "('file, 'io, 'cert, 'key, 're) tls_env \<Rightarrow> TlsConfig \<Rightarrow> ('key, ('io, 're) TlsError) result" where
  "read_key env config =
     (case open_file env (tls_key config) of
        Inl e \<Rightarrow> Err (CertFileIo e)
      | Inr key_file \<Rightarrow>
          (case pem_private_key env key_file of
             Inl e \<Rightarrow> Err (KeyPem e)
           | Inr None \<Rightarrow> Err (NoPrivateKey (tls_key config))
           | Inr (Some k) \<Rightarrow> Ok k))"

subsection \<open>The two configurations\<close>

definition server_config ::
    "('file, 'io, 'cert, 'key, 're) tls_env \<Rightarrow> TlsConfig \<Rightarrow> (('cert, 'key) tls_built, ('io, 're) TlsError) result" where
  "server_config env config =
     (case read_roots env config of
        Inl e \<Rightarrow> Err e
      | Inr roots \<Rightarrow>
          (case verifier_refused env roots of
             Some text \<Rightarrow> Err (ServerConfigError (general_error env text))
           | None \<Rightarrow>
               (case read_chain env config of
                  Inl e \<Rightarrow> Err e
                | Inr chain \<Rightarrow>
                    (case read_key env config of
                       Inl e \<Rightarrow> Err e
                     | Inr k \<Rightarrow>
                         (case identity_refused env chain k of
                            Some e \<Rightarrow> Err (ServerConfigError e)
                          | None \<Rightarrow> Ok \<lparr>built_roots = roots, built_chain = chain, built_key = k\<rparr>)))))"

definition client_config ::
    "('file, 'io, 'cert, 'key, 're) tls_env \<Rightarrow> TlsConfig \<Rightarrow> (('cert, 'key) tls_built, ('io, 're) TlsError) result" where
  "client_config env config =
     (case read_roots env config of
        Inl e \<Rightarrow> Err e
      | Inr roots \<Rightarrow>
          (case read_chain env config of
             Inl e \<Rightarrow> Err e
           | Inr chain \<Rightarrow>
               (case read_key env config of
                  Inl e \<Rightarrow> Err e
                | Inr k \<Rightarrow>
                    (case identity_refused env chain k of
                       Some e \<Rightarrow> Err (ClientConfigError e)
                     | None \<Rightarrow> Ok \<lparr>built_roots = roots, built_chain = chain, built_key = k\<rparr>))))"

subsection \<open>What is trusted\<close>

lemma add_roots_Ok:
  "add_roots env certs store = Ok roots \<longleftrightarrow>
     (\<exists>cs. certs = map Inr cs \<and> (\<forall>c \<in> set cs. root_refused env c = None) \<and> roots = store @ cs)"
proof (induction env certs store rule: add_roots.induct)
  case (3 env cert certs store)
  show ?case
  proof (cases "root_refused env cert")
    case None
    with 3 show ?thesis by (auto simp: Cons_eq_map_conv)
  next
    case (Some e)
    then show ?thesis by (auto simp: Cons_eq_map_conv)
  qed
qed auto

lemma collect_results_map [simp]: "collect_results (map Inr ys) = Ok ys"
  by (induction ys) simp_all

lemma collect_results_Ok: "collect_results xs = Ok ys \<longleftrightarrow> xs = map Inr ys"
proof
  show "collect_results xs = Ok ys \<Longrightarrow> xs = map Inr ys"
    by (induction xs arbitrary: ys rule: collect_results.induct) (auto split: sum.splits)
qed simp

definition tls_material ::
    "('file, 'io, 'cert, 'key, 're) tls_env \<Rightarrow> TlsConfig \<Rightarrow> ('cert, 'key) tls_built \<Rightarrow> bool" where
  "tls_material env config b \<longleftrightarrow>
     (\<exists>ca_file. open_file env (tls_root_ca config) = Ok ca_file \<and> pem_certs env ca_file = map Inr (built_roots b)) \<and>
     (\<forall>c \<in> set (built_roots b). root_refused env c = None) \<and>
     (\<exists>cert_file. open_file env (tls_cert config) = Ok cert_file \<and> pem_certs env cert_file = map Inr (built_chain b)) \<and>
     (\<exists>key_file. open_file env (tls_key config) = Ok key_file \<and> pem_private_key env key_file = Ok (Some (built_key b))) \<and>
     identity_refused env (built_chain b) (built_key b) = None"

lemma read_roots_Ok:
  "read_roots env config = Ok roots \<longleftrightarrow>
     (\<exists>f. open_file env (tls_root_ca config) = Ok f \<and> pem_certs env f = map Inr roots) \<and>
     (\<forall>c \<in> set roots. root_refused env c = None)"
  by (auto simp: read_roots_def add_roots_Ok split: sum.splits)

lemma read_chain_Ok:
  "read_chain env config = Ok chain \<longleftrightarrow>
     (\<exists>f. open_file env (tls_cert config) = Ok f \<and> pem_certs env f = map Inr chain)"
  by (auto simp: read_chain_def collect_results_Ok split: sum.splits)

lemma read_key_Ok:
  "read_key env config = Ok k \<longleftrightarrow>
     (\<exists>f. open_file env (tls_key config) = Ok f \<and> pem_private_key env f = Ok (Some k))"
  by (auto simp: read_key_def split: sum.splits option.splits)

lemma client_config_Ok: "client_config env config = Ok b \<longleftrightarrow> tls_material env config b"
proof -
  have "client_config env config = Ok b \<longleftrightarrow> read_roots env config = Ok (built_roots b) \<and>
      read_chain env config = Ok (built_chain b) \<and> read_key env config = Ok (built_key b) \<and>
      identity_refused env (built_chain b) (built_key b) = None"
    by (auto simp: client_config_def split: sum.splits option.splits)
  then show ?thesis
    by (simp add: read_roots_Ok read_chain_Ok read_key_Ok tls_material_def conj_ac)
qed

lemma server_config_Ok:
  "server_config env config = Ok b \<longleftrightarrow> tls_material env config b \<and> verifier_refused env (built_roots b) = None"
proof -
  have "server_config env config = Ok b \<longleftrightarrow> read_roots env config = Ok (built_roots b) \<and>
      read_chain env config = Ok (built_chain b) \<and> read_key env config = Ok (built_key b) \<and>
      identity_refused env (built_chain b) (built_key b) = None \<and> verifier_refused env (built_roots b) = None"
    by (auto simp: server_config_def split: sum.splits option.splits)
  then show ?thesis
    by (simp add: read_roots_Ok read_chain_Ok read_key_Ok tls_material_def conj_ac)
qed

text \<open>
  A certificate that does not parse, or that the store refuses, makes the configuration fail: none is
  dropped silently.
\<close>

lemma tls_no_certificate_dropped:
  assumes "open_file env (tls_root_ca config) = Ok ca_file" and "Inl e \<in> set (pem_certs env ca_file)"
  shows "\<nexists>b. server_config env config = Ok b" and "\<nexists>b. client_config env config = Ok b"
  using assms by (auto simp: server_config_Ok client_config_Ok tls_material_def)

text \<open>
  C23.  Mutual authentication.  A server and a client are built exactly from the certificates of their root
  file, all of them, and the chain and key of their own files; both are refused unless chain and key fit,
  and the server is refused unless a verifier of client certificates can be built on its roots.  With
  the same root file each side trusts exactly the certificates the other trusts.
\<close>

theorem tls_mutual_trust:
  assumes "server_config env sconf = Ok sb" and "client_config env cconf = Ok cb"
    and "tls_root_ca sconf = tls_root_ca cconf"
  shows "tls_material env sconf sb \<and> tls_material env cconf cb \<and>
    verifier_refused env (built_roots sb) = None \<and> built_roots sb = built_roots cb"
proof -
  have s: "tls_material env sconf sb" "verifier_refused env (built_roots sb) = None"
    and c: "tls_material env cconf cb"
    using assms by (simp_all add: server_config_Ok client_config_Ok)
  then obtain f where "pem_certs env f = map Inr (built_roots sb)" "pem_certs env f = map Inr (built_roots cb)"
    using assms(3) by (auto simp: tls_material_def)
  then have "built_roots sb = built_roots cb"
    by (simp add: inj_map_eq_map)
  with s c show ?thesis by simp
qed

definition sample_tls :: "(string, unit, nat, nat, unit) tls_env" where
  "sample_tls =
     \<lparr>open_file = (\<lambda>p. Ok p), pem_certs = (\<lambda>f. [Ok (length f), Ok 2]), pem_private_key = (\<lambda>f. Ok (Some (length f))),
      root_refused = (\<lambda>_. None), verifier_refused = (\<lambda>roots. if roots = [] then Some ''no root anchors'' else None),
      identity_refused = (\<lambda>_ _. None), general_error = (\<lambda>_. ())\<rparr>"

theorem tls_mutual_trust_witness:
  "\<exists>sb cb. server_config sample_tls TlsConfig_server_default = Ok sb \<and>
     client_config sample_tls TlsConfig_client_default = Ok cb \<and> built_roots sb = [18, 2] \<and> built_roots sb = built_roots cb"
proof -
  obtain sb cb where b: "server_config sample_tls TlsConfig_server_default = Ok sb" "built_roots sb = [18, 2]"
      "client_config sample_tls TlsConfig_client_default = Ok cb"
    by (simp add: server_config_def client_config_def read_roots_def read_chain_def read_key_def sample_tls_def
        TlsConfig_server_default_def TlsConfig_client_default_def)
  have "tls_root_ca TlsConfig_server_default = tls_root_ca TlsConfig_client_default"
    by (simp add: TlsConfig_server_default_def TlsConfig_client_default_def)
  from tls_mutual_trust [OF b(1,3) this] b show ?thesis by blast
qed

end
