(* ===== verification/Dispatch_Start.thy ===== *)
theory Dispatch_Start
  imports Dispatch_Mock Dispatch_Sqlite Tls
begin

text \<open>
  The start and the end of a dispatcher: \<open>main\<close> and \<open>run_edge_receiver\<close> of \<open>ersha-dispatch/src/main.rs\<close>.  Binding a
  socket, parsing an identifier and the content of a SQLite file are arguments.  What a started dispatcher
  runs are the collector and the uploader of \<open>Dispatch_Main\<close>, on clones of one storage and one shared state.
\<close>

datatype ('pe, 'se, 'be) dispatch_error =
    Invalid_dispatcher_id string 'pe
  | Storage_failed 'se
  | Start_panicked
  | Edge_failed 'be
  | Http_failed 'be

record ('s, 'p) dispatch_process =
  dp_receiver :: edge_receiver
  dp_collector :: "'s collector"
  dp_uploader :: "('s, 'p) uploader"
  dp_prime_addr :: string
  dp_upload_interval :: u64
  dp_tls :: TlsConfig

text \<open>\<open>start\<close> of the two receivers: the mock receiver cannot fail, the other one binds its address.\<close>

definition start_edge :: "(string \<Rightarrow> (unit, 'be) result) \<Rightarrow> edge_receiver \<Rightarrow> (unit, 'be) result" where
  "start_edge bind receiver = (case receiver of Mock_receiver _ \<Rightarrow> Ok () | Tcp_receiver addr _ \<Rightarrow> bind addr)"

definition run_edge_receiver ::
    "(string \<Rightarrow> (unit, 'be) result) \<Rightarrow> edge_receiver \<Rightarrow> 's \<Rightarrow> DispatcherInner \<Rightarrow> 'p \<Rightarrow> TlsConfig DispatchConfig \<Rightarrow>
     (('s, 'p) dispatch_process, ('pe, 'se, 'be) dispatch_error) result" where
  "run_edge_receiver bind receiver storage state peer config =
     (case start_edge bind receiver of
        Inl e \<Rightarrow> Err (Edge_failed e)
      | Inr _ \<Rightarrow>
          (case bind (scfg_http_addr (cfg_server config)) of
             Inl e \<Rightarrow> Err (Http_failed e)
           | Inr _ \<Rightarrow>
               Ok \<lparr>dp_receiver = receiver,
                   dp_collector = \<lparr>co_storage = storage, co_state = state, co_count = 0\<rparr>,
                   dp_uploader = uploader_start \<lparr>w_storage = storage, w_state = state, w_peer = peer\<rparr>,
                   dp_prime_addr = pcfg_rpc_addr (cfg_prime config),
                   dp_upload_interval = pcfg_upload_interval_secs (cfg_prime config), dp_tls = cfg_tls config\<rparr>))"

text \<open>
  The wait at the end of \<open>run_edge_receiver\<close>.  Only the signal cancels the tasks; when the HTTP server ends
  first they are awaited without being cancelled.
\<close>

datatype shutdown_cause = Http_server_ended | Ctrl_c

definition tasks_cancelled :: "shutdown_cause \<Rightarrow> bool" where
  "tasks_cancelled cause = (case cause of Ctrl_c \<Rightarrow> True | Http_server_ended \<Rightarrow> False)"

text \<open>\<open>main\<close> on one storage, after the identifier was parsed.\<close>

definition start_on ::
    "'g mock_env \<Rightarrow> (http_request \<Rightarrow> 'w \<Rightarrow> (api_body http, 'e) result \<times> 'w) \<Rightarrow> (string \<Rightarrow> (unit, 'be) result) \<Rightarrow>
     TlsConfig DispatchConfig \<Rightarrow> DispatcherId \<Rightarrow> nat \<Rightarrow> 'p \<Rightarrow> 's \<Rightarrow> 'w \<times> 'g \<Rightarrow>
     (('s, 'p) dispatch_process, ('pe, 'se, 'be) dispatch_error) result \<times> 'w \<times> 'g" where
  "start_on env http bind config dispatcher now peer storage s =
     (let location = H3Cell (dcfg_location (cfg_dispatcher config)); state = DispatcherState_new now
      in case run_dispatcher env http config dispatcher location s of
           (None, s') \<Rightarrow> (Err Start_panicked, s')
         | (Some receiver, s') \<Rightarrow> (run_edge_receiver bind receiver storage state peer config, s'))"

datatype 'p dispatcher_process = On_memory "(MemoryStorage, 'p) dispatch_process" | On_sqlite "(SqliteStorage, 'p) dispatch_process"

definition dispatch_main ::
    "'g mock_env \<Rightarrow> (http_request \<Rightarrow> 'w \<Rightarrow> (api_body http, 'e) result \<times> 'w) \<Rightarrow> (string \<Rightarrow> (unit, 'be) result) \<Rightarrow>
     (string \<Rightarrow> (ulid, 'pe) result) \<Rightarrow> (string \<Rightarrow> SqliteStorage) \<Rightarrow> TlsConfig DispatchConfig \<Rightarrow> nat \<Rightarrow> 'p \<Rightarrow> 'w \<times> 'g \<Rightarrow>
     ('p dispatcher_process, ('pe, 'j SqliteStorageError, 'be) dispatch_error) result \<times> 'w \<times> 'g" where
  "dispatch_main env http bind parse db config now peer s =
     (case parse (dcfg_id (cfg_dispatcher config)) of
        Inl e \<Rightarrow> (Err (Invalid_dispatcher_id (dcfg_id (cfg_dispatcher config)) e), s)
      | Inr u \<Rightarrow>
          (case cfg_storage config of
             Storage_Memory \<Rightarrow>
               (let (r, s') = start_on env http bind config (DispatcherId u) now peer MemoryStorage_default s
                in (map_sum id On_memory r, s'))
           | Storage_Sqlite path \<Rightarrow>
               (case SqliteStorage_new (db path) of
                  Inl e \<Rightarrow> (Err (Storage_failed e), s)
                | Inr storage \<Rightarrow>
                    (let (r, s') = start_on env http bind config (DispatcherId u) now peer storage s
                     in (map_sum id On_sqlite r, s')))))"

subsection \<open>Lemmas\<close>

lemma run_edge_receiver_Ok:
  "run_edge_receiver bind receiver storage state peer config = Ok dp \<Longrightarrow>
     co_storage (dp_collector dp) = storage \<and> w_storage (world (dp_uploader dp)) = storage \<and>
     co_state (dp_collector dp) = state \<and> w_state (world (dp_uploader dp)) = state \<and> \<not> client (dp_uploader dp)"
  by (auto simp: run_edge_receiver_def uploader_start_def split: sum.splits)

lemma map_sum_Ok: "map_sum id f r = Ok y \<longleftrightarrow> (\<exists>x. r = Ok x \<and> y = f x)"
  by (cases r) auto

text \<open>With a SQLite file a dispatcher starts with what was pending before; in memory it starts with nothing.\<close>

lemma dispatch_main_storage:
  "dispatch_main env http bind parse db config now peer s = (Ok (On_sqlite dp), s') \<Longrightarrow>
     \<exists>path. cfg_storage config = Storage_Sqlite path \<and> co_storage (dp_collector dp) = db path"
  "dispatch_main env http bind parse db config now peer s = (Ok (On_memory mp), s') \<Longrightarrow>
     co_storage (dp_collector mp) = MemoryStorage_default"
  by (auto simp: dispatch_main_def start_on_def Let_def SqliteStorage_new_def map_sum_Ok dest: run_edge_receiver_Ok
      split: sum.splits StorageConfig.splits prod.splits option.splits if_splits)

text \<open>An identifier that does not parse stops the dispatcher before anything is registered or opened.\<close>

lemma dispatch_main_invalid_id:
  "parse (dcfg_id (cfg_dispatcher config)) = Err e \<Longrightarrow>
     dispatch_main env http bind parse db config now peer s =
       (Err (Invalid_dispatcher_id (dcfg_id (cfg_dispatcher config)) e), s)"
  by (simp add: dispatch_main_def)

end
