(* ===== verification/Harness.thy ===== *)
theory Harness
  imports Dispatch_Mock Tls
begin

text \<open>
  The load test \<open>ersha-dispatchers-harness/src/main.rs\<close>: it spreads dispatchers over a grid, writes a
  configuration file for each and starts a process for each.

  The H3 grid (\<open>cell_at\<close> of \<open>mock_env\<close>), the file system, the operating system's processes and the generator of
  identifiers are arguments.  Square roots are rounded correctly, as IEEE 754 asks: \<open>isqrt\<close> is the integer
  square root and \<open>sqrt_sticky\<close> a rational that rounds as the exact root does.
\<close>

subsection \<open>Floating point\<close>

fun f64_mul :: "f64 \<Rightarrow> f64 \<Rightarrow> f64" where
  "f64_mul (F64_Fin a) (F64_Fin b) = f64_round (a * b)"
| "f64_mul (F64_Inf n) (F64_Inf k) = F64_Inf (n \<noteq> k)"
| "f64_mul (F64_Inf n) (F64_Fin b) = (if b = 0 then F64_NaN else F64_Inf (n \<noteq> (b < 0)))"
| "f64_mul (F64_Fin a) (F64_Inf n) = (if a = 0 then F64_NaN else F64_Inf (n \<noteq> (a < 0)))"
| "f64_mul F64_NaN b = F64_NaN"
| "f64_mul a F64_NaN = F64_NaN"

text \<open>Division by a number that came from an unsigned integer: a zero divisor is a positive zero.\<close>

fun f64_div_count :: "f64 \<Rightarrow> f64 \<Rightarrow> f64" where
  "f64_div_count (F64_Fin a) (F64_Fin b) =
     (if b = 0 then (if a = 0 then F64_NaN else F64_Inf (a < 0)) else f64_round (a / b))"
| "f64_div_count (F64_Inf n) (F64_Fin b) = F64_Inf n"
| "f64_div_count (F64_Fin a) (F64_Inf n) = F64_Fin 0"
| "f64_div_count a b = F64_NaN"

function isqrt :: "nat \<Rightarrow> nat" where
  "isqrt n =
     (if n = 0 then 0
      else let r = 2 * isqrt (n div 4) in if (r + 1) * (r + 1) \<le> n then r + 1 else r)"
  by auto
termination by (relation "measure id") auto

declare isqrt.simps [simp del]

definition sqrt_shift :: "rat \<Rightarrow> nat" where
  "sqrt_shift q = nat (60 - floor_log2 q div 2)"

definition sqrt_sticky :: "rat \<Rightarrow> rat" where
  "sqrt_sticky q =
     (let k = sqrt_shift q; s = isqrt (nat \<lfloor>q * 4 ^ k\<rfloor>)
      in if of_nat (s * s) = q * 4 ^ k then of_nat s / 2 ^ k else (of_nat s + 1 / 2) / 2 ^ k)"

fun f64_sqrt :: "f64 \<Rightarrow> f64" where
  "f64_sqrt F64_NaN = F64_NaN"
| "f64_sqrt (F64_Inf n) = (if n then F64_NaN else F64_Inf False)"
| "f64_sqrt (F64_Fin q) = (if q < 0 then F64_NaN else if q = 0 then F64_Fin 0 else f64_round (sqrt_sticky q))"

fun f64_ceil :: "f64 \<Rightarrow> f64" where
  "f64_ceil (F64_Fin q) = F64_Fin (of_int \<lceil>q\<rceil>)"
| "f64_ceil x = x"

fun f64_as_usize :: "f64 \<Rightarrow> nat" where
  "f64_as_usize F64_NaN = 0"
| "f64_as_usize (F64_Inf n) = (if n then 0 else 2 ^ 64 - 1)"
| "f64_as_usize (F64_Fin q) = nat (min (2 ^ 64 - 1) \<lfloor>q\<rfloor>)"

subsection \<open>Locations\<close>

definition lat_min :: f64 where "lat_min = f64_round (34 / 10)"
definition lat_max :: f64 where "lat_max = f64_round (149 / 10)"
definition lng_min :: f64 where "lng_min = F64_Fin 33"
definition lng_max :: f64 where "lng_max = F64_Fin 48"

definition oversample :: "nat \<Rightarrow> nat" where
  "oversample wanted = f64_as_usize (f64_ceil (f64_sqrt (f64_mul (int_as_f64 (int wanted)) (F64_Fin (3 / 2)))))"

text \<open>The centre of a row or a column: \<open>min + (i as f64 + 0.5) * step\<close>.\<close>

definition grid_coordinate :: "f64 \<Rightarrow> f64 \<Rightarrow> nat \<Rightarrow> f64" where
  "grid_coordinate low step i = f64_add low (f64_mul (f64_add (int_as_f64 (int i)) (F64_Fin (1 / 2))) step)"

definition grid_step :: "f64 \<Rightarrow> f64 \<Rightarrow> nat \<Rightarrow> f64" where
  "grid_step low high n = f64_div_count (f64_add high (f64_neg low)) (int_as_f64 (int n))"

text \<open>The two loops over the places of the grid; \<open>None\<close> is the panic of \<open>expect\<close>.\<close>

fun locations_loop ::
    "(nat \<times> nat \<Rightarrow> u64 option) \<Rightarrow> nat \<Rightarrow> (nat \<times> nat) list \<Rightarrow> u64 list \<Rightarrow> u64 list option" where
  "locations_loop cell wanted [] cells = Some cells"
| "locations_loop cell wanted (rc # rest) cells =
     (case cell rc of
        None \<Rightarrow> None
      | Some u \<Rightarrow>
          if u \<in> set cells then locations_loop cell wanted rest cells
          else if length cells + 1 = wanted then Some (cells @ [u])
          else locations_loop cell wanted rest (cells @ [u]))"

definition grid_cell :: "'g mock_env \<Rightarrow> nat \<Rightarrow> nat \<times> nat \<Rightarrow> u64 option" where
  "grid_cell env rows rc =
     cell_at env (grid_coordinate lat_min (grid_step lat_min lat_max rows) (fst rc))
       (grid_coordinate lng_min (grid_step lng_min lng_max rows) (snd rc))"

definition grid_places :: "nat \<Rightarrow> (nat \<times> nat) list" where
  "grid_places rows = List.product [0..<rows] [0..<rows]"

definition generate_dispatcher_locations :: "'g mock_env \<Rightarrow> nat \<Rightarrow> u64 list option" where
  "generate_dispatcher_locations env wanted =
     (let rows = oversample wanted in locations_loop (grid_cell env rows) wanted (grid_places rows) [])"

subsection \<open>Configuration files\<close>

record HarnessConfig =
  hc_dispatcher_count :: nat
  hc_devices_per_dispatcher :: nat
  hc_reading_interval_secs :: u64
  hc_status_interval_secs :: u64
  hc_upload_interval_secs :: u64
  hc_base_http_port :: u16
  hc_dispatch_bin :: string
  hc_prime_rpc_addr :: string
  hc_tls :: TlsConfig

text \<open>\<open>Path::join\<close>: an absolute path replaces the directory.\<close>

definition path_join :: "string \<Rightarrow> string \<Rightarrow> string" where
  "path_join dir p =
     (if take 1 p = ''/'' then p else if dir = [] \<or> last dir = CHR ''/'' then dir @ p else dir @ ''/'' @ p)"

definition AbsTlsConfig :: "string \<Rightarrow> TlsConfig \<Rightarrow> TlsConfig" where
  "AbsTlsConfig cwd tls =
     tls\<lparr>tls_cert := path_join cwd (tls_cert tls), tls_key := path_join cwd (tls_key tls),
       tls_root_ca := path_join cwd (tls_root_ca tls)\<rparr>"

definition resolve_dispatch_bin :: "(string \<Rightarrow> bool) \<Rightarrow> string \<Rightarrow> string \<Rightarrow> string" where
  "resolve_dispatch_bin exists_path cwd bin =
     (let candidate = (\<lambda>profile. path_join (path_join (path_join cwd ''target'') profile) ''ersha-dispatch'')
      in if take 1 bin = ''/'' \<and> exists_path bin then bin
         else if exists_path (path_join cwd bin) then path_join cwd bin
         else if exists_path (candidate ''debug'') then candidate ''debug''
         else if exists_path (candidate ''release'') then candidate ''release''
         else bin)"

text \<open>\<open>{:#018x}\<close>: sixteen hexadecimal digits after \<open>0x\<close>.\<close>

definition hex_digit :: "nat \<Rightarrow> char" where
  "hex_digit n = (if n < 10 then char_of (48 + n) else char_of (87 + n))"

fun hex_digits :: "nat \<Rightarrow> nat \<Rightarrow> string" where
  "hex_digits 0 n = []"
| "hex_digits (Suc k) n = hex_digits k (n div 16) @ [hex_digit (n mod 16)]"

definition hex_018 :: "u64 \<Rightarrow> string" where
  "hex_018 u = ''0x'' @ hex_digits 16 (unat u)"

definition quoted :: "string \<Rightarrow> string \<Rightarrow> string" where
  "quoted name s = name @ '' = '' @ [CHR 0x22] @ s @ [CHR 0x22]"

definition config_text :: "string \<Rightarrow> u64 \<Rightarrow> u16 \<Rightarrow> HarnessConfig \<Rightarrow> TlsConfig \<Rightarrow> string list" where
  "config_text dispatcher_id location http_port config tls =
     [''[dispatcher]'', quoted ''id'' dispatcher_id, ''location = '' @ hex_018 location, '''',
      ''[server]'', quoted ''http_addr'' (''0.0.0.0:'' @ nat_to_string (unat http_port)), '''',
      ''[storage]'', quoted ''type'' ''memory'', '''',
      ''[prime]'', quoted ''rpc_addr'' (hc_prime_rpc_addr config),
      ''upload_interval_secs = '' @ nat_to_string (unat (hc_upload_interval_secs config)), '''',
      ''[edge]'', quoted ''type'' ''mock'',
      ''reading_interval_secs = '' @ nat_to_string (unat (hc_reading_interval_secs config)),
      ''status_interval_secs = '' @ nat_to_string (unat (hc_status_interval_secs config)),
      ''device_count = '' @ nat_to_string (hc_devices_per_dispatcher config), '''',
      ''[tls]'', quoted ''cert'' (tls_cert tls), quoted ''key'' (tls_key tls), quoted ''root_ca'' (tls_root_ca tls),
      quoted ''domain'' (tls_domain tls)]"

definition config_path :: "string \<Rightarrow> nat \<Rightarrow> string" where
  "config_path dir i = path_join dir (''dispatcher-'' @ nat_to_string i @ ''.toml'')"

definition write_dispatcher_config ::
    "(string \<Rightarrow> string \<Rightarrow> 'w \<Rightarrow> (unit, 'e) result \<times> 'w) \<Rightarrow> string \<Rightarrow> nat \<Rightarrow> string \<Rightarrow> u64 \<Rightarrow> u16 \<Rightarrow>
     HarnessConfig \<Rightarrow> TlsConfig \<Rightarrow> 'w \<Rightarrow> (string, 'e) result \<times> 'w" where
  "write_dispatcher_config write dir index dispatcher_id location http_port config tls w =
     (let path = config_path dir index
      in case write path (concat (map (\<lambda>l. l @ [CHR 0x0A]) (config_text dispatcher_id location http_port config tls))) w of
           (Inl e, w') \<Rightarrow> (Err e, w')
         | (Inr _, w') \<Rightarrow> (Ok path, w'))"

subsection \<open>Starting the dispatchers\<close>

text \<open>
  \<open>config.base_http_port + i as u16\<close>: \<open>checked\<close> tells whether the program was built with overflow
  checks, in which case \<open>None\<close> is the panic.
\<close>

definition http_port_for :: "bool \<Rightarrow> u16 \<Rightarrow> nat \<Rightarrow> u16 option" where
  "http_port_for checked base i =
     (if checked \<and> 2 ^ 16 \<le> unat base + i mod 2 ^ 16 then None else Some (base + of_nat i))"

record ('w, 'e, 'child) harness_env =
  he_ulid :: "nat \<Rightarrow> string"
  he_write :: "string \<Rightarrow> string \<Rightarrow> 'w \<Rightarrow> (unit, 'e) result \<times> 'w"
  he_spawn :: "string \<Rightarrow> string \<Rightarrow> 'w \<Rightarrow> ('child, 'e) result \<times> 'w"

datatype ('child, 'e) launch_result = Launched "'child list" | Launch_failed 'e | Launch_panicked

fun launch_all ::
    "('w, 'e, 'child) harness_env \<Rightarrow> bool \<Rightarrow> string \<Rightarrow> string \<Rightarrow> HarnessConfig \<Rightarrow> TlsConfig \<Rightarrow> nat \<Rightarrow> u64 list \<Rightarrow>
     'child list \<Rightarrow> 'w \<Rightarrow> ('child, 'e) launch_result \<times> 'w" where
  "launch_all env checked bin dir config tls i [] children w = (Launched children, w)"
| "launch_all env checked bin dir config tls i (location # rest) children w =
     (case http_port_for checked (hc_base_http_port config) i of
        None \<Rightarrow> (Launch_panicked, w)
      | Some port \<Rightarrow>
          (case write_dispatcher_config (he_write env) dir i (he_ulid env i) location port config tls w of
             (Inl e, w') \<Rightarrow> (Launch_failed e, w')
           | (Inr path, w') \<Rightarrow>
               (case he_spawn env bin path w' of
                  (Inr child, w'') \<Rightarrow> launch_all env checked bin dir config tls (i + 1) rest (children @ [child]) w''
                | (Inl e, w'') \<Rightarrow> launch_all env checked bin dir config tls (i + 1) rest children w'')))"

subsection \<open>The square root is accurate\<close>

lemma isqrt_spec: "isqrt n * isqrt n \<le> n \<and> n < (isqrt n + 1) * (isqrt n + 1)"
proof (induction n rule: isqrt.induct)
  case (1 n)
  show ?case
  proof (cases "n = 0")
    case False
    define s where "s = isqrt (n div 4)"
    have s: "s * s \<le> n div 4" "n div 4 < (s + 1) * (s + 1)"
      using 1 [OF False] by (simp_all add: s_def)
    have low: "(2 * s) * (2 * s) \<le> n" using s(1) by (simp add: algebra_simps)
    have "n < 4 * ((s + 1) * (s + 1))" using s(2) by linarith
    then have high: "n < (2 * s + 2) * (2 * s + 2)" by (simp add: algebra_simps)
    have eq: "isqrt n = (if (2 * s + 1) * (2 * s + 1) \<le> n then 2 * s + 1 else 2 * s)"
      using False by (subst isqrt.simps) (simp add: s_def Let_def)
    show ?thesis
    proof (cases "(2 * s + 1) * (2 * s + 1) \<le> n")
      case True
      then show ?thesis using high by (simp add: eq)
    next
      case False
      then show ?thesis using low by (simp add: eq)
    qed
  qed (simp add: isqrt.simps)
qed

lemma sqrt_sticky_spec:
  assumes "0 < q"
  defines "k \<equiv> sqrt_shift q" and "y \<equiv> sqrt_sticky q"
  shows "0 \<le> y" and "q < (y + 1 / 2 ^ k)\<^sup>2" and "\<exists>s. 0 \<le> s \<and> s\<^sup>2 \<le> q \<and> y \<le> s + 1"
proof -
  define m where "m = nat \<lfloor>q * 4 ^ k\<rfloor>"
  define s where "s = isqrt m"
  have m: "of_nat m \<le> q * 4 ^ k" "q * 4 ^ k < of_nat m + 1"
    using assms(1) by (simp_all add: m_def) linarith
  have s: "s * s \<le> m" "m + 1 \<le> (s + 1) * (s + 1)"
    using isqrt_spec [of m] by (simp_all add: s_def)
  have y: "y = (if of_nat (s * s) = q * 4 ^ k then of_nat s / 2 ^ k else (of_nat s + 1 / 2) / 2 ^ k)"
    by (simp add: y_def sqrt_sticky_def Let_def k_def s_def m_def)
  have four: "(4 :: rat) ^ k = (2 ^ k)\<^sup>2" by (simp add: power2_eq_square flip: power_mult_distrib)
  have "(1 :: rat) \<le> 2 ^ k" by simp
  then have one: "(1 :: rat) \<le> 2 * 2 ^ k" by linarith
  have low: "of_nat s / 2 ^ k \<le> y" and high: "y \<le> of_nat s / 2 ^ k + 1"
    using one by (simp_all add: y field_simps)
  show "0 \<le> y" using low by (rule order_trans [rotated]) simp
  have "rat_of_nat (m + 1) \<le> rat_of_nat ((s + 1) * (s + 1))" using s(2) by (rule of_nat_mono)
  then have "q * (2 ^ k)\<^sup>2 < (of_nat s + 1)\<^sup>2"
    using m(2) by (simp add: power2_eq_square four algebra_simps)
  then have "q < ((of_nat s + 1) / 2 ^ k)\<^sup>2"
    by (simp add: power_divide pos_less_divide_eq)
  also have "\<dots> \<le> (y + 1 / 2 ^ k)\<^sup>2"
    using low by (intro power_mono) (simp_all add: add_divide_distrib)
  finally show "q < (y + 1 / 2 ^ k)\<^sup>2" .
  have "rat_of_nat (s * s) \<le> rat_of_nat m" using s(1) by (rule of_nat_mono)
  then have "(of_nat s / 2 ^ k)\<^sup>2 \<le> q"
    using m(1) by (simp add: power_divide pos_divide_le_eq four power2_eq_square)
  with high show "\<exists>s. 0 \<le> s \<and> s\<^sup>2 \<le> q \<and> y \<le> s + 1" by (intro exI [of _ "of_nat s / 2 ^ k"]) simp
qed

lemma sqrt_shift_large:
  assumes "0 < q" and "q < 2 ^ 18"
  shows "52 \<le> sqrt_shift q"
proof -
  have "(2 :: rat) powi floor_log2 q < 2 powi 18"
    using floor_log2_bounds [OF assms(1)] assms(2) by simp
  then have "floor_log2 q < 18" by (simp only: two_powi_less_iff)
  then show ?thesis unfolding sqrt_shift_def by linarith
qed

lemma less_of_square: "x\<^sup>2 < y\<^sup>2 \<Longrightarrow> 0 \<le> y \<Longrightarrow> x < (y :: rat)"
  by (rule power_less_imp_less_base)

text \<open>The grid has at least as many places as dispatchers are wanted.\<close>

lemma oversample_enough:
  assumes "0 < n" and "n \<le> 65536"
  shows "n \<le> oversample n * oversample n"
proof -
  have n: "(1 :: rat) \<le> of_nat n" "(of_nat n :: rat) \<le> 65536"
    using assms by simp_all
  obtain q where q: "f64_round (of_nat n * (3 / 2)) = F64_Fin q" "\<bar>q - of_nat n * (3 / 2)\<bar> \<le> 2 powi (int 17 - 54)"
    using f64_round_error [of "of_nat n * (3 / 2)" 17] n by auto
  have eps: "(2 :: rat) powi (int 17 - 54) \<le> 1 / 1000" "(2 :: rat) powi (int 10 - 54) \<le> 1 / 100000"
    by (simp_all add: power_int_def power_divide)
  have q_low: "of_nat n * (3 / 2) - 1 / 1000 \<le> q" and "q < 262144"
    using order_trans [OF q(2) eps(1)] n by linarith+
  then have q_high: "q < 2 ^ 18" by simp
  have q_pos: "0 < q" using q_low n by linarith
  define y where "y = sqrt_sticky q"
  define k where "k = sqrt_shift q"
  note sticky = sqrt_sticky_spec [OF q_pos, folded y_def k_def]
  obtain s where s: "0 \<le> s" "s\<^sup>2 \<le> q" "y \<le> s + 1" using sticky(3) by blast
  have "s\<^sup>2 < (512 :: rat)\<^sup>2" using s(2) q_high by simp
  then have "s < 512" by (rule less_of_square) simp
  then have "\<bar>y\<bar> < 2 ^ 10" using s(3) sticky(1) by simp
  then obtain r where r: "f64_round y = F64_Fin r" "\<bar>r - y\<bar> \<le> 2 powi (int 10 - 54)"
    using f64_round_error [of y 10] by auto
  define R where "R = \<lceil>r\<rceil>"
  have r_low: "y - 1 / 100000 \<le> r" and "r \<le> 1024"
    using order_trans [OF r(2) eps(2)] s(3) \<open>s < 512\<close> by linarith+
  then have R: "y - 1 / 100000 \<le> of_int R" "0 \<le> R" "R \<le> 1024"
    using sticky(1) unfolding R_def by linarith+
  have over: "oversample n = nat R"
    using assms(2) q(1) q_pos r(1) R(3)
    by (simp add: oversample_def int_as_f64_exact y_def R_def)
  have "(2 :: rat) ^ 52 \<le> 2 ^ k"
    unfolding k_def by (rule power_increasing [OF sqrt_shift_large [OF q_pos q_high]]) simp
  then have "1 / 2 ^ k \<le> (1 / 2 ^ 52 :: rat)" by (intro divide_left_mono) simp_all
  then have "1 / 2 ^ k \<le> (1 / 100000 :: rat)" by (rule order_trans) simp
  then have near: "y + 1 / 2 ^ k \<le> of_int R + 1 / 10000" using R(1) by linarith
  have Rr: "(of_int R :: rat) \<le> 1024" using R(3) by simp
  note sticky(2)
  also have "(y + 1 / 2 ^ k)\<^sup>2 \<le> (of_int R + 1 / 10000)\<^sup>2"
    by (rule power_mono [OF near]) (simp add: sticky(1))
  also have "\<dots> = of_int R * of_int R + of_int R / 5000 + 1 / 100000000"
    by (simp add: power2_eq_square field_simps)
  also have "\<dots> \<le> of_int (R * R) + 1 / 4"
    unfolding of_int_mult using Rr by linarith
  finally have "of_nat n * (3 / 2) - 1 / 1000 < of_int (R * R) + (1 / 4 :: rat)"
    using q_low by simp
  then have "(of_nat n :: rat) < of_int (R * R) + 1" using n(1) by simp
  then have "of_int (int n) < (of_int (R * R + 1) :: rat)" by simp
  then have "int n \<le> R * R" unfolding of_int_less_iff by simp
  then show ?thesis using R(2) by (simp add: over flip: nat_mult_distrib)
qed

subsection \<open>Locations are distinct and as many as wanted\<close>

lemma locations_loop_spec:
  assumes "\<forall>rc \<in> set places. cell rc \<noteq> None" and "distinct cells" and "length cells < wanted"
  shows "\<exists>cs. locations_loop cell wanted places cells = Some cs \<and> distinct cs \<and> length cs \<le> wanted \<and>
    (distinct (map cell places) \<and> (\<forall>rc \<in> set places. the (cell rc) \<notin> set cells) \<and>
       wanted \<le> length cells + length places \<longrightarrow> length cs = wanted)"
  using assms
proof (induction places arbitrary: cells)
  case (Cons rc places)
  then obtain u where u: "cell rc = Some u" by auto
  have rest: "\<forall>rc \<in> set places. cell rc \<noteq> None" using Cons.prems(1) by simp
  show ?case
  proof (cases "u \<in> set cells")
    case True
    with Cons.IH [OF rest Cons.prems(2,3)] u show ?thesis by auto
  next
    case new: False
    show ?thesis
    proof (cases "length cells + 1 = wanted")
      case True
      with new u Cons.prems(2) show ?thesis by auto
    next
      case False
      have "distinct (cells @ [u])" "length (cells @ [u]) < wanted"
        using new Cons.prems(2,3) False by auto
      from Cons.IH [OF rest this] obtain cs where cs: "locations_loop cell wanted places (cells @ [u]) = Some cs"
          "distinct cs" "length cs \<le> wanted"
          "distinct (map cell places) \<and> (\<forall>rc \<in> set places. the (cell rc) \<notin> set (cells @ [u])) \<and>
             wanted \<le> length (cells @ [u]) + length places \<longrightarrow> length cs = wanted"
        by blast
      have "the (cell x) \<noteq> u" if "x \<in> set places" "cell rc \<notin> cell ` set places" for x
        using that rest u by (metis image_eqI option.collapse)
      then have "length cs = wanted"
        if "distinct (map cell (rc # places))" "\<forall>x \<in> set (rc # places). the (cell x) \<notin> set cells"
          "wanted \<le> length cells + length (rc # places)"
        using cs(4) that by auto
      with cs(1-3) u new False show ?thesis by auto
    qed
  qed
qed auto

lemma distinct_grid_places: "distinct (grid_places rows)" and length_grid_places: "length (grid_places rows) = rows * rows"
  by (simp_all add: grid_places_def distinct_product)

lemma oversample_0: "oversample 0 = 0"
  by (simp add: oversample_def int_as_f64_def f64_round_def)

text \<open>
  C31.  Locations of the harness.  For up to 65536 dispatchers, if every place of the grid is a valid
  coordinate, distinct locations are generated, never more than wanted, and exactly as many as wanted if
  no two places of the grid are in the same cell: the grid, whose side is computed in floating point, is
  large enough.
\<close>

theorem harness_locations:
  assumes "wanted \<le> 65536" and "\<forall>rc \<in> set (grid_places (oversample wanted)). grid_cell env (oversample wanted) rc \<noteq> None"
  shows "\<exists>cells. generate_dispatcher_locations env wanted = Some cells \<and> distinct cells \<and> length cells \<le> wanted \<and>
    (inj_on (grid_cell env (oversample wanted)) (set (grid_places (oversample wanted))) \<longrightarrow> length cells = wanted)"
proof (cases "wanted = 0")
  case True
  then show ?thesis by (simp add: generate_dispatcher_locations_def oversample_0 grid_places_def)
next
  case False
  let ?places = "grid_places (oversample wanted)"
  let ?cell = "grid_cell env (oversample wanted)"
  have enough: "wanted \<le> length ?places"
    using oversample_enough [of wanted] False assms(1) by (simp add: length_grid_places)
  have "inj_on ?cell (set ?places) \<longrightarrow> distinct (map ?cell ?places)"
    by (simp add: distinct_map distinct_grid_places)
  with locations_loop_spec [OF assms(2), of "[]" wanted] enough False show ?thesis
    by (auto simp: generate_dispatcher_locations_def Let_def)
qed

text \<open>A grid whose cells are told apart by their coordinates.\<close>

definition sample_grid :: "ulid mock_env" where
  "sample_grid = sample_mock\<lparr>cell_at := (\<lambda>lat lng. Some (of_int (\<lfloor>f64_val lat * 10\<rfloor> * 1000 + \<lfloor>f64_val lng * 10\<rfloor>)))\<rparr>"

theorem harness_locations_witness:
  "\<exists>cells. generate_dispatcher_locations sample_grid 3 = Some cells \<and> distinct cells \<and> length cells \<le> 3"
proof -
  have "\<forall>rc \<in> set (grid_places (oversample 3)). grid_cell sample_grid (oversample 3) rc \<noteq> None"
    by (simp add: grid_cell_def sample_grid_def)
  from harness_locations [OF _ this] show ?thesis by auto
qed

subsection \<open>Ports and files\<close>

lemma nat_to_string_inject: "nat_to_string i = nat_to_string j \<longleftrightarrow> i = j"
  using decimal_value_nat_to_string by metis

lemma config_path_inject: "config_path dir i = config_path dir j \<longleftrightarrow> i = j"
  by (auto simp: config_path_def path_join_def nat_to_string_inject)

text \<open>Files are written to a list, and the processes of some files cannot be started.\<close>

definition listing_env :: "(nat \<Rightarrow> string) \<Rightarrow> (string \<Rightarrow> bool) \<Rightarrow> ((string \<times> string) list, unit, string) harness_env" where
  "listing_env ulids starts =
     \<lparr>he_ulid = ulids, he_write = (\<lambda>p t w. (Ok (), w @ [(p, t)])),
      he_spawn = (\<lambda>b p w. (if starts p then Ok p else Err (), w))\<rparr>"

text \<open>
  As long as the ports do not run over, the dispatchers get consecutive ports and a file each, in the order
  of the locations, and those whose process starts are remembered.
\<close>

lemma launch_all_listing:
  "unat (hc_base_http_port config) + i + length locs \<le> 2 ^ 16 \<Longrightarrow>
     launch_all (listing_env ulids starts) checked bin dir config tls i locs children w =
       (Launched (children @ filter starts (map (config_path dir) [i..<i + length locs])),
        w @ map (\<lambda>(j, l). (config_path dir j,
              concat (map (\<lambda>l. l @ [CHR 0x0A]) (config_text (ulids j) l (hc_base_http_port config + of_nat j) config tls))))
            (enumerate i locs))"
proof (induction locs arbitrary: i children w)
  case (Cons l locs)
  have "i mod 2 ^ 16 = i" using Cons.prems by simp
  then have port: "http_port_for checked (hc_base_http_port config) i = Some (hc_base_http_port config + of_nat i)"
    using Cons.prems by (simp add: http_port_for_def)
  have upt: "[i..<i + length (l # locs)] = i # [Suc i..<Suc i + length locs]"
    by (simp add: upt_conv_Cons del: upt_Suc)
  show ?case
    using Cons.IH [of "Suc i"] Cons.prems unfolding upt
    by (simp add: port write_dispatcher_config_def listing_env_def Let_def)
qed simp

text \<open>Past the last port the sum wraps, or panics in a build with overflow checks.\<close>

lemma http_port_overflow:
  assumes "unat base + i = 2 ^ 16" and "0 < i" and "i < 2 ^ 16"
  shows "http_port_for True base i = None" and "http_port_for False base i = Some 0"
proof -
  have "unat (base + of_nat i) = 0"
    using assms by (simp add: unat_word_ariths unat_of_nat take_bit_eq_mod)
  then show "http_port_for False base i = Some 0" by (simp add: http_port_for_def unat_eq_zero)
  show "http_port_for True base i = None" using assms by (simp add: http_port_for_def)
qed

end
