(* ===== verification/Prime_Sql.thy ===== *)
theory Prime_Sql
  imports Sql Prime_Memory_Device
begin

text \<open>
  What the SQLite registries of prime (\<open>ersha-prime/src/registry/sqlite\<close>) share: the columns in which
  identifiers, instants, cells and metrics are kept, the conditions of their \<open>WHERE\<close> clauses,
  \<open>ORDER BY\<close> and \<open>LIMIT\<close>.  The text form of identifiers (crate \<open>ulid\<close>) is an argument.

  \<open>sqlite_error\<close> is the union of the four error enums; \<open>SE_Panic\<close> stands for the \<open>expect\<close> on a NaN.
\<close>

record ulid_codec =
  uc_show :: "ulid \<Rightarrow> string"
  uc_parse :: "string \<Rightarrow> ulid option"

datatype sqlite_error =
    SE_Sqlx sqlx_error
  | SE_Migration
  | SE_InvalidUlid string
  | SE_InvalidTimestamp int
  | SE_InvalidState int
  | SE_InvalidDeviceKind int
  | SE_InvalidMetricType int
  | SE_InvalidSensorKind int
  | SE_InvalidErrorCode int
  | SE_InvalidSensorState int
  | SE_NotFound
  | SE_Panic

text \<open>The operator \<open>?\<close> on a value.\<close>

definition and_then :: "('a, 'e) result \<Rightarrow> ('a \<Rightarrow> ('b, 'e) result) \<Rightarrow> ('b, 'e) result" where
  "and_then r f = (case r of Inl e \<Rightarrow> Err e | Inr x \<Rightarrow> f x)"

lemma and_then_simps [simp]: "and_then (Ok x) f = f x" "and_then (Err e) f = Err e"
  by (simp_all add: and_then_def)

subsection \<open>Columns\<close>

text \<open>
  \<open>Timestamp::as_second\<close> drops the fraction, towards zero; \<open>Timestamp::from_second\<close> refuses what is
  outside the range of a \<open>jiff::Timestamp\<close>.
\<close>

definition as_second :: "timestamp \<Rightarrow> int" where
  "as_second t = (if 0 \<le> t then t div 1000000000 else - ((- t) div 1000000000))"

definition MIN_SECOND :: int where
  "MIN_SECOND = -377705023201"

definition MAX_SECOND :: int where
  "MAX_SECOND = 253402207200"

definition from_second :: "int \<Rightarrow> timestamp option" where
  "from_second s = (if MIN_SECOND \<le> s \<and> s \<le> MAX_SECOND then Some (s * 1000000000) else None)"

definition timestamp_column :: "int \<Rightarrow> (timestamp, sqlite_error) result" where
  "timestamp_column s = (case from_second s of Some t \<Rightarrow> Ok t | None \<Rightarrow> Err (SE_InvalidTimestamp s))"

definition ulid_column :: "ulid_codec \<Rightarrow> string \<Rightarrow> (ulid, sqlite_error) result" where
  "ulid_column uc s = (case uc_parse uc s of Some u \<Rightarrow> Ok u | None \<Rightarrow> Err (SE_InvalidUlid s))"

text \<open>The casts \<open>u64 as i64\<close> and back.\<close>

definition u64_as_i64 :: "u64 \<Rightarrow> int" where
  "u64_as_i64 w = sint w"

definition i64_as_u64 :: "int \<Rightarrow> u64" where
  "i64_as_u64 i = word_of_int i"

fun disect_metric :: "SensorMetric \<Rightarrow> int \<times> f64" where
  "disect_metric (SoilMoisture p) = (0, int_as_f64 (uint (percent p)))"
| "disect_metric (SoilTemp v) = (1, v)"
| "disect_metric (AirTemp v) = (2, v)"
| "disect_metric (Humidity p) = (3, int_as_f64 (uint (percent p)))"
| "disect_metric (Rainfall v) = (4, v)"

definition not_nan_column :: "(f64 \<Rightarrow> SensorMetric) \<Rightarrow> f64 \<Rightarrow> (SensorMetric, sqlite_error) result" where
  "not_nan_column c v = (case NotNan_new v of Some x \<Rightarrow> Ok (c x) | None \<Rightarrow> Err SE_Panic)"

definition metric_column :: "int \<Rightarrow> f64 \<Rightarrow> (SensorMetric, sqlite_error) result" where
  "metric_column metric_type metric_value =
     (if metric_type = 0 then Ok (SoilMoisture (Percentage (f64_as_u8 metric_value)))
      else if metric_type = 1 then not_nan_column SoilTemp metric_value
      else if metric_type = 2 then not_nan_column AirTemp metric_value
      else if metric_type = 3 then Ok (Humidity (Percentage (f64_as_u8 metric_value)))
      else if metric_type = 4 then not_nan_column Rainfall metric_value
      else Err (SE_InvalidMetricType metric_type))"

subsection \<open>Queries\<close>

text \<open>\<open>column IN (...)\<close>, which is left out of the query when there is no list or the list is empty.\<close>

definition sql_in :: "('a \<Rightarrow> 'c) \<Rightarrow> 'a list option \<Rightarrow> 'c \<Rightarrow> bool" where
  "sql_in bind xs v =
     (case xs of
        None \<Rightarrow> True
      | Some ys \<Rightarrow> ys = [] \<or> v \<in> set (map bind ys))"

definition sql_window :: "timestamp option \<Rightarrow> timestamp option \<Rightarrow> int \<Rightarrow> bool" where
  "sql_window after before s \<longleftrightarrow>
     (case after of None \<Rightarrow> True | Some t \<Rightarrow> as_second t \<le> s) \<and>
     (case before of None \<Rightarrow> True | Some t \<Rightarrow> s \<le> as_second t)"

definition sql_between :: "('a \<Rightarrow> int) \<Rightarrow> ('a \<times> 'a) option \<Rightarrow> int \<Rightarrow> bool" where
  "sql_between bind rng v = (case rng of None \<Rightarrow> True | Some (a, b) \<Rightarrow> bind a \<le> v \<and> v \<le> bind b)"

definition sql_order_by :: "'r comparator \<Rightarrow> SortOrder \<Rightarrow> 'r list \<Rightarrow> 'r list" where
  "sql_order_by cmp so rows = Sorting_Algorithms.sort (case so of Asc \<Rightarrow> cmp | Desc \<Rightarrow> reversed cmp) rows"

text \<open>
  \<open>LIMIT\<close> and \<open>OFFSET\<close> of a \<open>usize as i64\<close>: a negative limit is no limit, a negative offset is zero.
\<close>

definition sql_limit :: "nat \<Rightarrow> 'r list \<Rightarrow> 'r list" where
  "sql_limit n rows = (if n < 2 ^ 63 then take n rows else rows)"

definition sql_offset :: "nat \<Rightarrow> 'r list \<Rightarrow> 'r list" where
  "sql_offset n rows = (if n < 2 ^ 63 then drop n rows else rows)"

text \<open>\<open>LIMIT\<close> and \<open>OFFSET\<close> as pushed for devices, readings and statuses: a cursor is ignored.\<close>

definition sql_page :: "Pagination \<Rightarrow> 'r list \<Rightarrow> 'r list" where
  "sql_page pagination rows =
     (case pagination of
        Offset offset limit \<Rightarrow> sql_limit limit (sql_offset offset rows)
      | Cursor after limit \<Rightarrow> sql_limit limit rows)"

subsection \<open>Lemmas\<close>

lemma u64_i64_roundtrip [simp]: "i64_as_u64 (u64_as_i64 w) = w"
  by (simp add: i64_as_u64_def u64_as_i64_def)

lemma u64_as_i64_inject [simp]: "u64_as_i64 a = u64_as_i64 b \<longleftrightarrow> a = b"
  by (metis u64_i64_roundtrip)

definition timestamp_valid :: "timestamp \<Rightarrow> bool" where
  "timestamp_valid t \<longleftrightarrow> MIN_SECOND \<le> as_second t \<and> as_second t \<le> MAX_SECOND"

text \<open>The instant that is left of \<open>t\<close> in the database.\<close>

definition whole_second :: "timestamp \<Rightarrow> timestamp" where
  "whole_second t = as_second t * 1000000000"

lemma timestamp_column_as_second: "timestamp_valid t \<Longrightarrow> timestamp_column (as_second t) = Ok (whole_second t)"
  by (simp add: timestamp_column_def from_second_def timestamp_valid_def whole_second_def)

lemma as_second_whole [simp]: "as_second (s * 1000000000) = s"
  by (auto simp: as_second_def) 

lemma whole_second_idem [simp]: "whole_second (whole_second t) = whole_second t" "as_second (whole_second t) = as_second t"
  by (simp_all add: whole_second_def)

lemma whole_second_bounds: "0 \<le> t \<Longrightarrow> whole_second t \<le> t \<and> t < whole_second t + 1000000000"
  by (simp add: whole_second_def as_second_def) (simp add: minus_mod_eq_div_mult [symmetric])

lemma metric_column_disect: "metric_not_nan v \<Longrightarrow> metric_column (fst (disect_metric v)) (snd (disect_metric v)) = Ok v"
  by (cases v) (simp_all add: metric_column_def not_nan_column_def NotNan_new_def f64_as_u8_int_as_f64 split: Percentage.split)

definition ulid_codec_ok :: "ulid_codec \<Rightarrow> bool" where
  "ulid_codec_ok uc \<longleftrightarrow> (\<forall>u. uc_parse uc (uc_show uc u) = Some u)"

lemma ulid_column_show: "ulid_codec_ok uc \<Longrightarrow> ulid_column uc (uc_show uc u) = Ok u"
  by (simp add: ulid_codec_ok_def ulid_column_def)

lemma uc_show_inject: "ulid_codec_ok uc \<Longrightarrow> uc_show uc a = uc_show uc b \<longleftrightarrow> a = b"
  by (metis option.inject ulid_codec_ok_def)

text \<open>
  The conditions of a \<open>WHERE\<close> clause agree with the criteria of the in-memory registries, on lists that
  are not empty and on whole seconds.
\<close>

definition list_plain :: "'a list option \<Rightarrow> bool" where
  "list_plain xs \<longleftrightarrow> xs \<noteq> Some []"

definition whole :: "timestamp option \<Rightarrow> bool" where
  "whole t = (case t of None \<Rightarrow> True | Some t' \<Rightarrow> whole_second t' = t')"

lemma sql_in_accepts: "list_plain xs \<Longrightarrow> inj bind \<Longrightarrow> sql_in bind xs (bind x) = accepts xs x"
  by (auto simp: sql_in_def list_plain_def dest: injD split: option.split)

lemma sql_window_in_window:
  assumes "whole a" and "whole b" and "whole_second t = t"
  shows "sql_window a b (as_second t) = in_window a b t"
proof -
  have "as_second x \<le> as_second y \<longleftrightarrow> x \<le> y" if "whole_second x = x" "whole_second y = y" for x y
    using that unfolding whole_second_def by linarith
  then show ?thesis
    using assms by (auto simp: sql_window_def in_window_iff whole_def split: option.split)
qed

lemma sql_between_in_range:
  "(\<And>x y. bind x \<le> bind y \<longleftrightarrow> x \<le> y) \<Longrightarrow> sql_between bind rng (bind v) = in_range rng v"
  by (cases rng) (auto simp: sql_between_def)

end
