(* ===== verification/Prime_Sqlite_Dispatcher.thy ===== *)
theory Prime_Sqlite_Dispatcher
  imports Prime_Sql Prime_Handlers
begin

text \<open>
  The SQLite dispatcher registry of prime (\<open>ersha-prime/src/registry/sqlite/dispatcher.rs\<close>): one table,
  with the state as an integer and the instant in whole seconds.
\<close>

record dispatcher_row =
  pr_id :: string
  pr_state :: int
  pr_location :: int
  pr_provisioned_at :: int

record SqliteDispatcherRegistry =
  sqp_table :: "(string, dispatcher_row) hashmap"
  sqp_io :: "nat \<Rightarrow> bool"

text \<open>\<open>new\<close> and \<open>new_in_memory\<close>: connect and migrate; \<open>db\<close> is what the database holds.\<close>

definition SqliteDispatcherRegistry_new ::
    "SqliteDispatcherRegistry \<Rightarrow> (SqliteDispatcherRegistry, sqlite_error) result" where
  "SqliteDispatcherRegistry_new db =
     (if sqp_io db 0 then Err (SE_Sqlx Sqlx_Io) else if sqp_io db 1 then Err SE_Migration else Ok db)"

fun dispatcher_state_code :: "DispatcherState \<Rightarrow> int" where
  "dispatcher_state_code Dispatcher_Active = 0"
| "dispatcher_state_code Dispatcher_Suspended = 1"

definition dispatcher_to_row :: "ulid_codec \<Rightarrow> Dispatcher \<Rightarrow> dispatcher_row" where
  "dispatcher_to_row uc d =
     \<lparr>pr_id = uc_show uc (dispatcher_ulid (disp_id d)), pr_state = dispatcher_state_code (disp_state d),
      pr_location = u64_as_i64 (h3_index (disp_location d)),
      pr_provisioned_at = as_second (disp_provisioned_at d)\<rparr>"

definition dispatcher_of_row :: "ulid_codec \<Rightarrow> dispatcher_row \<Rightarrow> (Dispatcher, sqlite_error) result" where
  "dispatcher_of_row uc r =
     and_then (ulid_column uc (pr_id r)) (\<lambda>u.
     and_then (timestamp_column (pr_provisioned_at r)) (\<lambda>t.
     and_then (if pr_state r = 0 then Ok Dispatcher_Active
               else if pr_state r = 1 then Ok Dispatcher_Suspended
               else Err (SE_InvalidState (pr_state r))) (\<lambda>st.
       Ok \<lparr>disp_id = DispatcherId u, disp_location = H3Cell (i64_as_u64 (pr_location r)), disp_state = st,
           disp_provisioned_at = t\<rparr>)))"

text \<open>The statement number \<open>n\<close> is where the \<open>INSERT\<close> stands in the calling operation.\<close>

definition sqp_register_at ::
    "ulid_codec \<Rightarrow> nat \<Rightarrow> Dispatcher \<Rightarrow> SqliteDispatcherRegistry \<Rightarrow>
     (unit, sqlite_error) result \<times> SqliteDispatcherRegistry" where
  "sqp_register_at uc n d m =
     (let (r, t) = run_stmt (sqp_io m) n
            (sql_insert_or_replace (uc_show uc (dispatcher_ulid (disp_id d))) (dispatcher_to_row uc d)) (sqp_table m)
      in (map_sum SE_Sqlx id r, m\<lparr>sqp_table := t\<rparr>))"

definition sqp_register where
  "sqp_register uc d m = sqp_register_at uc 0 d m"

definition sqp_get ::
    "ulid_codec \<Rightarrow> DispatcherId \<Rightarrow> SqliteDispatcherRegistry \<Rightarrow> (Dispatcher option, sqlite_error) result" where
  "sqp_get uc i m =
     (if sqp_io m 0 then Err (SE_Sqlx Sqlx_Io)
      else case hm_get (sqp_table m) (uc_show uc (dispatcher_ulid i)) of
             None \<Rightarrow> Ok None
           | Some r \<Rightarrow> and_then (dispatcher_of_row uc r) (\<lambda>d. Ok (Some d)))"

definition sqp_update ::
    "ulid_codec \<Rightarrow> DispatcherId \<Rightarrow> Dispatcher \<Rightarrow> SqliteDispatcherRegistry \<Rightarrow>
     (unit, sqlite_error) result \<times> SqliteDispatcherRegistry" where
  "sqp_update uc i new m =
     (case sqp_get uc i m of
        Inl e \<Rightarrow> (Err e, m)
      | Inr None \<Rightarrow> (Err SE_NotFound, m)
      | Inr (Some old) \<Rightarrow> sqp_register_at uc 1 (new\<lparr>disp_id := disp_id old\<rparr>) m)"

definition sqp_suspend ::
    "ulid_codec \<Rightarrow> DispatcherId \<Rightarrow> SqliteDispatcherRegistry \<Rightarrow>
     (unit, sqlite_error) result \<times> SqliteDispatcherRegistry" where
  "sqp_suspend uc i m =
     (case sqp_get uc i m of
        Inl e \<Rightarrow> (Err e, m)
      | Inr None \<Rightarrow> (Err SE_NotFound, m)
      | Inr (Some d) \<Rightarrow> sqp_register_at uc 1 (d\<lparr>disp_state := Dispatcher_Suspended\<rparr>) m)"

definition sqp_batch_register ::
    "ulid_codec \<Rightarrow> Dispatcher list \<Rightarrow> SqliteDispatcherRegistry \<Rightarrow>
     (unit, sqlite_error) result \<times> SqliteDispatcherRegistry" where
  "sqp_batch_register uc ds m =
     transaction SE_Sqlx (sqp_io m) (Suc (length ds)) (tx_each (sqp_register_at uc) 1 ds) m"

definition dispatcher_where :: "DispatcherFilter \<Rightarrow> dispatcher_row \<Rightarrow> bool" where
  "dispatcher_where f r \<longleftrightarrow>
     sql_in dispatcher_state_code (pf_states f) (pr_state r) \<and>
     sql_in (\<lambda>l. u64_as_i64 (h3_index l)) (pf_locations f) (pr_location r)"

definition sqp_count ::
    "DispatcherFilter option \<Rightarrow> SqliteDispatcherRegistry \<Rightarrow> (nat, sqlite_error) result" where
  "sqp_count f m =
     (if sqp_io m 0 then Err (SE_Sqlx Sqlx_Io)
      else Ok (sql_count (case f of Some f' \<Rightarrow> dispatcher_where f' | None \<Rightarrow> (\<lambda>_. True)) (sqp_table m)))"

definition sqp_list ::
    "ulid_codec \<Rightarrow> (string, dispatcher_row) hash_order \<Rightarrow> (DispatcherFilter, DispatcherSortBy) QueryOptions \<Rightarrow>
     SqliteDispatcherRegistry \<Rightarrow> (Dispatcher list, sqlite_error) result" where
  "sqp_list uc ord options m =
     (if sqp_io m 0 then Err (SE_Sqlx Sqlx_Io)
      else let rows = filter (dispatcher_where (qo_filter options)) (hm_values ord (sqp_table m));
               ranked = sql_order_by (case qo_sort_by options of DispBy_ProvisionAt \<Rightarrow> key pr_provisioned_at default)
                 (qo_sort_order options) rows;
               page = (case qo_pagination options of
                   Offset offset limit \<Rightarrow> sql_limit limit (sql_offset offset ranked)
                 | Cursor _ _ \<Rightarrow> ranked)
           in try_map (dispatcher_of_row uc) page)"

definition sqlite_dispatchers ::
    "ulid_codec \<Rightarrow> (string, dispatcher_row) hash_order \<Rightarrow> (SqliteDispatcherRegistry, sqlite_error) DispatcherRegistry" where
  "sqlite_dispatchers uc ord =
     \<lparr>disp_register = sqp_register uc, disp_get = sqp_get uc, disp_update = sqp_update uc,
      disp_suspend = sqp_suspend uc, disp_batch_register = sqp_batch_register uc,
      disp_count = sqp_count, disp_list = sqp_list uc ord\<rparr>"

subsection \<open>The registry keeps its contracts\<close>

definition dispatcher_valid :: "Dispatcher \<Rightarrow> bool" where
  "dispatcher_valid d \<longleftrightarrow> timestamp_valid (disp_provisioned_at d)"

definition dispatcher_kept :: "Dispatcher \<Rightarrow> Dispatcher" where
  "dispatcher_kept d = d\<lparr>disp_provisioned_at := whole_second (disp_provisioned_at d)\<rparr>"

lemma dispatcher_of_row_to_row:
  "ulid_codec_ok uc \<Longrightarrow> dispatcher_valid d \<Longrightarrow> dispatcher_of_row uc (dispatcher_to_row uc d) = Ok (dispatcher_kept d)"
  by (cases "disp_state d")
    (simp_all add: dispatcher_of_row_def dispatcher_to_row_def ulid_column_show timestamp_column_as_second
      dispatcher_valid_def dispatcher_kept_def)

definition sqp_inv :: "ulid_codec \<Rightarrow> SqliteDispatcherRegistry \<Rightarrow> bool" where
  "sqp_inv uc m \<longleftrightarrow>
     ulid_codec_ok uc \<and> hm_wf (sqp_table m) \<and>
     (\<forall>k r. hm_get (sqp_table m) k = Some r \<longrightarrow>
        (\<exists>d. dispatcher_valid d \<and> r = dispatcher_to_row uc d \<and> k = uc_show uc (dispatcher_ulid (disp_id d))))"

lemmas sqp_stmt_defs = sqp_register_at_def run_stmt_def sql_insert_or_replace_def

lemma sqp_get_register_at:
  assumes "sqp_inv uc m" and "dispatcher_valid d" and "sqp_register_at uc n d m = (Ok (), m')"
  shows "sqp_get uc k m' =
    (if k = disp_id d \<and> \<not> sqp_io m 0 then Ok (Some (dispatcher_kept d)) else sqp_get uc k m)"
proof -
  have uc: "ulid_codec_ok uc" using assms(1) by (simp add: sqp_inv_def)
  have "m' = m\<lparr>sqp_table := hm_insert (uc_show uc (dispatcher_ulid (disp_id d))) (dispatcher_to_row uc d) (sqp_table m)\<rparr>"
    using assms(3) by (auto simp: sqp_stmt_defs split: if_splits)
  moreover have "(dispatcher_ulid k = dispatcher_ulid (disp_id d)) = (k = disp_id d)"
    by (cases k; cases "disp_id d") simp
  ultimately show ?thesis
    by (simp add: sqp_get_def hm_simps uc_show_inject [OF uc] dispatcher_of_row_to_row [OF uc assms(2)])
qed

lemma sqp_inv_register_at: "sqp_inv uc m \<Longrightarrow> dispatcher_valid d \<Longrightarrow> sqp_inv uc (snd (sqp_register_at uc n d m))"
  by (auto simp: sqp_inv_def sqp_stmt_defs hm_simps)

lemma sqp_register_at_Err: "fst (sqp_register_at uc n d m) = Err e \<Longrightarrow> snd (sqp_register_at uc n d m) = m"
  by (auto simp: sqp_stmt_defs split: if_splits)

interpretation sqlite_dispatcher_rows:
  keyed_registry "sqp_register uc" "sqp_get uc" disp_id dispatcher_kept dispatcher_valid "sqp_inv uc" for uc
proof (unfold_locales, goal_cases)
  case (2 m r m' k)
  moreover from 2(3) have "\<not> sqp_io m 0"
    by (auto simp: sqp_register_def sqp_stmt_defs split: if_splits)
  ultimately show ?case
    using sqp_get_register_at [OF 2(1,2), of 0 m' k] by (simp add: sqp_register_def)
next
  case (3 m r e m' k)
  with sqp_register_at_Err [of uc 0 r m e] show ?case by (simp add: sqp_register_def)
qed (simp add: sqp_register_def sqp_inv_register_at)

subsection \<open>The SQLite registry and the in-memory registry\<close>

datatype dispatcher_op = Register_dispatcher Dispatcher | Suspend_dispatcher DispatcherId

fun sqp_step :: "ulid_codec \<Rightarrow> dispatcher_op \<Rightarrow> SqliteDispatcherRegistry \<Rightarrow> SqliteDispatcherRegistry" where
  "sqp_step uc (Register_dispatcher d) m = snd (sqp_register uc d m)"
| "sqp_step uc (Suspend_dispatcher i) m = snd (sqp_suspend uc i m)"

fun imp_step :: "dispatcher_op \<Rightarrow> InMemoryDispatcherRegistry \<Rightarrow> InMemoryDispatcherRegistry" where
  "imp_step (Register_dispatcher d) n = snd (imp_register d n)"
| "imp_step (Suspend_dispatcher i) n = snd (imp_suspend i n)"

fun op_valid :: "dispatcher_op \<Rightarrow> bool" where
  "op_valid (Register_dispatcher d) = dispatcher_valid d"
| "op_valid (Suspend_dispatcher i) = True"

text \<open>The same dispatchers, as far as whole seconds tell.\<close>

definition same_dispatchers :: "ulid_codec \<Rightarrow> SqliteDispatcherRegistry \<Rightarrow> InMemoryDispatcherRegistry \<Rightarrow> bool" where
  "same_dispatchers uc m n \<longleftrightarrow>
     sqp_inv uc m \<and> sqp_io m = (\<lambda>_. False) \<and> rows_ok disp_id (dispatchers n) \<and>
     (\<forall>i. sqp_get uc i m = Ok (map_option dispatcher_kept (hm_get (dispatchers n) i))) \<and>
     (\<forall>i d. hm_get (dispatchers n) i = Some d \<longrightarrow> dispatcher_valid d)"

lemma dispatcher_kept_simps [simp]:
  "disp_id (dispatcher_kept d) = disp_id d" "disp_state (dispatcher_kept d) = disp_state d"
  "dispatcher_valid (dispatcher_kept d) = dispatcher_valid d"
  "dispatcher_valid (d\<lparr>disp_state := st\<rparr>) = dispatcher_valid d"
  "dispatcher_kept (dispatcher_kept d\<lparr>disp_state := st\<rparr>) = dispatcher_kept (d\<lparr>disp_state := st\<rparr>)"
  by (simp_all add: dispatcher_kept_def dispatcher_valid_def timestamp_valid_def)

lemma register_at_same:
  assumes "same_dispatchers uc m n" and "dispatcher_valid d" and "dispatcher_kept d' = dispatcher_kept d"
    and "disp_id d' = disp_id d" and "dispatcher_valid d'"
  shows "same_dispatchers uc (snd (sqp_register_at uc k d m)) (n\<lparr>dispatchers := hm_insert (disp_id d') d' (dispatchers n)\<rparr>)"
proof -
  have inv: "sqp_inv uc m" and io: "sqp_io m = (\<lambda>_. False)"
    using assms(1) by (simp_all add: same_dispatchers_def)
  obtain m' where m': "sqp_register_at uc k d m = (Ok (), m')" "sqp_io m' = (\<lambda>_. False)"
    using io by (simp add: sqp_stmt_defs)
  from sqp_get_register_at [OF inv assms(2) m'(1)] have
    "sqp_get uc i m' = (if i = disp_id d then Ok (Some (dispatcher_kept d)) else sqp_get uc i m)" for i
    by (simp add: io)
  then show ?thesis
    using assms sqp_inv_register_at [OF inv assms(2), of k] m'
    by (auto simp: same_dispatchers_def hm_simps)
qed

lemma dispatcher_step_same:
  assumes "same_dispatchers uc m n" and "op_valid oper"
  shows "same_dispatchers uc (sqp_step uc oper m) (imp_step oper n)"
proof (cases oper)
  case (Register_dispatcher d)
  with register_at_same [OF assms(1), of d d 0] assms(2) show ?thesis
    by (simp add: sqp_register_def imp_register_def)
next
  case (Suspend_dispatcher i)
  show ?thesis
  proof (cases "hm_get (dispatchers n) i")
    case None
    with assms(1) Suspend_dispatcher show ?thesis
      by (simp add: sqp_suspend_def imp_defs same_dispatchers_def)
  next
    case (Some d)
    with assms(1) have d: "dispatcher_valid d" "disp_id d = i" "sqp_get uc i m = Ok (Some (dispatcher_kept d))"
      by (auto simp: same_dispatchers_def rows_ok_def)
    with register_at_same [OF assms(1), of "dispatcher_kept d\<lparr>disp_state := Dispatcher_Suspended\<rparr>"
        "d\<lparr>disp_state := Dispatcher_Suspended\<rparr>" 1] Some Suspend_dispatcher
    show ?thesis by (simp add: sqp_suspend_def imp_defs)
  qed
qed

lemma dispatcher_run_same:
  "same_dispatchers uc m n \<Longrightarrow> list_all op_valid ops \<Longrightarrow>
     same_dispatchers uc (fold (sqp_step uc) ops m) (fold imp_step ops n)"
  by (induction ops arbitrary: m n) (simp_all add: dispatcher_step_same)

definition empty_sqlite_dispatchers :: SqliteDispatcherRegistry where
  "empty_sqlite_dispatchers = \<lparr>sqp_table = [], sqp_io = (\<lambda>_. False)\<rparr>"

lemma empty_same: "ulid_codec_ok uc \<Longrightarrow> same_dispatchers uc empty_sqlite_dispatchers InMemoryDispatcherRegistry_new"
  by (simp add: same_dispatchers_def sqp_inv_def empty_sqlite_dispatchers_def InMemoryDispatcherRegistry_new_def
      sqp_get_def)

text \<open>A text form for the witnesses: an identifier in unary.\<close>

definition sample_ulid_codec :: ulid_codec where
  "sample_ulid_codec = \<lparr>uc_show = (\<lambda>u. replicate (unat u) (CHR ''x'')), uc_parse = (\<lambda>s. Some (of_nat (length s)))\<rparr>"

lemma sample_ulid_codec_ok: "ulid_codec_ok sample_ulid_codec"
  by (simp add: ulid_codec_ok_def sample_ulid_codec_def)

subsection \<open>Properties\<close>

text \<open>
  C33.  Hello does not depend on the back end.  After any sequence of registrations and suspensions,
  prime answers every hello the same whether its dispatchers are in memory or in SQLite, provided no
  statement fails.
\<close>

theorem hello_backends_agree:
  assumes "ulid_codec_ok uc" and "list_all op_valid ops"
  shows "fst (prime_on_hello (sqlite_dispatchers uc ord) h i
      \<lparr>dispatcher_registry = fold (sqp_step uc) ops empty_sqlite_dispatchers, device_registry = dv,
       reading_registry = rd, device_status_registry = sr\<rparr>) =
    fst (prime_on_hello (in_memory_dispatchers ord') h i
      \<lparr>dispatcher_registry = fold imp_step ops InMemoryDispatcherRegistry_new, device_registry = dv,
       reading_registry = rd, device_status_registry = sr\<rparr>)"
  using dispatcher_run_same [OF empty_same [OF assms(1)] assms(2)]
  by (auto simp: prime_on_hello_def sqlite_dispatchers_def in_memory_dispatchers_def imp_get_def
      same_dispatchers_def split: option.split)

theorem hello_backends_agree_witness:
  "fst (prime_on_hello (sqlite_dispatchers sample_ulid_codec forward_order)
      \<lparr>hello_dispatcher_id = DispatcherId 7, hello_location = H3Cell 1\<rparr> (MessageId 1)
      \<lparr>dispatcher_registry = fold (sqp_step sample_ulid_codec)
         [Register_dispatcher (sample_dispatcher 7 Dispatcher_Active), Suspend_dispatcher (DispatcherId 7)]
         empty_sqlite_dispatchers,
       device_registry = (), reading_registry = (), device_status_registry = ()\<rparr>) =
   Rejected DispatcherSuspended"
  using hello_backends_agree [OF sample_ulid_codec_ok,
      of "[Register_dispatcher (sample_dispatcher 7 Dispatcher_Active), Suspend_dispatcher (DispatcherId 7)]"
        forward_order "\<lparr>hello_dispatcher_id = DispatcherId 7, hello_location = H3Cell 1\<rparr>" "MessageId 1" "()" "()" "()"
        forward_order]
  by (simp add: prime_on_hello_def in_memory_dispatchers_def imp_defs hm_simps InMemoryDispatcherRegistry_new_def
      dispatcher_valid_def timestamp_valid_def as_second_def MIN_SECOND_def MAX_SECOND_def sample_dispatcher_def)

end
