(* ===== verification/Prime_Sqlite_Reading.thy ===== *)
theory Prime_Sqlite_Reading
  imports Prime_Sqlite_Dispatcher
begin

text \<open>
  The SQLite reading registry of prime (\<open>ersha-prime/src/registry/sqlite/reading.rs\<close>).
\<close>

record reading_row =
  rr_id :: string
  rr_device_id :: string
  rr_dispatcher_id :: string
  rr_sensor_id :: string
  rr_metric_type :: int
  rr_metric_value :: f64
  rr_location :: int
  rr_confidence :: int
  rr_timestamp :: int

record SqliteReadingRegistry =
  sqr_table :: "(string, reading_row) hashmap"
  sqr_io :: "nat \<Rightarrow> bool"

definition SqliteReadingRegistry_new ::
    "SqliteReadingRegistry \<Rightarrow> (SqliteReadingRegistry, sqlite_error) result" where
  "SqliteReadingRegistry_new db =
     (if sqr_io db 0 then Err (SE_Sqlx Sqlx_Io) else if sqr_io db 1 then Err SE_Migration else Ok db)"

definition reading_to_row :: "ulid_codec \<Rightarrow> SensorReading \<Rightarrow> reading_row" where
  "reading_to_row uc r =
     \<lparr>rr_id = uc_show uc (reading_ulid (rd_id r)),
      rr_device_id = uc_show uc (device_ulid (rd_device_id r)),
      rr_dispatcher_id = uc_show uc (dispatcher_ulid (rd_dispatcher_id r)),
      rr_sensor_id = uc_show uc (sensor_ulid (rd_sensor_id r)),
      rr_metric_type = fst (disect_metric (rd_metric r)), rr_metric_value = snd (disect_metric (rd_metric r)),
      rr_location = u64_as_i64 (h3_index (rd_location r)),
      rr_confidence = uint (percent (rd_confidence r)), rr_timestamp = as_second (rd_timestamp r)\<rparr>"

definition map_row_to_reading :: "ulid_codec \<Rightarrow> reading_row \<Rightarrow> (SensorReading, sqlite_error) result" where
  "map_row_to_reading uc r =
     and_then (ulid_column uc (rr_id r)) (\<lambda>i.
     and_then (ulid_column uc (rr_device_id r)) (\<lambda>device_id.
     and_then (ulid_column uc (rr_dispatcher_id r)) (\<lambda>dispatcher_id.
     and_then (ulid_column uc (rr_sensor_id r)) (\<lambda>sensor_id.
     and_then (metric_column (rr_metric_type r) (rr_metric_value r)) (\<lambda>metric.
     and_then (timestamp_column (rr_timestamp r)) (\<lambda>ts.
       Ok \<lparr>rd_id = ReadingId i, rd_device_id = DeviceId device_id, rd_dispatcher_id = DispatcherId dispatcher_id,
           rd_metric = metric, rd_location = H3Cell (i64_as_u64 (rr_location r)),
           rd_confidence = Percentage (word_of_int (rr_confidence r)), rd_timestamp = ts,
           rd_sensor_id = SensorId sensor_id\<rparr>))))))"

definition sqr_insert ::
    "ulid_codec \<Rightarrow> nat \<Rightarrow> SensorReading \<Rightarrow> SqliteReadingRegistry \<Rightarrow>
     (unit, sqlite_error) result \<times> SqliteReadingRegistry" where
  "sqr_insert uc n r m =
     (let (res, t) = run_stmt (sqr_io m) n
            (sql_insert_or_replace (uc_show uc (reading_ulid (rd_id r))) (reading_to_row uc r)) (sqr_table m)
      in (map_sum SE_Sqlx id res, m\<lparr>sqr_table := t\<rparr>))"

definition sqr_store where
  "sqr_store uc r m = sqr_insert uc 0 r m"

definition sqr_get ::
    "ulid_codec \<Rightarrow> ReadingId \<Rightarrow> SqliteReadingRegistry \<Rightarrow> (SensorReading option, sqlite_error) result" where
  "sqr_get uc i m =
     (if sqr_io m 0 then Err (SE_Sqlx Sqlx_Io)
      else case hm_get (sqr_table m) (uc_show uc (reading_ulid i)) of
             None \<Rightarrow> Ok None
           | Some r \<Rightarrow> and_then (map_row_to_reading uc r) (\<lambda>d. Ok (Some d)))"

definition sqr_batch_store ::
    "ulid_codec \<Rightarrow> SensorReading list \<Rightarrow> SqliteReadingRegistry \<Rightarrow>
     (unit, sqlite_error) result \<times> SqliteReadingRegistry" where
  "sqr_batch_store uc rs m =
     transaction SE_Sqlx (sqr_io m) (Suc (length rs)) (tx_each (sqr_insert uc) 1 rs) m"

fun metric_type_code :: "SensorMetricType \<Rightarrow> int" where
  "metric_type_code MT_SoilMoisture = 0"
| "metric_type_code MT_SoilTemp = 1"
| "metric_type_code MT_AirTemp = 2"
| "metric_type_code MT_Humidity = 3"
| "metric_type_code MT_Rainfall = 4"

definition reading_where :: "ulid_codec \<Rightarrow> ReadingFilter \<Rightarrow> reading_row \<Rightarrow> bool" where
  "reading_where uc f r \<longleftrightarrow>
     sql_in (\<lambda>i. uc_show uc (reading_ulid i)) (rf_ids f) (rr_id r) \<and>
     sql_in (\<lambda>i. uc_show uc (device_ulid i)) (rf_device_ids f) (rr_device_id r) \<and>
     sql_in (\<lambda>i. uc_show uc (sensor_ulid i)) (rf_sensor_ids f) (rr_sensor_id r) \<and>
     sql_in (\<lambda>i. uc_show uc (dispatcher_ulid i)) (rf_dispatcher_ids f) (rr_dispatcher_id r) \<and>
     sql_in metric_type_code (rf_metric_types f) (rr_metric_type r) \<and>
     sql_in (\<lambda>l. u64_as_i64 (h3_index l)) (rf_locations f) (rr_location r) \<and>
     sql_window (rf_timestamp_after f) (rf_timestamp_before f) (rr_timestamp r) \<and>
     sql_between uint (rf_confidence_range f) (rr_confidence r)"

definition sqr_count ::
    "ulid_codec \<Rightarrow> ReadingFilter option \<Rightarrow> SqliteReadingRegistry \<Rightarrow> (nat, sqlite_error) result" where
  "sqr_count uc f m =
     (if sqr_io m 0 then Err (SE_Sqlx Sqlx_Io)
      else Ok (sql_count (case f of Some f' \<Rightarrow> reading_where uc f' | None \<Rightarrow> (\<lambda>_. True)) (sqr_table m)))"

definition reading_row_order :: "ReadingSortBy \<Rightarrow> reading_row comparator" where
  "reading_row_order sort_by =
     (case sort_by of
        ReadBy_Timestamp \<Rightarrow> key rr_timestamp default
      | ReadBy_Confidence \<Rightarrow> key rr_confidence default
      | ReadBy_DeviceId \<Rightarrow> key rr_device_id default)"

definition sqr_list ::
    "ulid_codec \<Rightarrow> (string, reading_row) hash_order \<Rightarrow> (ReadingFilter, ReadingSortBy) QueryOptions \<Rightarrow>
     SqliteReadingRegistry \<Rightarrow> (SensorReading list, sqlite_error) result" where
  "sqr_list uc ord options m =
     (if sqr_io m 0 then Err (SE_Sqlx Sqlx_Io)
      else let rows = filter (reading_where uc (qo_filter options)) (hm_values ord (sqr_table m));
               ranked = sql_order_by (reading_row_order (qo_sort_by options)) (qo_sort_order options) rows
           in try_map (map_row_to_reading uc) (sql_page (qo_pagination options) ranked))"

definition sqlite_reading_registry ::
    "ulid_codec \<Rightarrow> (string, reading_row) hash_order \<Rightarrow> (SqliteReadingRegistry, sqlite_error) ReadingRegistry" where
  "sqlite_reading_registry uc ord =
     \<lparr>read_store = sqr_store uc, read_get = sqr_get uc, read_batch_store = sqr_batch_store uc,
      read_count = sqr_count uc, read_list = sqr_list uc ord\<rparr>"

subsection \<open>The registry keeps its contracts\<close>

definition reading_valid :: "SensorReading \<Rightarrow> bool" where
  "reading_valid r \<longleftrightarrow> timestamp_valid (rd_timestamp r) \<and> metric_not_nan (rd_metric r)"

definition reading_kept :: "SensorReading \<Rightarrow> SensorReading" where
  "reading_kept r = r\<lparr>rd_timestamp := whole_second (rd_timestamp r)\<rparr>"

lemma map_row_to_reading_to_row:
  "ulid_codec_ok uc \<Longrightarrow> reading_valid r \<Longrightarrow> map_row_to_reading uc (reading_to_row uc r) = Ok (reading_kept r)"
  by (simp add: map_row_to_reading_def reading_to_row_def ulid_column_show timestamp_column_as_second
      metric_column_disect reading_valid_def reading_kept_def)

definition sqr_inv :: "ulid_codec \<Rightarrow> SqliteReadingRegistry \<Rightarrow> bool" where
  "sqr_inv uc m \<longleftrightarrow>
     ulid_codec_ok uc \<and> hm_wf (sqr_table m) \<and>
     (\<forall>k r. hm_get (sqr_table m) k = Some r \<longrightarrow>
        (\<exists>d. reading_valid d \<and> r = reading_to_row uc d \<and> k = uc_show uc (reading_ulid (rd_id d))))"

lemmas sqr_stmt_defs = sqr_insert_def run_stmt_def sql_insert_or_replace_def

lemma sqr_insert_OkD:
  "sqr_insert uc n r m = (Ok u, m') \<Longrightarrow>
     m' = m\<lparr>sqr_table := hm_insert (uc_show uc (reading_ulid (rd_id r))) (reading_to_row uc r) (sqr_table m)\<rparr>"
  by (auto simp: sqr_stmt_defs split: if_splits)

lemma sqr_get_insert:
  assumes "sqr_inv uc m" and "reading_valid r" and "sqr_insert uc n r m = (Ok u, m')"
  shows "sqr_get uc k m' = (if k = rd_id r \<and> \<not> sqr_io m 0 then Ok (Some (reading_kept r)) else sqr_get uc k m)"
proof -
  have uc: "ulid_codec_ok uc" using assms(1) by (simp add: sqr_inv_def)
  have "(reading_ulid k = reading_ulid (rd_id r)) = (k = rd_id r)"
    by (cases k; cases "rd_id r") simp
  then show ?thesis
    using sqr_insert_OkD [OF assms(3)]
    by (simp add: sqr_get_def hm_simps uc_show_inject [OF uc] map_row_to_reading_to_row [OF uc assms(2)])
qed

lemma sqr_inv_insert: "sqr_inv uc m \<Longrightarrow> reading_valid r \<Longrightarrow> sqr_inv uc (snd (sqr_insert uc n r m))"
  by (auto simp: sqr_inv_def sqr_stmt_defs hm_simps)

lemma sqr_insert_Err: "fst (sqr_insert uc n r m) = Err e \<Longrightarrow> snd (sqr_insert uc n r m) = m"
  by (auto simp: sqr_stmt_defs split: if_splits)

interpretation sqlite_reading_rows:
  keyed_registry "sqr_store uc" "sqr_get uc" rd_id reading_kept reading_valid "sqr_inv uc" for uc
proof (unfold_locales, goal_cases)
  case (2 m r m' k)
  moreover from 2(3) have "\<not> sqr_io m 0"
    by (auto simp: sqr_store_def sqr_stmt_defs split: if_splits)
  ultimately show ?case
    using sqr_get_insert [OF 2(1,2), of 0 _ m' k] by (simp add: sqr_store_def)
next
  case (3 m r e m' k)
  with sqr_insert_Err [of uc 0 r m e] show ?case by (simp add: sqr_store_def)
qed (simp add: sqr_store_def sqr_inv_insert)

text \<open>A batch in a transaction: the loop as the iterated statement.\<close>

lemma tx_each_sqr_get:
  assumes "sqr_inv uc m" and "list_all reading_valid rs" and "\<not> sqr_io m 0"
    and "tx_each (sqr_insert uc) n rs m = (Ok u, m')"
  shows "sqr_inv uc m' \<and> sqr_io m' = sqr_io m \<and>
    sqr_get uc k m' = (case find (\<lambda>r. rd_id r = k) (rev rs) of Some r \<Rightarrow> Ok (Some (reading_kept r)) | None \<Rightarrow> sqr_get uc k m)"
  using assms
proof (induction rs arbitrary: m n)
  case (Cons r rs)
  obtain m1 where m1: "sqr_insert uc n r m = (Ok (), m1)" "tx_each (sqr_insert uc) (Suc n) rs m1 = (Ok u, m')"
    using Cons.prems(4) by (auto split: prod.splits sum.splits)
  have valid: "reading_valid r" "list_all reading_valid rs" using Cons.prems(2) by simp_all
  have "sqr_inv uc m1" "sqr_io m1 = sqr_io m"
    using sqr_inv_insert [OF Cons.prems(1) valid(1), of n] sqr_insert_OkD [OF m1(1)] m1(1) by simp_all
  with Cons.IH [OF _ valid(2) _ m1(2)] sqr_get_insert [OF Cons.prems(1) valid(1) m1(1), of k] Cons.prems(3)
  show ?case by (auto simp: find_append split: option.splits)
qed simp

definition sample_sqlite_readings :: SqliteReadingRegistry where
  "sample_sqlite_readings = \<lparr>sqr_table = [], sqr_io = (\<lambda>_. False)\<rparr>"

lemma sample_sqlite_readings_inv: "sqr_inv sample_ulid_codec sample_sqlite_readings"
  by (simp add: sqr_inv_def sample_sqlite_readings_def sample_ulid_codec_ok)

lemma sample_reading_valid: "reading_valid (sample_reading i d)"
  by (simp add: reading_valid_def sample_reading_def timestamp_valid_def as_second_def MIN_SECOND_def MAX_SECOND_def)

lemma sqr_batch_store_spec:
  assumes "sqr_inv uc m" and "list_all reading_valid rs"
  shows "case sqr_batch_store uc rs m of
      (Inl e, m') \<Rightarrow> m' = m
    | (Inr _, m') \<Rightarrow> sqr_inv uc m' \<and>
        (\<forall>k. sqr_get uc k m' =
          (case find (\<lambda>r. rd_id r = k) (rev rs) of
             Some r \<Rightarrow> Ok (Some (r\<lparr>rd_timestamp := whole_second (rd_timestamp r)\<rparr>))
           | None \<Rightarrow> sqr_get uc k m))"
proof (cases "sqr_batch_store uc rs m")
  case (Pair res m')
  show ?thesis
  proof (cases res)
    case (Inl e)
    with Pair transaction_Err [of SE_Sqlx "sqr_io m" "Suc (length rs)" "tx_each (sqr_insert uc) 1 rs" m e]
    show ?thesis by (simp add: sqr_batch_store_def)
  next
    case (Inr u)
    with Pair have "transaction SE_Sqlx (sqr_io m) (Suc (length rs)) (tx_each (sqr_insert uc) 1 rs) m = (Ok u, m')"
      by (simp add: sqr_batch_store_def)
    note tx = this transaction_OkD [OF this]
    from tx(1) have "\<not> sqr_io m 0" by (auto simp: transaction_def split: if_splits)
    then have "sqr_inv uc m' \<and> sqr_get uc k m' =
        (case find (\<lambda>r. rd_id r = k) (rev rs) of Some r \<Rightarrow> Ok (Some (reading_kept r)) | None \<Rightarrow> sqr_get uc k m)" for k
      using tx_each_sqr_get [OF assms _ tx(2), of k] by simp
    then show ?thesis unfolding reading_kept_def [symmetric] by (simp add: Pair Inr)
  qed
qed

subsection \<open>Properties\<close>

text \<open>
  C24.  Storing a batch of readings in SQLite.  It is all or nothing: if any statement fails the
  registry is unchanged.  Otherwise every lookup returns the last reading of the batch with that
  identifier, exactly as it was apart from the fraction of a second in its timestamp, and for all
  other identifiers what it returned before.
\<close>

theorem sqlite_reading_batch:
  assumes "sqr_inv uc m" and "list_all reading_valid rs"
  shows "case sqr_batch_store uc rs m of
      (Inl e, m') \<Rightarrow> m' = m
    | (Inr _, m') \<Rightarrow> sqr_inv uc m' \<and>
        (\<forall>k. sqr_get uc k m' =
          (case find (\<lambda>r. rd_id r = k) (rev rs) of
             Some r \<Rightarrow> Ok (Some (r\<lparr>rd_timestamp := whole_second (rd_timestamp r)\<rparr>))
           | None \<Rightarrow> sqr_get uc k m))"
  by (rule sqr_batch_store_spec [OF assms])

theorem sqlite_reading_batch_witness:
  "case sqr_batch_store sample_ulid_codec [sample_reading 1 5, sample_reading 2 4] sample_sqlite_readings of
     (Inl e, m') \<Rightarrow> False
   | (Inr _, m') \<Rightarrow> sqr_get sample_ulid_codec (ReadingId 2) m' = Ok (Some (sample_reading 2 4))"
proof -
  have "\<not> isl (fst (sqr_batch_store sample_ulid_codec [sample_reading 1 5, sample_reading 2 4] sample_sqlite_readings))"
    by (simp add: sqr_batch_store_def transaction_def sqr_stmt_defs sample_sqlite_readings_def)
  moreover have "whole_second (rd_timestamp (sample_reading 2 4)) = rd_timestamp (sample_reading 2 4)"
    by (simp add: whole_second_def as_second_def sample_reading_def)
  ultimately show ?thesis
    using sqlite_reading_batch [OF sample_sqlite_readings_inv, of "[sample_reading 1 5, sample_reading 2 4]"]
    by (auto simp: sample_reading_valid split: prod.splits sum.splits)
qed

text \<open>
  Cursors are ignored by the SQLite registry of readings: whatever the cursor, the page is the
  first one, so a client that follows cursors never gets past it.
\<close>

lemma sqlite_cursor_ignored:
  "sqr_list uc ord \<lparr>qo_filter = f, qo_sort_by = sb, qo_sort_order = so, qo_pagination = Cursor after limit\<rparr> m =
   sqr_list uc ord \<lparr>qo_filter = f, qo_sort_by = sb, qo_sort_order = so, qo_pagination = Offset 0 limit\<rparr> m"
  by (simp add: sqr_list_def sql_page_def sql_offset_def)

end
