(* ===== verification/Prime_Sqlite_Device.thy ===== *)
theory Prime_Sqlite_Device
  imports Prime_Sqlite_Reading
begin

text \<open>
  The SQLite device registry of prime (\<open>ersha-prime/src/registry/sqlite/device.rs\<close>) on the tables of
  \<open>ersha-prime/migrations/001_init.sql\<close>: devices, and sensors with a foreign key to their device.  The
  column \<open>sensor_count\<close> is kept by triggers.  The conflict clause \<open>OR REPLACE\<close> deletes the old row
  without firing the delete trigger (SQLite fires it only under \<open>recursive_triggers\<close>, which is off), and
  sqlx switches the foreign keys on.
\<close>

record device_row =
  vr_id :: string
  vr_kind :: int
  vr_state :: int
  vr_location :: int
  vr_manufacturer :: "string option"
  vr_provisioned_at :: int
  vr_sensor_count :: int

record sensor_row =
  nr_id :: string
  nr_kind :: int
  nr_metric_type :: int
  nr_metric_value :: f64
  nr_device_id :: string

record SqliteDeviceRegistry =
  sqd_devices :: "(string, device_row) hashmap"
  sqd_sensors :: "(string, sensor_row) hashmap"
  sqd_io :: "nat \<Rightarrow> bool"

definition SqliteDeviceRegistry_new ::
    "SqliteDeviceRegistry \<Rightarrow> (SqliteDeviceRegistry, sqlite_error) result" where
  "SqliteDeviceRegistry_new db =
     (if sqd_io db 0 then Err (SE_Sqlx Sqlx_Io) else if sqd_io db 1 then Err SE_Migration else Ok db)"

subsection \<open>Rows\<close>

fun device_kind_code :: "DeviceKind \<Rightarrow> int" where
  "device_kind_code DK_Sensor = 0"

fun device_state_code :: "DeviceState \<Rightarrow> int" where
  "device_state_code Device_Active = 0"
| "device_state_code Device_Suspended = 1"

fun sensor_kind_code :: "SensorKind \<Rightarrow> int" where
  "sensor_kind_code SK_SoilMoisture = 0"
| "sensor_kind_code SK_SoilTemp = 1"
| "sensor_kind_code SK_AirTemp = 2"
| "sensor_kind_code SK_Humidity = 3"
| "sensor_kind_code SK_Rainfall = 4"

text \<open>The row of a device as inserted: the column \<open>sensor_count\<close> is not bound and takes its default.\<close>

definition device_to_row :: "ulid_codec \<Rightarrow> Device \<Rightarrow> device_row" where
  "device_to_row uc d =
     \<lparr>vr_id = uc_show uc (device_ulid (dev_id d)), vr_kind = device_kind_code (dev_kind d),
      vr_state = device_state_code (dev_state d), vr_location = u64_as_i64 (h3_index (dev_location d)),
      vr_manufacturer = dev_manufacturer d, vr_provisioned_at = as_second (dev_provisioned_at d),
      vr_sensor_count = 0\<rparr>"

definition sensor_to_row :: "ulid_codec \<Rightarrow> DeviceId \<Rightarrow> Sensor \<Rightarrow> sensor_row" where
  "sensor_to_row uc i s =
     \<lparr>nr_id = uc_show uc (sensor_ulid (sensor_id s)), nr_kind = sensor_kind_code (sensor_kind s),
      nr_metric_type = fst (disect_metric (sensor_metric s)), nr_metric_value = snd (disect_metric (sensor_metric s)),
      nr_device_id = uc_show uc (device_ulid i)\<rparr>"

definition sensor_kind_column :: "int \<Rightarrow> (SensorKind, sqlite_error) result" where
  "sensor_kind_column k =
     (if k = 0 then Ok SK_SoilMoisture
      else if k = 1 then Ok SK_SoilTemp
      else if k = 2 then Ok SK_AirTemp
      else if k = 3 then Ok SK_Humidity
      else if k = 4 then Ok SK_Rainfall
      else Err (SE_InvalidSensorKind k))"

definition device_state_column :: "int \<Rightarrow> (DeviceState, sqlite_error) result" where
  "device_state_column s =
     (if s = 0 then Ok Device_Active else if s = 1 then Ok Device_Suspended else Err (SE_InvalidState s))"

definition device_kind_column :: "int \<Rightarrow> (DeviceKind, sqlite_error) result" where
  "device_kind_column k = (if k = 0 then Ok DK_Sensor else Err (SE_InvalidDeviceKind k))"

definition map_row_to_sensor :: "ulid_codec \<Rightarrow> sensor_row \<Rightarrow> (Sensor, sqlite_error) result" where
  "map_row_to_sensor uc r =
     and_then (ulid_column uc (nr_id r)) (\<lambda>u.
     and_then (sensor_kind_column (nr_kind r)) (\<lambda>kind.
     and_then (metric_column (nr_metric_type r) (nr_metric_value r)) (\<lambda>metric.
       Ok \<lparr>sensor_id = SensorId u, sensor_metric = metric, sensor_kind = kind\<rparr>)))"

text \<open>The \<open>unwrap\<close> on the instant is a panic.\<close>

definition map_row_to_device :: "ulid_codec \<Rightarrow> device_row \<Rightarrow> (Device, sqlite_error) result" where
  "map_row_to_device uc r =
     and_then (ulid_column uc (vr_id r)) (\<lambda>u.
     and_then (device_kind_column (vr_kind r)) (\<lambda>kind.
     and_then (device_state_column (vr_state r)) (\<lambda>state.
     and_then (case from_second (vr_provisioned_at r) of Some t \<Rightarrow> Ok t | None \<Rightarrow> Err SE_Panic) (\<lambda>t.
       Ok \<lparr>dev_id = DeviceId u, dev_kind = kind, dev_state = state,
           dev_location = H3Cell (i64_as_u64 (vr_location r)), dev_manufacturer = vr_manufacturer r,
           dev_provisioned_at = t, dev_sensors = []\<rparr>))))"

subsection \<open>Operations\<close>

text \<open>\<open>INSERT OR REPLACE INTO devices\<close>, as the statement number \<open>n\<close> of the calling operation.\<close>

definition sqd_insert_device ::
    "ulid_codec \<Rightarrow> nat \<Rightarrow> Device \<Rightarrow> SqliteDeviceRegistry \<Rightarrow> (unit, sqlite_error) result \<times> SqliteDeviceRegistry" where
  "sqd_insert_device uc n d m =
     (let (r, t) = run_stmt (sqd_io m) n
            (sql_insert_or_replace (uc_show uc (device_ulid (dev_id d))) (device_to_row uc d)) (sqd_devices m)
      in (map_sum SE_Sqlx id r, m\<lparr>sqd_devices := t\<rparr>))"

text \<open>
  \<open>INSERT OR REPLACE INTO sensors\<close>: the foreign key needs the device, and \<open>trg_increment_sensor_count\<close>
  counts the insertion, of a new sensor as of a replaced one.
\<close>

definition sensors_insert ::
    "string \<Rightarrow> sensor_row \<Rightarrow> SqliteDeviceRegistry \<Rightarrow> (unit, sqlx_error) result \<times> SqliteDeviceRegistry" where
  "sensors_insert k row m =
     (case hm_get (sqd_devices m) (nr_device_id row) of
        None \<Rightarrow> (Err Sqlx_ForeignKeyViolation, m)
      | Some _ \<Rightarrow>
          (Ok (),
           m\<lparr>sqd_sensors := hm_insert k row (sqd_sensors m),
             sqd_devices := hm_modify (nr_device_id row)
               (\<lambda>d. d\<lparr>vr_sensor_count := vr_sensor_count d + 1\<rparr>) (sqd_devices m)\<rparr>))"

definition sqd_insert_sensor ::
    "ulid_codec \<Rightarrow> DeviceId \<Rightarrow> nat \<Rightarrow> Sensor \<Rightarrow> SqliteDeviceRegistry \<Rightarrow>
     (unit, sqlite_error) result \<times> SqliteDeviceRegistry" where
  "sqd_insert_sensor uc i n s m =
     map_err SE_Sqlx (run_stmt (sqd_io m) n
       (sensors_insert (uc_show uc (sensor_ulid (sensor_id s))) (sensor_to_row uc i s)) m)"

definition sqd_add_sensor where
  "sqd_add_sensor uc i s m = sqd_insert_sensor uc i 0 s m"

definition sqd_add_sensors_at ::
    "ulid_codec \<Rightarrow> nat \<Rightarrow> DeviceId \<Rightarrow> Sensor list \<Rightarrow> SqliteDeviceRegistry \<Rightarrow>
     (unit, sqlite_error) result \<times> SqliteDeviceRegistry" where
  "sqd_add_sensors_at uc n i sensors m =
     transaction SE_Sqlx (\<lambda>j. sqd_io m (n + j)) (Suc (length sensors))
       (tx_each (sqd_insert_sensor uc i) (Suc n) sensors) m"

definition sqd_add_sensors where
  "sqd_add_sensors uc i sensors m = sqd_add_sensors_at uc 0 i sensors m"

definition sqd_register_at ::
    "ulid_codec \<Rightarrow> nat \<Rightarrow> Device \<Rightarrow> SqliteDeviceRegistry \<Rightarrow> (unit, sqlite_error) result \<times> SqliteDeviceRegistry" where
  "sqd_register_at uc n d m =
     (case sqd_insert_device uc n d m of
        (Inl e, m') \<Rightarrow> (Err e, m')
      | (Inr _, m') \<Rightarrow> sqd_add_sensors_at uc (Suc n) (dev_id d) (dev_sensors d) m')"

definition sqd_register where
  "sqd_register uc d m = sqd_register_at uc 0 d m"

text \<open>The sensors are decoded first; the instant, the state and the kind of the device after them.\<close>

definition sqd_get ::
    "ulid_codec \<Rightarrow> (string, sensor_row) hash_order \<Rightarrow> DeviceId \<Rightarrow> SqliteDeviceRegistry \<Rightarrow>
     (Device option, sqlite_error) result" where
  "sqd_get uc ord i m =
     (if sqd_io m 0 then Err (SE_Sqlx Sqlx_Io)
      else case hm_get (sqd_devices m) (uc_show uc (device_ulid i)) of
             None \<Rightarrow> Ok None
           | Some r \<Rightarrow>
               if sqd_io m 1 then Err (SE_Sqlx Sqlx_Io)
               else
                 and_then (try_map (map_row_to_sensor uc)
                   (filter (\<lambda>s. nr_device_id s = uc_show uc (device_ulid i)) (hm_values ord (sqd_sensors m)))) (\<lambda>sensors.
                 and_then (timestamp_column (vr_provisioned_at r)) (\<lambda>t.
                 and_then (device_state_column (vr_state r)) (\<lambda>state.
                 and_then (device_kind_column (vr_kind r)) (\<lambda>kind.
                   Ok (Some \<lparr>dev_id = i, dev_kind = kind, dev_state = state,
                       dev_location = H3Cell (i64_as_u64 (vr_location r)), dev_manufacturer = vr_manufacturer r,
                       dev_provisioned_at = t, dev_sensors = sensors\<rparr>))))))"

definition sqd_update ::
    "ulid_codec \<Rightarrow> (string, sensor_row) hash_order \<Rightarrow> DeviceId \<Rightarrow> Device \<Rightarrow> SqliteDeviceRegistry \<Rightarrow>
     (unit, sqlite_error) result \<times> SqliteDeviceRegistry" where
  "sqd_update uc ord i new m =
     (case sqd_get uc ord i m of
        Inl e \<Rightarrow> (Err e, m)
      | Inr None \<Rightarrow> (Err SE_NotFound, m)
      | Inr (Some old) \<Rightarrow> sqd_register_at uc 2 (new\<lparr>dev_id := dev_id old\<rparr>) m)"

definition sqd_suspend ::
    "ulid_codec \<Rightarrow> (string, sensor_row) hash_order \<Rightarrow> DeviceId \<Rightarrow> SqliteDeviceRegistry \<Rightarrow>
     (unit, sqlite_error) result \<times> SqliteDeviceRegistry" where
  "sqd_suspend uc ord i m =
     (case sqd_get uc ord i m of
        Inl e \<Rightarrow> (Err e, m)
      | Inr None \<Rightarrow> (Err SE_NotFound, m)
      | Inr (Some device) \<Rightarrow> sqd_register_at uc 2 (device\<lparr>dev_state := Device_Suspended\<rparr>) m)"

text \<open>
  \<open>batch_register\<close> inserts the devices in a transaction but calls \<open>add_sensors\<close>, which takes another
  connection of the pool.  The transaction holds the write lock, so the first \<open>INSERT\<close> of the other
  connection fails as busy; with no sensors the other connection only begins and commits.  The three
  statements of the device number \<open>j\<close> are numbered from \<open>3 * j + 1\<close>.
\<close>

definition add_sensors_elsewhere ::
    "nat \<Rightarrow> Sensor list \<Rightarrow> SqliteDeviceRegistry \<Rightarrow> (unit, sqlite_error) result" where
  "add_sensors_elsewhere n sensors m =
     (if sqd_io m n then Err (SE_Sqlx Sqlx_Io)
      else if sensors \<noteq> [] then Err (SE_Sqlx Sqlx_Busy)
      else if sqd_io m (Suc n) then Err (SE_Sqlx Sqlx_Io) else Ok ())"

definition sqd_batch_step ::
    "ulid_codec \<Rightarrow> nat \<Rightarrow> Device \<Rightarrow> SqliteDeviceRegistry \<Rightarrow> (unit, sqlite_error) result \<times> SqliteDeviceRegistry" where
  "sqd_batch_step uc j d m =
     (case sqd_insert_device uc (3 * j + 1) d m of
        (Inl e, m') \<Rightarrow> (Err e, m')
      | (Inr _, m') \<Rightarrow> (add_sensors_elsewhere (3 * j + 2) (dev_sensors d) m', m'))"

definition sqd_batch_register ::
    "ulid_codec \<Rightarrow> Device list \<Rightarrow> SqliteDeviceRegistry \<Rightarrow> (unit, sqlite_error) result \<times> SqliteDeviceRegistry" where
  "sqd_batch_register uc ds m =
     transaction SE_Sqlx (sqd_io m) (3 * length ds + 1) (tx_each (sqd_batch_step uc) 0 ds) m"

subsection \<open>Queries\<close>

text \<open>
  The operator \<open>LIKE\<close> of SQLite: a percent sign matches any text, an underscore any character, and
  letters match up to the case of ASCII.
\<close>

definition ascii_lower :: "char \<Rightarrow> char" where
  "ascii_lower c =
     (let n = (of_char c :: nat) in if 65 \<le> n \<and> n \<le> 90 then char_of (n + 32) else c)"

fun sql_like :: "string \<Rightarrow> string \<Rightarrow> bool" where
  "sql_like [] s = (s = [])"
| "sql_like (p # ps) [] = (p = CHR ''%'' \<and> sql_like ps [])"
| "sql_like (p # ps) (c # cs) =
     (if p = CHR ''%'' then sql_like ps (c # cs) \<or> sql_like (p # ps) cs
      else (p = CHR ''_'' \<or> ascii_lower p = ascii_lower c) \<and> sql_like ps cs)"

text \<open>The cast \<open>usize as i64\<close>.\<close>

definition usize_as_i64 :: "nat \<Rightarrow> int" where
  "usize_as_i64 n = u64_as_i64 (of_nat n)"

definition device_where :: "ulid_codec \<Rightarrow> DeviceFilter \<Rightarrow> device_row \<Rightarrow> bool" where
  "device_where uc f r \<longleftrightarrow>
     sql_in (\<lambda>i. uc_show uc (device_ulid i)) (df_ids f) (vr_id r) \<and>
     sql_in device_state_code (df_states f) (vr_state r) \<and>
     sql_in device_kind_code (df_kinds f) (vr_kind r) \<and>
     sql_in (\<lambda>l. u64_as_i64 (h3_index l)) (df_locations f) (vr_location r) \<and>
     sql_window (df_provisioned_after f) (df_provisioned_before f) (vr_provisioned_at r) \<and>
     sql_between usize_as_i64 (df_sensor_count f) (vr_sensor_count r) \<and>
     (case df_manufacturer_pattern f of
        None \<Rightarrow> True
      | Some pattern \<Rightarrow>
          (case vr_manufacturer r of
             None \<Rightarrow> False
           | Some s \<Rightarrow> sql_like (''%'' @ pattern @ ''%'') s))"

definition sqd_count ::
    "ulid_codec \<Rightarrow> DeviceFilter option \<Rightarrow> SqliteDeviceRegistry \<Rightarrow> (nat, sqlite_error) result" where
  "sqd_count uc f m =
     (if sqd_io m 0 then Err (SE_Sqlx Sqlx_Io)
      else Ok (sql_count (case f of Some f' \<Rightarrow> device_where uc f' | None \<Rightarrow> (\<lambda>_. True)) (sqd_devices m)))"

definition device_row_order :: "DeviceSortBy \<Rightarrow> device_row comparator" where
  "device_row_order sort_by =
     (case sort_by of
        DevBy_State \<Rightarrow> key vr_state default
      | DevBy_Manufacturer \<Rightarrow> key vr_manufacturer default
      | DevBy_ProvisionAt \<Rightarrow> key vr_provisioned_at default
      | DevBy_SensorCount \<Rightarrow> key vr_sensor_count default)"

text \<open>The second query of \<open>list\<close>: each sensor is pushed on the first device with its \<open>device_id\<close>.\<close>

fun push_sensor :: "ulid_codec \<Rightarrow> string \<Rightarrow> Sensor \<Rightarrow> Device list \<Rightarrow> Device list" where
  "push_sensor uc k s [] = []"
| "push_sensor uc k s (d # ds) =
     (if uc_show uc (device_ulid (dev_id d)) = k then d\<lparr>dev_sensors := dev_sensors d @ [s]\<rparr> # ds
      else d # push_sensor uc k s ds)"

fun push_sensors :: "ulid_codec \<Rightarrow> sensor_row list \<Rightarrow> Device list \<Rightarrow> (Device list, sqlite_error) result" where
  "push_sensors uc [] ds = Ok ds"
| "push_sensors uc (r # rows) ds =
     and_then (map_row_to_sensor uc r) (\<lambda>s. push_sensors uc rows (push_sensor uc (nr_device_id r) s ds))"

definition sqd_list ::
    "ulid_codec \<Rightarrow> (string, device_row) hash_order \<Rightarrow> (string, sensor_row) hash_order \<Rightarrow>
     (DeviceFilter, DeviceSortBy) QueryOptions \<Rightarrow> SqliteDeviceRegistry \<Rightarrow> (Device list, sqlite_error) result" where
  "sqd_list uc dord ord options m =
     (if sqd_io m 0 then Err (SE_Sqlx Sqlx_Io)
      else let matching = filter (device_where uc (qo_filter options)) (hm_values dord (sqd_devices m));
               ranked = sql_order_by (device_row_order (qo_sort_by options)) (qo_sort_order options) matching;
               rows = sql_page (qo_pagination options) ranked
           in if rows = [] then Ok []
              else and_then (try_map (map_row_to_device uc) rows) (\<lambda>ds.
                if sqd_io m 1 then Err (SE_Sqlx Sqlx_Io)
                else push_sensors uc
                  (filter (\<lambda>s. nr_device_id s \<in> set (map vr_id rows)) (hm_values ord (sqd_sensors m))) ds))"

definition sqlite_device_registry ::
    "ulid_codec \<Rightarrow> (string, device_row) hash_order \<Rightarrow> (string, sensor_row) hash_order \<Rightarrow>
     (SqliteDeviceRegistry, sqlite_error) DeviceRegistry" where
  "sqlite_device_registry uc dord ord =
     \<lparr>dev_register = sqd_register uc, dev_get = sqd_get uc ord, dev_update = sqd_update uc ord,
      dev_suspend = sqd_suspend uc ord, dev_add_sensor = sqd_add_sensor uc, dev_add_sensors = sqd_add_sensors uc,
      dev_batch_register = sqd_batch_register uc, dev_count = sqd_count uc, dev_list = sqd_list uc dord ord\<rparr>"

subsection \<open>Invariant\<close>

text \<open>
  Every row decodes, is stored under its own identifier, and every sensor belongs to a device of the
  registry (the foreign key).
\<close>

definition sensor_valid :: "Sensor \<Rightarrow> bool" where
  "sensor_valid s \<longleftrightarrow> metric_not_nan (sensor_metric s)"

definition device_row_ok :: "ulid_codec \<Rightarrow> string \<Rightarrow> device_row \<Rightarrow> bool" where
  "device_row_ok uc k r \<longleftrightarrow>
     (\<exists>d. timestamp_valid (dev_provisioned_at d) \<and> r\<lparr>vr_sensor_count := 0\<rparr> = device_to_row uc d \<and>
          k = uc_show uc (device_ulid (dev_id d)))"

definition sensor_row_ok :: "ulid_codec \<Rightarrow> string \<Rightarrow> sensor_row \<Rightarrow> bool" where
  "sensor_row_ok uc k r \<longleftrightarrow>
     (\<exists>s i. sensor_valid s \<and> r = sensor_to_row uc i s \<and> k = uc_show uc (sensor_ulid (sensor_id s)))"

definition sqd_inv :: "ulid_codec \<Rightarrow> SqliteDeviceRegistry \<Rightarrow> bool" where
  "sqd_inv uc m \<longleftrightarrow>
     ulid_codec_ok uc \<and> hm_wf (sqd_devices m) \<and> hm_wf (sqd_sensors m) \<and>
     (\<forall>k r. hm_get (sqd_devices m) k = Some r \<longrightarrow> device_row_ok uc k r) \<and>
     (\<forall>k r. hm_get (sqd_sensors m) k = Some r \<longrightarrow>
        sensor_row_ok uc k r \<and> hm_get (sqd_devices m) (nr_device_id r) \<noteq> None)"

lemma sensor_row_ok_id: "sensor_row_ok uc k r \<Longrightarrow> nr_id r = k"
  by (auto simp: sensor_row_ok_def sensor_to_row_def)

definition device_valid :: "Device \<Rightarrow> bool" where
  "device_valid d \<longleftrightarrow>
     timestamp_valid (dev_provisioned_at d) \<and> list_all sensor_valid (dev_sensors d) \<and>
     distinct (map sensor_id (dev_sensors d))"

text \<open>The sensors the database holds for a device.\<close>

definition sensors_at :: "ulid_codec \<Rightarrow> DeviceId \<Rightarrow> SqliteDeviceRegistry \<Rightarrow> Sensor set" where
  "sensors_at uc i m =
     {s. sensor_valid s \<and> hm_get (sqd_sensors m) (uc_show uc (sensor_ulid (sensor_id s))) = Some (sensor_to_row uc i s)}"

lemma ulid_newtype_inject [simp]:
  "device_ulid a = device_ulid b \<longleftrightarrow> a = b" "sensor_ulid c = sensor_ulid d \<longleftrightarrow> c = d"
  by (cases a; cases b; simp) (cases c; cases d; simp)

lemma sensor_to_row_simps [simp]:
  "nr_device_id (sensor_to_row uc i s) = uc_show uc (device_ulid i)"
  "nr_id (sensor_to_row uc i s) = uc_show uc (sensor_ulid (sensor_id s))"
  by (simp_all add: sensor_to_row_def)

lemma sensor_kind_column_code [simp]: "sensor_kind_column (sensor_kind_code k) = Ok k"
  by (cases k) (simp_all add: sensor_kind_column_def)

lemma device_state_column_code [simp]: "device_state_column (device_state_code s) = Ok s"
  by (cases s) (simp_all add: device_state_column_def)

lemma device_kind_column_code [simp]: "device_kind_column (device_kind_code k) = Ok k"
  by (cases k) (simp add: device_kind_column_def)

lemma map_row_to_sensor_to_row:
  "ulid_codec_ok uc \<Longrightarrow> sensor_valid s \<Longrightarrow> map_row_to_sensor uc (sensor_to_row uc i s) = Ok s"
  by (simp add: map_row_to_sensor_def sensor_to_row_def ulid_column_show metric_column_disect sensor_valid_def)

lemma sensor_to_row_inject:
  assumes "ulid_codec_ok uc" and "sensor_valid s" and "sensor_valid s'" and "sensor_to_row uc i s = sensor_to_row uc j s'"
  shows "s = s' \<and> i = j"
proof -
  have "Ok s = (Ok s' :: (Sensor, sqlite_error) result)"
    using map_row_to_sensor_to_row assms by metis
  moreover have "nr_device_id (sensor_to_row uc i s) = nr_device_id (sensor_to_row uc j s')"
    by (simp only: assms(4))
  then have "i = j" by (simp add: sensor_to_row_def uc_show_inject [OF assms(1)])
  ultimately show ?thesis by simp
qed

text \<open>The sensor rows a query returns are those of the device, each once.\<close>

lemma sensor_rows_decode:
  assumes "sqd_inv uc m"
  obtains ss where "try_map (map_row_to_sensor uc)
      (filter (\<lambda>s. nr_device_id s = uc_show uc (device_ulid i)) (hm_values ord (sqd_sensors m))) = Ok ss"
    and "set ss = sensors_at uc i m" and "distinct (map sensor_id ss)"
proof -
  let ?rows = "filter (\<lambda>s. nr_device_id s = uc_show uc (device_ulid i)) (hm_values ord (sqd_sensors m))"
  define dec where "dec r = (case map_row_to_sensor uc r of Inr s \<Rightarrow> s | Inl _ \<Rightarrow> undefined)" for r
  have uc: "ulid_codec_ok uc" and wf: "hm_wf (sqd_sensors m)" using assms by (simp_all add: sqd_inv_def)
  have row: "\<exists>s. sensor_valid s \<and> r = sensor_to_row uc i s \<and>
      hm_get (sqd_sensors m) (uc_show uc (sensor_ulid (sensor_id s))) = Some r" if "r \<in> set ?rows" for r
  proof -
    have "r \<in> set (hm_values ord (sqd_sensors m))" using that by simp
    then obtain k where "hm_get (sqd_sensors m) k = Some r" by (auto simp: hm_values_mem [OF wf])
    with assms obtain s j where s: "sensor_valid s" "r = sensor_to_row uc j s"
      "hm_get (sqd_sensors m) (uc_show uc (sensor_ulid (sensor_id s))) = Some r"
      unfolding sqd_inv_def sensor_row_ok_def by metis
    moreover have "j = i" using that s(2) by (simp add: sensor_to_row_def uc_show_inject [OF uc])
    ultimately show ?thesis by blast
  qed
  have dec: "dec (sensor_to_row uc i s) = s" if "sensor_valid s" for s
    using that by (simp add: dec_def map_row_to_sensor_to_row [OF uc])
  have "try_map (map_row_to_sensor uc) ?rows = Ok (map dec ?rows)"
    by (rule try_map_Ok) (use row in \<open>fastforce simp: dec map_row_to_sensor_to_row [OF uc]\<close>)
  moreover have "set (map dec ?rows) = sensors_at uc i m"
  proof
    show "set (map dec ?rows) \<subseteq> sensors_at uc i m"
      using row by (fastforce simp: sensors_at_def dec)
    show "sensors_at uc i m \<subseteq> set (map dec ?rows)"
    proof
      fix s assume s: "s \<in> sensors_at uc i m"
      then have "sensor_to_row uc i s \<in> set ?rows"
        using wf by (auto simp: sensors_at_def hm_values_mem)
      with dec [of s] s show "s \<in> set (map dec ?rows)" by (force simp: sensors_at_def)
    qed
  qed
  moreover have "distinct (map sensor_id (map dec ?rows))"
  proof -
    have "distinct (map nr_id (hm_values ord (sqd_sensors m)))"
      by (rule distinct_hm_values [OF wf]) (use assms in \<open>unfold sqd_inv_def, metis sensor_row_ok_id\<close>)
    then have "distinct (map nr_id ?rows)" by (rule distinct_map_filter)
    moreover have "nr_id r = uc_show uc (sensor_ulid (sensor_id (dec r)))" if "r \<in> set ?rows" for r
      using row [OF that] by (auto simp: dec)
    then have "map nr_id ?rows = map (\<lambda>k. uc_show uc (sensor_ulid k)) (map sensor_id (map dec ?rows))"
      by simp
    ultimately show ?thesis by (metis distinct_map)
  qed
  ultimately show thesis by (rule that)
qed

text \<open>What \<open>get\<close> returns in a registry that is well formed.\<close>

lemma sqd_get_spec:
  assumes "sqd_inv uc m" and "\<not> sqd_io m 0" and "\<not> sqd_io m 1"
    and "hm_get (sqd_devices m) (uc_show uc (device_ulid i)) = Some r"
  obtains d where "sqd_get uc ord i m = Ok (Some d)" and "dev_id d = i" and "device_to_row uc d = r\<lparr>vr_sensor_count := 0\<rparr>"
    and "whole_second (dev_provisioned_at d) = dev_provisioned_at d"
    and "set (dev_sensors d) = sensors_at uc i m" and "distinct (map sensor_id (dev_sensors d))"
proof -
  have uc: "ulid_codec_ok uc" using assms(1) by (simp add: sqd_inv_def)
  obtain e where e: "timestamp_valid (dev_provisioned_at e)" "r\<lparr>vr_sensor_count := 0\<rparr> = device_to_row uc e" "dev_id e = i"
    using assms(1,4) uc_show_inject [OF uc] unfolding sqd_inv_def device_row_ok_def
    by (metis ulid_newtype_inject(1))
  obtain ss where ss: "try_map (map_row_to_sensor uc)
      (filter (\<lambda>s. nr_device_id s = uc_show uc (device_ulid i)) (hm_values ord (sqd_sensors m))) = Ok ss"
    "set ss = sensors_at uc i m" "distinct (map sensor_id ss)"
    using sensor_rows_decode [OF assms(1)] .
  have r: "vr_kind r = device_kind_code (dev_kind e)" "vr_state r = device_state_code (dev_state e)"
    "vr_location r = u64_as_i64 (h3_index (dev_location e))" "vr_manufacturer r = dev_manufacturer e"
    "vr_provisioned_at r = as_second (dev_provisioned_at e)"
    using e(2) by (auto simp: device_to_row_def dest: arg_cong [where f = vr_kind] arg_cong [where f = vr_state]
      arg_cong [where f = vr_location] arg_cong [where f = vr_manufacturer] arg_cong [where f = vr_provisioned_at])
  show thesis
    by (rule that [of "e\<lparr>dev_provisioned_at := whole_second (dev_provisioned_at e), dev_sensors := ss\<rparr>"])
      (use assms(2-) e ss r in \<open>simp_all add: sqd_get_def timestamp_column_as_second device_to_row_def\<close>)
qed

subsection \<open>Effects of the operations\<close>

definition count_one :: "device_row \<Rightarrow> device_row" where
  "count_one r = r\<lparr>vr_sensor_count := vr_sensor_count r + 1\<rparr>"

definition put_sensor :: "ulid_codec \<Rightarrow> DeviceId \<Rightarrow> Sensor \<Rightarrow> SqliteDeviceRegistry \<Rightarrow> SqliteDeviceRegistry" where
  "put_sensor uc i s m =
     m\<lparr>sqd_sensors := hm_insert (uc_show uc (sensor_ulid (sensor_id s))) (sensor_to_row uc i s) (sqd_sensors m),
       sqd_devices := hm_modify (uc_show uc (device_ulid i)) count_one (sqd_devices m)\<rparr>"

lemma sqd_insert_sensor_eq:
  "sqd_insert_sensor uc i n s m =
     (if sqd_io m n then (Err (SE_Sqlx Sqlx_Io), m)
      else if hm_get (sqd_devices m) (uc_show uc (device_ulid i)) = None
      then (Err (SE_Sqlx Sqlx_ForeignKeyViolation), m)
      else (Ok (), put_sensor uc i s m))"
  by (auto simp: sqd_insert_sensor_def map_err_def run_stmt_def sensors_insert_def put_sensor_def
      count_one_def [abs_def] split: option.split)

lemma sqd_insert_device_eq:
  "sqd_insert_device uc n d m =
     (if sqd_io m n then (Err (SE_Sqlx Sqlx_Io), m)
      else (Ok (), m\<lparr>sqd_devices := hm_insert (uc_show uc (device_ulid (dev_id d))) (device_to_row uc d) (sqd_devices m)\<rparr>))"
  by (simp add: sqd_insert_device_def run_stmt_def sql_insert_or_replace_def)

lemma sqd_io_fold_put [simp]: "sqd_io (fold (put_sensor uc i) ss m) = sqd_io m"
  by (induction ss arbitrary: m) (simp_all add: put_sensor_def)

lemma sqd_sensors_fold_put:
  "sqd_sensors (fold (put_sensor uc i) ss m) =
     fold (\<lambda>s. hm_insert (uc_show uc (sensor_ulid (sensor_id s))) (sensor_to_row uc i s)) ss (sqd_sensors m)"
  by (induction ss arbitrary: m) (simp_all add: put_sensor_def)

lemma sqd_devices_fold_put:
  "hm_get (sqd_devices (fold (put_sensor uc i) ss m)) k =
     (if k = uc_show uc (device_ulid i)
      then map_option (\<lambda>r. r\<lparr>vr_sensor_count := vr_sensor_count r + int (length ss)\<rparr>) (hm_get (sqd_devices m) k)
      else hm_get (sqd_devices m) k)"
proof (induction ss arbitrary: m)
  case Nil
  then show ?case by (cases "hm_get (sqd_devices m) k") auto
next
  case (Cons s ss)
  then show ?case
    by (cases "hm_get (sqd_devices m) k") (auto simp: put_sensor_def hm_simps count_one_def algebra_simps)
qed

lemma tx_each_sensors:
  assumes "tx_each (sqd_insert_sensor uc i) n ss m = (Ok u, m')"
  shows "m' = fold (put_sensor uc i) ss m"
  by (rule tx_each_OkD [OF assms]) (auto simp: sqd_insert_sensor_eq split: if_splits)

lemma sqd_add_sensors_atD:
  "sqd_add_sensors_at uc n i ss m = (Ok u, m') \<Longrightarrow> m' = fold (put_sensor uc i) ss m \<and> \<not> sqd_io m n"
  unfolding sqd_add_sensors_at_def
  using transaction_OkD tx_each_sensors by (metis (mono_tags) transaction_started add_0_right)

lemma sqd_register_atD:
  assumes "sqd_register_at uc n d m = (Ok u, m')"
  shows "m' = fold (put_sensor uc (dev_id d)) (dev_sensors d)
      (m\<lparr>sqd_devices := hm_insert (uc_show uc (device_ulid (dev_id d))) (device_to_row uc d) (sqd_devices m)\<rparr>)
    \<and> \<not> sqd_io m n \<and> \<not> sqd_io m (Suc n)"
  using assms by (auto simp: sqd_register_at_def sqd_insert_device_eq dest!: sqd_add_sensors_atD split: if_splits)

text \<open>Adding sensors to a device that is there keeps the invariant, and moves each sensor to the device.\<close>

lemma sqd_inv_put_sensor:
  assumes "sqd_inv uc m" and "sensor_valid s" and "hm_get (sqd_devices m) (uc_show uc (device_ulid i)) \<noteq> None"
  shows "sqd_inv uc (put_sensor uc i s m)"
proof -
  have "device_row_ok uc k (count_one r)" if "device_row_ok uc k r" for k r
    using that by (simp add: device_row_ok_def count_one_def)
  moreover have "sensor_row_ok uc (uc_show uc (sensor_ulid (sensor_id s))) (sensor_to_row uc i s)"
    using assms(2) by (auto simp: sensor_row_ok_def)
  ultimately show ?thesis
    using assms(1,3) by (auto simp: sqd_inv_def put_sensor_def hm_simps)
qed

lemma sqd_inv_fold_put:
  "sqd_inv uc m \<Longrightarrow> list_all sensor_valid ss \<Longrightarrow> hm_get (sqd_devices m) (uc_show uc (device_ulid i)) \<noteq> None \<Longrightarrow>
     sqd_inv uc (fold (put_sensor uc i) ss m)"
proof (induction ss arbitrary: m)
  case (Cons s ss)
  moreover have "hm_get (sqd_devices (put_sensor uc i s m)) (uc_show uc (device_ulid i)) \<noteq> None"
    using Cons.prems(3) by (simp add: put_sensor_def hm_simps)
  ultimately show ?case by (simp add: sqd_inv_put_sensor)
qed simp

lemma sqd_inv_insert_device:
  "sqd_inv uc m \<Longrightarrow> timestamp_valid (dev_provisioned_at d) \<Longrightarrow>
     sqd_inv uc (m\<lparr>sqd_devices := hm_insert (uc_show uc (device_ulid (dev_id d))) (device_to_row uc d) (sqd_devices m)\<rparr>)"
  by (auto simp: sqd_inv_def hm_simps device_row_ok_def device_to_row_def)

lemma sensors_at_fold_put:
  assumes "ulid_codec_ok uc" and "list_all sensor_valid ss" and "distinct (map sensor_id ss)"
  shows "sensors_at uc k (fold (put_sensor uc i) ss m) =
    (if k = i then set ss else {}) \<union> {s \<in> sensors_at uc k m. sensor_id s \<notin> sensor_id ` set ss}"
proof -
  let ?key = "\<lambda>s. uc_show uc (sensor_ulid (sensor_id s))"
  let ?t = "fold (\<lambda>s. hm_insert (?key s) (sensor_to_row uc i s)) ss (sqd_sensors m)"
  have key: "?key s = ?key s' \<longleftrightarrow> sensor_id s = sensor_id s'" for s s'
    by (simp add: uc_show_inject [OF assms(1)])
  have "map ?key ss = map (\<lambda>k. uc_show uc (sensor_ulid k)) (map sensor_id ss)" by simp
  then have dist: "distinct (map ?key ss)"
    using assms(3) by (simp only: distinct_map) (auto simp: inj_on_def uc_show_inject [OF assms(1)])
  have "s \<in> sensors_at uc k (fold (put_sensor uc i) ss m) \<longleftrightarrow>
      (if k = i then s \<in> set ss else False) \<or> s \<in> sensors_at uc k m \<and> sensor_id s \<notin> sensor_id ` set ss" for s
  proof (cases "sensor_id s \<in> sensor_id ` set ss")
    case True
    then obtain s' where s': "s' \<in> set ss" "sensor_id s = sensor_id s'" by auto
    then have "hm_get ?t (?key s) = Some (sensor_to_row uc i s')"
      using hm_get_fold_insert_mem [OF dist s'(1)] by simp
    then have "s \<in> sensors_at uc k (fold (put_sensor uc i) ss m) \<longleftrightarrow>
        sensor_valid s \<and> sensor_to_row uc i s' = sensor_to_row uc k s"
      by (simp add: sensors_at_def sqd_sensors_fold_put)
    moreover have "sensor_valid s'" using assms(2) s'(1) by (simp add: list_all_iff)
    ultimately have "s \<in> sensors_at uc k (fold (put_sensor uc i) ss m) \<longleftrightarrow> s = s' \<and> k = i"
      using sensor_to_row_inject [OF assms(1), of s' s i k] by blast
    moreover have "s = s' \<longleftrightarrow> s \<in> set ss" using s' assms(3) by (auto simp: distinct_map inj_on_def)
    ultimately show ?thesis using True by auto
  next
    case False
    then have "hm_get ?t (?key s) = hm_get (sqd_sensors m) (?key s)"
      by (intro hm_get_fold_insert_notin) (auto simp: key)
    with False show ?thesis by (auto simp: sensors_at_def sqd_sensors_fold_put)
  qed
  then show ?thesis by (intro set_eqI) simp
qed

subsection \<open>The operator LIKE\<close>

definition no_wildcards :: "string \<Rightarrow> bool" where
  "no_wildcards pat \<longleftrightarrow> CHR ''%'' \<notin> set pat \<and> CHR ''_'' \<notin> set pat"

lemma sql_like_percent: "sql_like (CHR ''%'' # ps) s \<longleftrightarrow> (\<exists>u v. s = u @ v \<and> sql_like ps v)"
proof (induction s)
  case (Cons c cs)
  then show ?case by (simp only: sql_like.simps if_True) (metis Cons_eq_append_conv append_Cons append_Nil)
qed simp

lemma sql_like_plain:
  "no_wildcards pat \<Longrightarrow>
     sql_like (pat @ ps) s \<longleftrightarrow> (\<exists>u v. s = u @ v \<and> map ascii_lower u = map ascii_lower pat \<and> sql_like ps v)"
proof (induction pat arbitrary: s)
  case (Cons p pat)
  from Cons.prems have p: "p \<noteq> CHR ''%''" "p \<noteq> CHR ''_''" and "no_wildcards pat"
    by (auto simp: no_wildcards_def)
  note IH = Cons.IH [OF this(3)]
  show ?case
  proof (cases s)
    case (Cons c cs)
    have "(\<exists>u v. c # cs = u @ v \<and> map ascii_lower u = map ascii_lower (p # pat) \<and> sql_like ps v) \<longleftrightarrow>
        ascii_lower p = ascii_lower c \<and>
        (\<exists>u v. cs = u @ v \<and> map ascii_lower u = map ascii_lower pat \<and> sql_like ps v)" (is "?L \<longleftrightarrow> ?R")
    proof
      assume ?R
      then obtain u v where "ascii_lower p = ascii_lower c" "cs = u @ v" "map ascii_lower u = map ascii_lower pat"
        "sql_like ps v" by blast
      then show ?L by (intro exI [of _ "c # u"] exI [of _ v]) simp
    qed (auto simp: map_eq_Cons_conv, blast)
    then show ?thesis by (simp add: Cons p IH)
  qed (simp add: p)
qed simp

text \<open>
  On a pattern without wildcards the query of the SQLite registry is the search of the in-memory one.
\<close>

lemma sql_like_contains:
  assumes "no_wildcards pat"
  shows "sql_like (''%'' @ pat @ ''%'') s \<longleftrightarrow> str_contains (map ascii_lower pat) (map ascii_lower s)"
proof -
  have all: "sql_like ''%'' v" for v using sql_like_percent [of "[]" v] by auto
  have "sql_like (''%'' @ pat @ ''%'') s \<longleftrightarrow> (\<exists>u v. s = u @ v \<and> sql_like (pat @ ''%'') v)"
    by (simp only: append_Cons append_Nil sql_like_percent)
  also have "\<dots> \<longleftrightarrow> (\<exists>u w v. s = u @ w @ v \<and> map ascii_lower w = map ascii_lower pat)"
    unfolding sql_like_plain [OF assms] using all by blast
  also have "\<dots> \<longleftrightarrow> sublist (map ascii_lower pat) (map ascii_lower s)"
  proof
    assume "sublist (map ascii_lower pat) (map ascii_lower s)"
    then obtain x z where "map ascii_lower s = x @ map ascii_lower pat @ z" by (auto simp: sublist_def)
    then show "\<exists>u w v. s = u @ w @ v \<and> map ascii_lower w = map ascii_lower pat"
      by (metis map_eq_append_conv)
  qed (auto simp: sublist_def, blast)
  finally show ?thesis by (simp add: str_contains_iff)
qed

lemma device_to_row_inject:
  assumes "ulid_codec_ok uc" and "timestamp_valid (dev_provisioned_at d)" and "device_to_row uc d' = device_to_row uc d"
  shows "d'\<lparr>dev_provisioned_at := whole_second (dev_provisioned_at d'), dev_sensors := []\<rparr> =
    d\<lparr>dev_provisioned_at := whole_second (dev_provisioned_at d), dev_sensors := []\<rparr>"
proof -
  have row: "map_row_to_device uc (device_to_row uc e) =
      Ok (e\<lparr>dev_provisioned_at := whole_second (dev_provisioned_at e), dev_sensors := []\<rparr>)"
    if "timestamp_valid (dev_provisioned_at e)" for e
    using that assms(1) by (simp add: map_row_to_device_def device_to_row_def ulid_column_show
        from_second_def timestamp_valid_def whole_second_def)
  have "as_second (dev_provisioned_at d') = as_second (dev_provisioned_at d)"
    using arg_cong [OF assms(3), of vr_provisioned_at] by (simp add: device_to_row_def)
  then have "timestamp_valid (dev_provisioned_at d')" using assms(2) by (simp add: timestamp_valid_def)
  from row [OF this] row [OF assms(2)] assms(3) show ?thesis by simp
qed

subsection \<open>Properties\<close>

lemma sensors_at_no_device:
  assumes "sqd_inv uc m" and "hm_get (sqd_devices m) (uc_show uc (device_ulid i)) = None"
  shows "sensors_at uc i m = {}"
proof -
  have False if "s \<in> sensors_at uc i m" for s
  proof -
    from that have "hm_get (sqd_sensors m) (uc_show uc (sensor_ulid (sensor_id s))) = Some (sensor_to_row uc i s)"
      by (simp add: sensors_at_def)
    with assms(1) have "hm_get (sqd_devices m) (nr_device_id (sensor_to_row uc i s)) \<noteq> None"
      unfolding sqd_inv_def by blast
    with assms(2) show False by simp
  qed
  then show ?thesis by blast
qed

text \<open>The sensors that a lookup of a device shows.\<close>

definition sensors_shown ::
    "ulid_codec \<Rightarrow> (string, sensor_row) hash_order \<Rightarrow> DeviceId \<Rightarrow> SqliteDeviceRegistry \<Rightarrow> Sensor set" where
  "sensors_shown uc ord i m =
     (case sqd_get uc ord i m of Inr (Some d) \<Rightarrow> set (dev_sensors d) | _ \<Rightarrow> {})"

lemma sensors_shown_eq:
  assumes "sqd_inv uc m" and "\<not> sqd_io m 0" and "\<not> sqd_io m 1"
  shows "sensors_shown uc ord i m = sensors_at uc i m"
proof (cases "hm_get (sqd_devices m) (uc_show uc (device_ulid i))")
  case None
  with sensors_at_no_device [OF assms(1) None] assms(2) show ?thesis
    by (simp add: sensors_shown_def sqd_get_def)
next
  case (Some r)
  obtain d where "sqd_get uc ord i m = Ok (Some d)" "set (dev_sensors d) = sensors_at uc i m"
    using sqd_get_spec [OF assms Some] by metis
  then show ?thesis by (simp add: sensors_shown_def)
qed

lemma sqd_register_spec:
  assumes "sqd_inv uc m" and "device_valid d" and "sqd_register uc d m = (Ok u, m')"
  shows "sqd_inv uc m'" and "sqd_io m' = sqd_io m" and "\<not> sqd_io m 0" and "\<not> sqd_io m 1"
    and "sensors_at uc k m' = (if k = dev_id d then set (dev_sensors d) else {}) \<union>
           {s \<in> sensors_at uc k m. sensor_id s \<notin> sensor_id ` set (dev_sensors d)}"
    and "hm_get (sqd_devices m') (uc_show uc (device_ulid (dev_id d))) =
           Some ((device_to_row uc d)\<lparr>vr_sensor_count := int (length (dev_sensors d))\<rparr>)"
proof -
  let ?m = "m\<lparr>sqd_devices := hm_insert (uc_show uc (device_ulid (dev_id d))) (device_to_row uc d) (sqd_devices m)\<rparr>"
  have uc: "ulid_codec_ok uc" using assms(1) by (simp add: sqd_inv_def)
  note valid = assms(2) [unfolded device_valid_def]
  have eq: "m' = fold (put_sensor uc (dev_id d)) (dev_sensors d) ?m"
    and io: "\<not> sqd_io m 0" "\<not> sqd_io m 1"
    using sqd_register_atD [OF assms(3) [unfolded sqd_register_def]] by simp_all
  show "sqd_inv uc m'"
    unfolding eq by (intro sqd_inv_fold_put sqd_inv_insert_device assms(1)) (use valid in \<open>simp_all add: hm_simps\<close>)
  show "sqd_io m' = sqd_io m" "\<not> sqd_io m 0" "\<not> sqd_io m 1" using io by (simp_all add: eq)
  show "sensors_at uc k m' = (if k = dev_id d then set (dev_sensors d) else {}) \<union>
      {s \<in> sensors_at uc k m. sensor_id s \<notin> sensor_id ` set (dev_sensors d)}"
    unfolding eq using sensors_at_fold_put [OF uc, of "dev_sensors d" k "dev_id d" ?m] valid
    by (simp add: sensors_at_def)
  show "hm_get (sqd_devices m') (uc_show uc (device_ulid (dev_id d))) =
      Some ((device_to_row uc d)\<lparr>vr_sensor_count := int (length (dev_sensors d))\<rparr>)"
    by (simp add: eq sqd_devices_fold_put hm_simps device_to_row_def)
qed

text \<open>
  C27.  Registering a device in SQLite.  The device is found again with its fields, its instant in whole
  seconds.  Its sensors are merged: those of the request, and those the device had before under other
  identifiers; a sensor that belonged to another device moves.  The invariant, with the foreign key,
  is kept.
\<close>

theorem sqlite_register_merges:
  assumes "sqd_inv uc m" and "device_valid d" and "sqd_register uc d m = (Ok u, m')"
  shows "sqd_inv uc m' \<and>
    (\<exists>d'. sqd_get uc ord (dev_id d) m' = Ok (Some d') \<and>
       d'\<lparr>dev_sensors := []\<rparr> = d\<lparr>dev_provisioned_at := whole_second (dev_provisioned_at d), dev_sensors := []\<rparr>) \<and>
    (\<forall>k. sensors_shown uc ord k m' = (if k = dev_id d then set (dev_sensors d) else {}) \<union>
       {s \<in> sensors_shown uc ord k m. sensor_id s \<notin> sensor_id ` set (dev_sensors d)})"
proof -
  note spec = sqd_register_spec [OF assms]
  have uc: "ulid_codec_ok uc" using assms(1) by (simp add: sqd_inv_def)
  have io: "\<not> sqd_io m' 0" "\<not> sqd_io m' 1" using spec(2-4) by simp_all
  obtain d' where d': "sqd_get uc ord (dev_id d) m' = Ok (Some d')" "dev_id d' = dev_id d"
    "device_to_row uc d' = device_to_row uc d" "whole_second (dev_provisioned_at d') = dev_provisioned_at d'"
    using sqd_get_spec [OF spec(1) io spec(6), of ord] by (auto simp: device_to_row_def)
  have "timestamp_valid (dev_provisioned_at d)" using assms(2) by (simp add: device_valid_def)
  then have "d'\<lparr>dev_sensors := []\<rparr> =
      d\<lparr>dev_provisioned_at := whole_second (dev_provisioned_at d), dev_sensors := []\<rparr>"
    using device_to_row_inject [OF uc _ d'(3)] d'(4) by simp
  moreover have "sensors_shown uc ord k m' = (if k = dev_id d then set (dev_sensors d) else {}) \<union>
      {s \<in> sensors_shown uc ord k m. sensor_id s \<notin> sensor_id ` set (dev_sensors d)}" for k
    by (simp add: sensors_shown_eq [OF spec(1) io] sensors_shown_eq [OF assms(1) spec(3,4)] spec(5))
  ultimately show ?thesis using spec(1) d'(1) by blast
qed

definition sample_sensor :: "ulid \<Rightarrow> u8 \<Rightarrow> Sensor" where
  "sample_sensor i p = \<lparr>sensor_id = SensorId i, sensor_metric = SoilMoisture (Percentage p), sensor_kind = SK_SoilMoisture\<rparr>"

definition empty_sqlite_devices :: SqliteDeviceRegistry where
  "empty_sqlite_devices = \<lparr>sqd_devices = [], sqd_sensors = [], sqd_io = (\<lambda>_. False)\<rparr>"

lemma empty_sqlite_devices_inv: "ulid_codec_ok uc \<Longrightarrow> sqd_inv uc empty_sqlite_devices"
  by (simp add: sqd_inv_def empty_sqlite_devices_def)

lemma sample_device_valid: "device_valid (sample_device i mf\<lparr>dev_sensors := [sample_sensor j p]\<rparr>)"
  by (simp add: device_valid_def sample_device_def sample_sensor_def sensor_valid_def timestamp_valid_def
      as_second_def MIN_SECOND_def MAX_SECOND_def)

lemma sqd_register_Ok:
  assumes "sqd_io m = (\<lambda>_. False)"
  shows "\<exists>m'. sqd_register uc d m = (Ok (), m')"
proof -
  have "\<exists>m'. tx_each (sqd_insert_sensor uc i) n ss m = (Ok (), m')"
    if "sqd_io m = (\<lambda>_. False)" "hm_get (sqd_devices m) (uc_show uc (device_ulid i)) \<noteq> None" for i n ss m
    using that
  proof (induction ss arbitrary: n m)
    case (Cons s ss)
    have "sqd_io (put_sensor uc i s m) = (\<lambda>_. False)"
      "hm_get (sqd_devices (put_sensor uc i s m)) (uc_show uc (device_ulid i)) \<noteq> None"
      using Cons.prems by (simp_all add: put_sensor_def hm_simps)
    from Cons.IH [OF this, of "Suc n"] Cons.prems show ?case by (simp add: sqd_insert_sensor_eq)
  qed simp
  from this [of "m\<lparr>sqd_devices := hm_insert (uc_show uc (device_ulid (dev_id d))) (device_to_row uc d) (sqd_devices m)\<rparr>"
      "dev_id d" "Suc (Suc 0)" "dev_sensors d"] assms
  show ?thesis
    by (auto simp: sqd_register_def sqd_register_at_def sqd_insert_device_eq sqd_add_sensors_at_def transaction_def
        hm_simps)
qed

theorem sqlite_register_merges_witness:
  "\<exists>m1 m2. sqd_register sample_ulid_codec (sample_device 1 ''a''\<lparr>dev_sensors := [sample_sensor 2 10]\<rparr>)
       empty_sqlite_devices = (Ok (), m1) \<and>
     sqd_register sample_ulid_codec (sample_device 1 ''a''\<lparr>dev_sensors := [sample_sensor 3 20]\<rparr>) m1 = (Ok (), m2) \<and>
     sensors_shown sample_ulid_codec forward_order (DeviceId 1) m2 = {sample_sensor 2 10, sample_sensor 3 20}"
proof -
  let ?d = "\<lambda>j p. sample_device 1 ''a''\<lparr>dev_sensors := [sample_sensor j p]\<rparr>"
  have io: "sqd_io empty_sqlite_devices = (\<lambda>_. False)" by (simp add: empty_sqlite_devices_def)
  have empty: "sensors_shown sample_ulid_codec forward_order (DeviceId 1) empty_sqlite_devices = {}"
    by (simp add: sensors_shown_def sqd_get_def empty_sqlite_devices_def)
  have inv0: "sqd_inv sample_ulid_codec empty_sqlite_devices"
    by (rule empty_sqlite_devices_inv [OF sample_ulid_codec_ok])
  obtain m1 where m1: "sqd_register sample_ulid_codec (?d 2 10) empty_sqlite_devices = (Ok (), m1)"
    using sqd_register_Ok [OF io] by blast
  note r1 = sqlite_register_merges [OF inv0 sample_device_valid m1, of forward_order]
  have io1: "sqd_io m1 = (\<lambda>_. False)"
    using sqd_register_spec(2) [OF inv0 sample_device_valid m1] io by simp
  obtain m2 where m2: "sqd_register sample_ulid_codec (?d 3 20) m1 = (Ok (), m2)"
    using sqd_register_Ok [OF io1] by blast
  have inv1: "sqd_inv sample_ulid_codec m1" using r1 by blast
  note r2 = sqlite_register_merges [OF inv1 sample_device_valid m2, of forward_order]
  have "sensors_shown sample_ulid_codec forward_order (DeviceId 1) m1 = {sample_sensor 2 10}"
    using conjunct2 [OF conjunct2 [OF r1], THEN spec, of "DeviceId 1"] by (simp add: empty)
  moreover have "{s \<in> {sample_sensor 2 10}. sensor_id s \<notin> sensor_id ` set [sample_sensor 3 20]} = {sample_sensor 2 10}"
    by (auto simp: sample_sensor_def)
  ultimately have "sensors_shown sample_ulid_codec forward_order (DeviceId 1) m2 = {sample_sensor 2 10, sample_sensor 3 20}"
    using conjunct2 [OF conjunct2 [OF r2], THEN spec, of "DeviceId 1"] by (simp add: insert_commute)
  with m1 m2 show ?thesis by blast
qed

text \<open>
  The column \<open>sensor_count\<close> drifts.  It counts the sensors of the last registration, so a device
  that is registered again without sensors is counted, sorted and filtered as having none, while
  lookups still show the sensors it had.
\<close>

lemma sqlite_sensor_count_drifts:
  assumes "sqd_inv uc m" and "device_valid d" and "sqd_register uc d m = (Ok u, m1)"
    and "sqd_register uc (d\<lparr>dev_sensors := []\<rparr>) m1 = (Ok u', m2)"
  shows "set (dev_sensors d) \<subseteq> sensors_shown uc ord (dev_id d) m2 \<and>
    (\<exists>r. hm_get (sqd_devices m2) (uc_show uc (device_ulid (dev_id d))) = Some r \<and>
         device_where uc (DeviceFilter_default\<lparr>df_sensor_count := Some (0, 0)\<rparr>) r)"
proof -
  have valid: "device_valid (d\<lparr>dev_sensors := []\<rparr>)" using assms(2) by (simp add: device_valid_def)
  note r1 = sqd_register_spec [OF assms(1-3)]
  note r2 = sqd_register_spec [OF r1(1) valid assms(4)]
  have "sensors_shown uc ord (dev_id d) m2 = sensors_at uc (dev_id d) m2"
    by (rule sensors_shown_eq [OF r2(1)]) (use r1 r2 in simp_all)
  moreover have "set (dev_sensors d) \<subseteq> sensors_at uc (dev_id d) m2"
    using r1(5) [of "dev_id d"] r2(5) [of "dev_id d"] by auto
  ultimately show ?thesis
    using r2(6) by (simp add: device_where_def DeviceFilter_default_def sql_in_def sql_window_def sql_between_def
        usize_as_i64_def u64_as_i64_def)
qed



end
