(* ===== verification/Prime_Sqlite_Status.thy ===== *)
theory Prime_Sqlite_Status
  imports Prime_Sqlite_Device Prime_Memory_Status
begin

text \<open>
  The SQLite registry of device statuses of prime (\<open>ersha-prime/src/registry/sqlite/device_status.rs\<close>)
  on the tables of \<open>ersha-prime/migrations/002_readings_and_statuses.sql\<close>: a status, its errors and its
  sensor statuses are rows of three tables.  The last two have an \<open>AUTOINCREMENT\<close> key, the next value
  of which is part of the state, and a foreign key to the status.
\<close>

record status_row =
  xr_id :: string
  xr_device_id :: string
  xr_dispatcher_id :: string
  xr_battery_percent :: int
  xr_uptime_seconds :: int
  xr_signal_rssi :: int
  xr_timestamp :: int

record error_row =
  er_status_id :: string
  er_error_code :: int
  er_message :: "string option"

record sensor_status_row =
  tr_status_id :: string
  tr_sensor_id :: string
  tr_state :: int
  tr_last_reading :: "int option"

record SqliteDeviceStatusRegistry =
  sqs_statuses :: "(string, status_row) hashmap"
  sqs_errors :: "(nat, error_row) hashmap"
  sqs_sensor_statuses :: "(nat, sensor_status_row) hashmap"
  sqs_error_seq :: nat
  sqs_sensor_seq :: nat
  sqs_io :: "nat \<Rightarrow> bool"

definition SqliteDeviceStatusRegistry_new ::
    "SqliteDeviceStatusRegistry \<Rightarrow> (SqliteDeviceStatusRegistry, sqlite_error) result" where
  "SqliteDeviceStatusRegistry_new db =
     (if sqs_io db 0 then Err (SE_Sqlx Sqlx_Io) else if sqs_io db 1 then Err SE_Migration else Ok db)"

subsection \<open>Rows\<close>

fun error_code_value :: "DeviceErrorCode \<Rightarrow> int" where
  "error_code_value LowBattery = 0"
| "error_code_value SensorFault = 1"
| "error_code_value RadioFault = 2"
| "error_code_value UnknownError = 3"

fun sensor_state_value :: "SensorState \<Rightarrow> int" where
  "sensor_state_value Sensor_Active = 0"
| "sensor_state_value Sensor_Faulty = 1"
| "sensor_state_value Sensor_Inactive = 2"

definition error_code_column :: "int \<Rightarrow> (DeviceErrorCode, sqlite_error) result" where
  "error_code_column c =
     (if c = 0 then Ok LowBattery
      else if c = 1 then Ok SensorFault
      else if c = 2 then Ok RadioFault
      else if c = 3 then Ok UnknownError
      else Err (SE_InvalidErrorCode c))"

definition sensor_state_column :: "int \<Rightarrow> (SensorState, sqlite_error) result" where
  "sensor_state_column s =
     (if s = 0 then Ok Sensor_Active
      else if s = 1 then Ok Sensor_Faulty
      else if s = 2 then Ok Sensor_Inactive
      else Err (SE_InvalidSensorState s))"

abbreviation status_key :: "ulid_codec \<Rightarrow> StatusId \<Rightarrow> string" where
  "status_key uc i \<equiv> uc_show uc (status_ulid i)"

definition status_to_row :: "ulid_codec \<Rightarrow> DeviceStatus \<Rightarrow> status_row" where
  "status_to_row uc st =
     \<lparr>xr_id = status_key uc (ds_id st), xr_device_id = uc_show uc (device_ulid (ds_device_id st)),
      xr_dispatcher_id = uc_show uc (dispatcher_ulid (ds_dispatcher_id st)),
      xr_battery_percent = uint (percent (ds_battery_percent st)),
      xr_uptime_seconds = u64_as_i64 (ds_uptime_seconds st), xr_signal_rssi = sint (ds_signal_rssi st),
      xr_timestamp = as_second (ds_timestamp st)\<rparr>"

definition error_to_row :: "ulid_codec \<Rightarrow> StatusId \<Rightarrow> DeviceError \<Rightarrow> error_row" where
  "error_to_row uc i e =
     \<lparr>er_status_id = status_key uc i, er_error_code = error_code_value (de_code e), er_message = de_message e\<rparr>"

definition sensor_status_to_row :: "ulid_codec \<Rightarrow> StatusId \<Rightarrow> SensorStatus \<Rightarrow> sensor_status_row" where
  "sensor_status_to_row uc i s =
     \<lparr>tr_status_id = status_key uc i, tr_sensor_id = uc_show uc (sensor_ulid (ss_sensor_id s)),
      tr_state = sensor_state_value (ss_state s), tr_last_reading = map_option as_second (ss_last_reading s)\<rparr>"

definition error_of_row :: "error_row \<Rightarrow> (DeviceError, sqlite_error) result" where
  "error_of_row r =
     and_then (error_code_column (er_error_code r)) (\<lambda>code. Ok \<lparr>de_code = code, de_message = er_message r\<rparr>)"

definition sensor_status_of_row :: "ulid_codec \<Rightarrow> sensor_status_row \<Rightarrow> (SensorStatus, sqlite_error) result" where
  "sensor_status_of_row uc r =
     and_then (ulid_column uc (tr_sensor_id r)) (\<lambda>u.
     and_then (sensor_state_column (tr_state r)) (\<lambda>state.
     and_then (case tr_last_reading r of
                 None \<Rightarrow> Ok None
               | Some s \<Rightarrow> and_then (timestamp_column s) (\<lambda>t. Ok (Some t))) (\<lambda>last_reading.
       Ok \<lparr>ss_sensor_id = SensorId u, ss_state = state, ss_last_reading = last_reading\<rparr>)))"

subsection \<open>Storing\<close>

text \<open>The operator \<open>?\<close> after a statement of a transaction.\<close>

definition then_do ::
    "(unit, 'e) result \<times> 'db \<Rightarrow> ('db \<Rightarrow> (unit, 'e) result \<times> 'db) \<Rightarrow> (unit, 'e) result \<times> 'db" where
  "then_do r f = (case r of (Inl e, db) \<Rightarrow> (Err e, db) | (Inr _, db) \<Rightarrow> f db)"

definition sqs_stmt ::
    "nat \<Rightarrow> (SqliteDeviceStatusRegistry \<Rightarrow> (unit, sqlx_error) result \<times> SqliteDeviceStatusRegistry) \<Rightarrow>
     SqliteDeviceStatusRegistry \<Rightarrow> (unit, sqlite_error) result \<times> SqliteDeviceStatusRegistry" where
  "sqs_stmt n stmt m = map_err SE_Sqlx (run_stmt (sqs_io m) n stmt m)"

definition insert_status_row ::
    "ulid_codec \<Rightarrow> DeviceStatus \<Rightarrow> SqliteDeviceStatusRegistry \<Rightarrow> (unit, sqlx_error) result \<times> SqliteDeviceStatusRegistry" where
  "insert_status_row uc st m =
     (Ok (), m\<lparr>sqs_statuses := hm_insert (status_key uc (ds_id st)) (status_to_row uc st) (sqs_statuses m)\<rparr>)"

definition delete_errors ::
    "string \<Rightarrow> SqliteDeviceStatusRegistry \<Rightarrow> (unit, sqlx_error) result \<times> SqliteDeviceStatusRegistry" where
  "delete_errors k m =
     (Ok (), m\<lparr>sqs_errors := snd (sql_delete (\<lambda>r. er_status_id r = k) (sqs_errors m))\<rparr>)"

definition delete_sensor_statuses ::
    "string \<Rightarrow> SqliteDeviceStatusRegistry \<Rightarrow> (unit, sqlx_error) result \<times> SqliteDeviceStatusRegistry" where
  "delete_sensor_statuses k m =
     (Ok (), m\<lparr>sqs_sensor_statuses := snd (sql_delete (\<lambda>r. tr_status_id r = k) (sqs_sensor_statuses m))\<rparr>)"

definition insert_error ::
    "error_row \<Rightarrow> SqliteDeviceStatusRegistry \<Rightarrow> (unit, sqlx_error) result \<times> SqliteDeviceStatusRegistry" where
  "insert_error r m =
     (if hm_get (sqs_statuses m) (er_status_id r) = None then (Err Sqlx_ForeignKeyViolation, m)
      else (Ok (), m\<lparr>sqs_errors := hm_insert (sqs_error_seq m + 1) r (sqs_errors m),
                     sqs_error_seq := sqs_error_seq m + 1\<rparr>))"

definition insert_sensor_status ::
    "sensor_status_row \<Rightarrow> SqliteDeviceStatusRegistry \<Rightarrow> (unit, sqlx_error) result \<times> SqliteDeviceStatusRegistry" where
  "insert_sensor_status r m =
     (if hm_get (sqs_statuses m) (tr_status_id r) = None then (Err Sqlx_ForeignKeyViolation, m)
      else (Ok (), m\<lparr>sqs_sensor_statuses := hm_insert (sqs_sensor_seq m + 1) r (sqs_sensor_statuses m),
                     sqs_sensor_seq := sqs_sensor_seq m + 1\<rparr>))"

text \<open>The transaction of \<open>store\<close>, whose \<open>BEGIN\<close> is the statement number \<open>n\<close> of the calling operation.\<close>

definition store_body ::
    "ulid_codec \<Rightarrow> nat \<Rightarrow> DeviceStatus \<Rightarrow> SqliteDeviceStatusRegistry \<Rightarrow>
     (unit, sqlite_error) result \<times> SqliteDeviceStatusRegistry" where
  "store_body uc n st m =
     then_do (sqs_stmt (n + 1) (insert_status_row uc st) m) (\<lambda>m.
     then_do (sqs_stmt (n + 2) (delete_errors (status_key uc (ds_id st))) m) (\<lambda>m.
     then_do (tx_each (\<lambda>j e. sqs_stmt j (insert_error (error_to_row uc (ds_id st) e))) (n + 3) (ds_errors st) m) (\<lambda>m.
     then_do (sqs_stmt (n + 3 + length (ds_errors st)) (delete_sensor_statuses (status_key uc (ds_id st))) m) (\<lambda>m.
       tx_each (\<lambda>j s. sqs_stmt j (insert_sensor_status (sensor_status_to_row uc (ds_id st) s)))
         (n + 4 + length (ds_errors st)) (ds_sensor_statuses st) m))))"

definition store_stmts :: "DeviceStatus \<Rightarrow> nat" where
  "store_stmts st = 5 + length (ds_errors st) + length (ds_sensor_statuses st)"

definition sqs_store_at ::
    "ulid_codec \<Rightarrow> nat \<Rightarrow> DeviceStatus \<Rightarrow> SqliteDeviceStatusRegistry \<Rightarrow>
     (unit, sqlite_error) result \<times> SqliteDeviceStatusRegistry" where
  "sqs_store_at uc n st m =
     transaction SE_Sqlx (\<lambda>j. sqs_io m (n + j)) (store_stmts st - 1) (store_body uc n st) m"

definition sqs_store where
  "sqs_store uc st m = sqs_store_at uc 0 st m"

fun sqs_batch_at ::
    "ulid_codec \<Rightarrow> nat \<Rightarrow> DeviceStatus list \<Rightarrow> SqliteDeviceStatusRegistry \<Rightarrow>
     (unit, sqlite_error) result \<times> SqliteDeviceStatusRegistry" where
  "sqs_batch_at uc n [] m = (Ok (), m)"
| "sqs_batch_at uc n (st # sts) m =
     then_do (sqs_store_at uc n st m) (\<lambda>m. sqs_batch_at uc (n + store_stmts st) sts m)"

definition sqs_batch_store where
  "sqs_batch_store uc sts m = sqs_batch_at uc 0 sts m"

subsection \<open>Lookups\<close>

text \<open>The orders in which the queries without \<open>ORDER BY\<close> return rows.\<close>

record status_orders =
  so_statuses :: "(string, status_row) hash_order"
  so_errors :: "(nat, error_row) hash_order"
  so_sensors :: "(nat, sensor_status_row) hash_order"

definition fetch_errors ::
    "ulid_codec \<Rightarrow> status_orders \<Rightarrow> nat \<Rightarrow> StatusId \<Rightarrow> SqliteDeviceStatusRegistry \<Rightarrow> (DeviceError list, sqlite_error) result" where
  "fetch_errors uc ord n i m =
     (if sqs_io m n then Err (SE_Sqlx Sqlx_Io)
      else try_map error_of_row
             (filter (\<lambda>r. er_status_id r = status_key uc i) (hm_values (so_errors ord) (sqs_errors m))))"

definition fetch_sensor_statuses ::
    "ulid_codec \<Rightarrow> status_orders \<Rightarrow> nat \<Rightarrow> StatusId \<Rightarrow> SqliteDeviceStatusRegistry \<Rightarrow> (SensorStatus list, sqlite_error) result" where
  "fetch_sensor_statuses uc ord n i m =
     (if sqs_io m n then Err (SE_Sqlx Sqlx_Io)
      else try_map (sensor_status_of_row uc)
             (filter (\<lambda>r. tr_status_id r = status_key uc i) (hm_values (so_sensors ord) (sqs_sensor_statuses m))))"

definition map_row_to_status ::
    "ulid_codec \<Rightarrow> status_orders \<Rightarrow> nat \<Rightarrow> SqliteDeviceStatusRegistry \<Rightarrow> status_row \<Rightarrow> (DeviceStatus, sqlite_error) result" where
  "map_row_to_status uc ord n m r =
     and_then (ulid_column uc (xr_id r)) (\<lambda>i.
     and_then (ulid_column uc (xr_device_id r)) (\<lambda>device_id.
     and_then (ulid_column uc (xr_dispatcher_id r)) (\<lambda>dispatcher_id.
     and_then (timestamp_column (xr_timestamp r)) (\<lambda>t.
     and_then (fetch_errors uc ord n (StatusId i) m) (\<lambda>errors.
     and_then (fetch_sensor_statuses uc ord (n + 1) (StatusId i) m) (\<lambda>sensor_statuses.
       Ok \<lparr>ds_id = StatusId i, ds_device_id = DeviceId device_id, ds_dispatcher_id = DispatcherId dispatcher_id,
           ds_battery_percent = Percentage (word_of_int (xr_battery_percent r)),
           ds_uptime_seconds = i64_as_u64 (xr_uptime_seconds r), ds_signal_rssi = word_of_int (xr_signal_rssi r),
           ds_errors = errors, ds_timestamp = t, ds_sensor_statuses = sensor_statuses\<rparr>))))))"

definition sqs_get ::
    "ulid_codec \<Rightarrow> status_orders \<Rightarrow> StatusId \<Rightarrow> SqliteDeviceStatusRegistry \<Rightarrow> (DeviceStatus option, sqlite_error) result" where
  "sqs_get uc ord i m =
     (if sqs_io m 0 then Err (SE_Sqlx Sqlx_Io)
      else case hm_get (sqs_statuses m) (status_key uc i) of
             None \<Rightarrow> Ok None
           | Some r \<Rightarrow> and_then (map_row_to_status uc ord 1 m r) (\<lambda>st. Ok (Some st)))"

definition sqs_get_latest ::
    "ulid_codec \<Rightarrow> status_orders \<Rightarrow> DeviceId \<Rightarrow> SqliteDeviceStatusRegistry \<Rightarrow> (DeviceStatus option, sqlite_error) result" where
  "sqs_get_latest uc ord d m =
     (if sqs_io m 0 then Err (SE_Sqlx Sqlx_Io)
      else let rows = filter (\<lambda>r. xr_device_id r = uc_show uc (device_ulid d)) (hm_values (so_statuses ord) (sqs_statuses m))
           in case sql_order_by (key xr_timestamp default) Desc rows of
                [] \<Rightarrow> Ok None
              | r # _ \<Rightarrow> and_then (map_row_to_status uc ord 1 m r) (\<lambda>st. Ok (Some st)))"

subsection \<open>Queries\<close>

text \<open>
  A row of \<open>LEFT JOIN device_status_errors\<close> is a status with one of its errors, or with \<open>NULL\<close> when it
  has none; the query keeps a status, once, if one of its joined rows satisfies the conditions.
\<close>

definition needs_error_join :: "DeviceStatusFilter \<Rightarrow> bool" where
  "needs_error_join f \<longleftrightarrow>
     sf_has_errors f \<noteq> None \<or> (case sf_error_codes f of None \<Rightarrow> False | Some codes \<Rightarrow> codes \<noteq> [])"

definition joined_errors :: "error_row list \<Rightarrow> status_row \<Rightarrow> error_row option list" where
  "joined_errors errors r =
     (let es = filter (\<lambda>e. er_status_id e = xr_id r) errors in if es = [] then [None] else map Some es)"

definition error_condition :: "DeviceStatusFilter \<Rightarrow> error_row option \<Rightarrow> bool" where
  "error_condition f j \<longleftrightarrow>
     (case sf_has_errors f of None \<Rightarrow> True | Some has_errors \<Rightarrow> has_errors = (j \<noteq> None)) \<and>
     (case j of
        None \<Rightarrow> (case sf_error_codes f of None \<Rightarrow> True | Some codes \<Rightarrow> codes = [])
      | Some e \<Rightarrow> sql_in error_code_value (sf_error_codes f) (er_error_code e))"

definition status_where :: "ulid_codec \<Rightarrow> DeviceStatusFilter \<Rightarrow> error_row list \<Rightarrow> status_row \<Rightarrow> bool" where
  "status_where uc f errors r \<longleftrightarrow>
     sql_in (status_key uc) (sf_ids f) (xr_id r) \<and>
     sql_in (\<lambda>i. uc_show uc (device_ulid i)) (sf_device_ids f) (xr_device_id r) \<and>
     sql_in (\<lambda>i. uc_show uc (dispatcher_ulid i)) (sf_dispatcher_ids f) (xr_dispatcher_id r) \<and>
     sql_window (sf_timestamp_after f) (sf_timestamp_before f) (xr_timestamp r) \<and>
     sql_between uint (sf_battery_range f) (xr_battery_percent r) \<and>
     (if needs_error_join f then list_ex (error_condition f) (joined_errors errors r) else True)"

definition sqs_count ::
    "ulid_codec \<Rightarrow> DeviceStatusFilter option \<Rightarrow> SqliteDeviceStatusRegistry \<Rightarrow> (nat, sqlite_error) result" where
  "sqs_count uc f m =
     (if sqs_io m 0 then Err (SE_Sqlx Sqlx_Io)
      else Ok (sql_count (case f of Some f' \<Rightarrow> status_where uc f' (map snd (sqs_errors m)) | None \<Rightarrow> (\<lambda>_. True))
        (sqs_statuses m)))"

definition status_row_order :: "DeviceStatusSortBy \<Rightarrow> status_row comparator" where
  "status_row_order sort_by =
     (case sort_by of
        StatBy_Timestamp \<Rightarrow> key xr_timestamp default
      | StatBy_BatteryPercent \<Rightarrow> key xr_battery_percent default
      | StatBy_DeviceId \<Rightarrow> key xr_device_id default)"

fun map_rows_to_status ::
    "ulid_codec \<Rightarrow> status_orders \<Rightarrow> nat \<Rightarrow> SqliteDeviceStatusRegistry \<Rightarrow> status_row list \<Rightarrow>
     (DeviceStatus list, sqlite_error) result" where
  "map_rows_to_status uc ord n m [] = Ok []"
| "map_rows_to_status uc ord n m (r # rows) =
     and_then (map_row_to_status uc ord n m r) (\<lambda>st.
     and_then (map_rows_to_status uc ord (n + 2) m rows) (\<lambda>sts. Ok (st # sts)))"

definition sqs_list ::
    "ulid_codec \<Rightarrow> status_orders \<Rightarrow> (DeviceStatusFilter, DeviceStatusSortBy) QueryOptions \<Rightarrow>
     SqliteDeviceStatusRegistry \<Rightarrow> (DeviceStatus list, sqlite_error) result" where
  "sqs_list uc ord options m =
     (if sqs_io m 0 then Err (SE_Sqlx Sqlx_Io)
      else let rows = filter (status_where uc (qo_filter options) (map snd (sqs_errors m)))
                 (hm_values (so_statuses ord) (sqs_statuses m));
               ranked = sql_order_by (status_row_order (qo_sort_by options)) (qo_sort_order options) rows
           in map_rows_to_status uc ord 1 m (sql_page (qo_pagination options) ranked))"

definition sqlite_status_registry ::
    "ulid_codec \<Rightarrow> status_orders \<Rightarrow> (SqliteDeviceStatusRegistry, sqlite_error) DeviceStatusRegistry" where
  "sqlite_status_registry uc ord =
     \<lparr>stat_store = sqs_store uc, stat_get = sqs_get uc ord, stat_get_latest = sqs_get_latest uc ord,
      stat_batch_store = sqs_batch_store uc, stat_count = sqs_count uc, stat_list = sqs_list uc ord\<rparr>"

subsection \<open>Effect of storing\<close>

definition status_valid :: "DeviceStatus \<Rightarrow> bool" where
  "status_valid st \<longleftrightarrow>
     timestamp_valid (ds_timestamp st) \<and>
     list_all (\<lambda>s. pred_option timestamp_valid (ss_last_reading s)) (ds_sensor_statuses st)"

text \<open>The keys of the two child tables are at most the last one given out.\<close>

definition seq_ok :: "SqliteDeviceStatusRegistry \<Rightarrow> bool" where
  "seq_ok m \<longleftrightarrow>
     list_all (\<lambda>kr. fst kr \<le> sqs_error_seq m) (sqs_errors m) \<and>
     list_all (\<lambda>kr. fst kr \<le> sqs_sensor_seq m) (sqs_sensor_statuses m)"

abbreviation error_rows :: "SqliteDeviceStatusRegistry \<Rightarrow> error_row list" where
  "error_rows m \<equiv> map snd (sqs_errors m)"

abbreviation sensor_status_rows :: "SqliteDeviceStatusRegistry \<Rightarrow> sensor_status_row list" where
  "sensor_status_rows m \<equiv> map snd (sqs_sensor_statuses m)"

text \<open>What a successful \<open>store\<close> leaves.\<close>

definition stored :: "ulid_codec \<Rightarrow> DeviceStatus \<Rightarrow> SqliteDeviceStatusRegistry \<Rightarrow> SqliteDeviceStatusRegistry \<Rightarrow> bool" where
  "stored uc st m m' \<longleftrightarrow>
     seq_ok m' \<and> sqs_io m' = sqs_io m \<and>
     sqs_statuses m' = hm_insert (status_key uc (ds_id st)) (status_to_row uc st) (sqs_statuses m) \<and>
     error_rows m' = filter (\<lambda>r. er_status_id r \<noteq> status_key uc (ds_id st)) (error_rows m) @
       map (error_to_row uc (ds_id st)) (ds_errors st) \<and>
     sensor_status_rows m' = filter (\<lambda>r. tr_status_id r \<noteq> status_key uc (ds_id st)) (sensor_status_rows m) @
       map (sensor_status_to_row uc (ds_id st)) (ds_sensor_statuses st)"

lemma row_ids [simp]:
  "er_status_id (error_to_row uc i e) = status_key uc i"
  "tr_status_id (sensor_status_to_row uc i s) = status_key uc i"
  "xr_id (status_to_row uc st) = status_key uc (ds_id st)"
  by (simp_all add: error_to_row_def sensor_status_to_row_def status_to_row_def)

lemma hm_insert_fresh: "list_all (\<lambda>kr. fst kr \<le> n) t \<Longrightarrow> hm_insert (Suc n) r t = t @ [(Suc n, r)]" for n :: nat
  unfolding hm_insert_def by (induction t) auto

lemma then_do_Ok: "then_do r f = (Ok u, m') \<longleftrightarrow> (\<exists>m1. r = (Ok (), m1) \<and> f m1 = (Ok u, m'))"
  by (auto simp: then_do_def split: prod.splits sum.splits)

lemma sqs_stmt_Ok: "sqs_stmt n stmt m = (Ok u, m') \<longleftrightarrow> \<not> sqs_io m n \<and> stmt m = (Ok u, m')"
  by (auto simp: sqs_stmt_def map_err_def run_stmt_def map_sum_def split: sum.splits) (metis prod.collapse)+

lemma list_all_le_append:
  "list_all (\<lambda>kr. fst kr \<le> n) t \<Longrightarrow> list_all (\<lambda>kr. fst kr \<le> Suc n) (t @ [(Suc n, r)])" for n :: nat
  by (auto simp: list_all_iff)

lemma tx_insert_errors:
  assumes "tx_each (\<lambda>j e. sqs_stmt j (insert_error (error_to_row uc i e))) n es m = (Ok u, m')" and "seq_ok m"
  shows "seq_ok m' \<and> error_rows m' = error_rows m @ map (error_to_row uc i) es \<and>
    sqs_io m' = sqs_io m \<and> sqs_statuses m' = sqs_statuses m \<and> sqs_sensor_statuses m' = sqs_sensor_statuses m"
  using assms
proof (induction es arbitrary: n m)
  case (Cons e es)
  obtain m1 where m1: "insert_error (error_to_row uc i e) m = (Ok (), m1)"
    "tx_each (\<lambda>j e. sqs_stmt j (insert_error (error_to_row uc i e))) (Suc n) es m1 = (Ok u, m')"
    using Cons.prems(1) by (auto simp: sqs_stmt_Ok split: prod.splits sum.splits)
  have ok: "m1 = m\<lparr>sqs_errors := sqs_errors m @ [(sqs_error_seq m + 1, error_to_row uc i e)],
      sqs_error_seq := sqs_error_seq m + 1\<rparr>"
    using m1(1) Cons.prems(2) by (auto simp: insert_error_def hm_insert_fresh seq_ok_def split: if_splits)
  then have "seq_ok m1" using Cons.prems(2) by (simp add: seq_ok_def list_all_le_append del: list_all_append)
  from Cons.IH [OF m1(2) this] ok show ?case by simp
qed simp

lemma tx_insert_sensors:
  assumes "tx_each (\<lambda>j s. sqs_stmt j (insert_sensor_status (sensor_status_to_row uc i s))) n ss m = (Ok u, m')"
    and "seq_ok m"
  shows "seq_ok m' \<and> sensor_status_rows m' = sensor_status_rows m @ map (sensor_status_to_row uc i) ss \<and>
    sqs_io m' = sqs_io m \<and> sqs_statuses m' = sqs_statuses m \<and> sqs_errors m' = sqs_errors m"
  using assms
proof (induction ss arbitrary: n m)
  case (Cons s ss)
  obtain m1 where m1: "insert_sensor_status (sensor_status_to_row uc i s) m = (Ok (), m1)"
    "tx_each (\<lambda>j s. sqs_stmt j (insert_sensor_status (sensor_status_to_row uc i s))) (Suc n) ss m1 = (Ok u, m')"
    using Cons.prems(1) by (auto simp: sqs_stmt_Ok split: prod.splits sum.splits)
  have ok: "m1 = m\<lparr>sqs_sensor_statuses := sqs_sensor_statuses m @ [(sqs_sensor_seq m + 1, sensor_status_to_row uc i s)],
      sqs_sensor_seq := sqs_sensor_seq m + 1\<rparr>"
    using m1(1) Cons.prems(2) by (auto simp: insert_sensor_status_def hm_insert_fresh seq_ok_def split: if_splits)
  then have "seq_ok m1" using Cons.prems(2) by (simp add: seq_ok_def list_all_le_append del: list_all_append)
  from Cons.IH [OF m1(2) this] ok show ?case by simp
qed simp

lemma filter_map_snd: "filter P (map snd t) = map snd (filter (\<lambda>kr. P (snd kr)) t)"
  by (induction t) auto

lemma store_body_stored:
  assumes "store_body uc n st m = (Ok u, m')" and "seq_ok m"
  shows "stored uc st m m'"
proof -
  let ?k = "status_key uc (ds_id st)"
  define m1 where "m1 = m\<lparr>sqs_statuses := hm_insert ?k (status_to_row uc st) (sqs_statuses m),
      sqs_errors := filter (\<lambda>kr. er_status_id (snd kr) \<noteq> ?k) (sqs_errors m)\<rparr>"
  obtain m2 where e: "tx_each (\<lambda>j e. sqs_stmt j (insert_error (error_to_row uc (ds_id st) e))) (n + 3) (ds_errors st) m1 = (Ok (), m2)"
    and s: "tx_each (\<lambda>j s. sqs_stmt j (insert_sensor_status (sensor_status_to_row uc (ds_id st) s)))
        (n + 4 + length (ds_errors st)) (ds_sensor_statuses st)
        (m2\<lparr>sqs_sensor_statuses := filter (\<lambda>kr. tr_status_id (snd kr) \<noteq> ?k) (sqs_sensor_statuses m2)\<rparr>) = (Ok u, m')"
    using assms(1) by (auto simp: store_body_def then_do_Ok sqs_stmt_Ok insert_status_row_def delete_errors_def
        delete_sensor_statuses_def sql_delete_def m1_def)
  have "seq_ok m1" using assms(2) by (auto simp: seq_ok_def m1_def list_all_iff)
  note e' = tx_insert_errors [OF e this]
  have "seq_ok (m2\<lparr>sqs_sensor_statuses := filter (\<lambda>kr. tr_status_id (snd kr) \<noteq> ?k) (sqs_sensor_statuses m2)\<rparr>)"
    using e' by (auto simp: seq_ok_def list_all_iff)
  from tx_insert_sensors [OF s this] e' show ?thesis
    by (simp add: stored_def m1_def filter_map_snd)
qed

subsection \<open>Lookups after storing\<close>

definition sensor_status_kept :: "SensorStatus \<Rightarrow> SensorStatus" where
  "sensor_status_kept s = s\<lparr>ss_last_reading := map_option whole_second (ss_last_reading s)\<rparr>"

text \<open>A status as a lookup shows it: the order of its errors and sensor statuses is left open by the query.\<close>

definition status_view :: "DeviceStatus \<Rightarrow> DeviceStatus \<times> DeviceError multiset \<times> SensorStatus multiset" where
  "status_view st = (st\<lparr>ds_errors := [], ds_sensor_statuses := []\<rparr>, mset (ds_errors st), mset (ds_sensor_statuses st))"

definition status_kept :: "DeviceStatus \<Rightarrow> DeviceStatus" where
  "status_kept st = st\<lparr>ds_timestamp := whole_second (ds_timestamp st),
     ds_sensor_statuses := map sensor_status_kept (ds_sensor_statuses st)\<rparr>"

definition status_shown ::
    "ulid_codec \<Rightarrow> status_orders \<Rightarrow> StatusId \<Rightarrow> SqliteDeviceStatusRegistry \<Rightarrow>
     (DeviceStatus \<times> DeviceError multiset \<times> SensorStatus multiset) option" where
  "status_shown uc ord i m = (case sqs_get uc ord i m of Inr (Some st) \<Rightarrow> Some (status_view st) | _ \<Rightarrow> None)"

lemma error_of_row_to_row [simp]: "error_of_row (error_to_row uc i e) = Ok e"
  by (cases "de_code e") (simp_all add: error_of_row_def error_to_row_def error_code_column_def)

lemma sensor_status_of_row_to_row:
  "ulid_codec_ok uc \<Longrightarrow> pred_option timestamp_valid (ss_last_reading s) \<Longrightarrow>
     sensor_status_of_row uc (sensor_status_to_row uc i s) = Ok (sensor_status_kept s)"
  by (cases "ss_state s"; cases "ss_last_reading s")
    (simp_all add: sensor_status_of_row_def sensor_status_to_row_def sensor_state_column_def ulid_column_show
      timestamp_column_as_second sensor_status_kept_def)

text \<open>The rows that the three tables hold for a status.\<close>

definition rows_for :: "ulid_codec \<Rightarrow> DeviceStatus \<Rightarrow> SqliteDeviceStatusRegistry \<Rightarrow> bool" where
  "rows_for uc st m \<longleftrightarrow>
     status_valid st \<and> hm_get (sqs_statuses m) (status_key uc (ds_id st)) = Some (status_to_row uc st) \<and>
     filter (\<lambda>r. er_status_id r = status_key uc (ds_id st)) (error_rows m) =
       map (error_to_row uc (ds_id st)) (ds_errors st) \<and>
     filter (\<lambda>r. tr_status_id r = status_key uc (ds_id st)) (sensor_status_rows m) =
       map (sensor_status_to_row uc (ds_id st)) (ds_sensor_statuses st)"

text \<open>Every status of the registry is there with all its rows.\<close>

definition sqs_inv :: "ulid_codec \<Rightarrow> SqliteDeviceStatusRegistry \<Rightarrow> bool" where
  "sqs_inv uc m \<longleftrightarrow>
     ulid_codec_ok uc \<and> hm_wf (sqs_statuses m) \<and> seq_ok m \<and>
     (\<forall>k r. hm_get (sqs_statuses m) k = Some r \<longrightarrow> (\<exists>st. rows_for uc st m \<and> k = status_key uc (ds_id st)))"

lemma status_key_inject: "ulid_codec_ok uc \<Longrightarrow> status_key uc i = status_key uc j \<longleftrightarrow> i = j"
  by (cases i; cases j) (simp add: uc_show_inject)

lemma filter_hm_values_mset: "mset (filter P (hm_values ord m)) = mset (filter P (map snd m))"
  by (simp add: mset_filter mset_hm_values)

lemma try_map_query:
  assumes "filter P (map snd t) = map f xs" and "\<And>x. x \<in> set xs \<Longrightarrow> dec (f x) = Ok (g x)"
  shows "\<exists>ys. try_map dec (filter P (hm_values ord t)) = Ok ys \<and> mset ys = mset (map g xs)"
proof (rule try_map_mset)
  show "mset (filter P (hm_values ord t)) = mset (map f xs)" by (simp only: filter_hm_values_mset assms(1))
qed (rule assms(2))

lemma status_shown_rows:
  assumes "ulid_codec_ok uc" and "\<not> sqs_io m 0" and "\<not> sqs_io m 1" and "\<not> sqs_io m 2" and "rows_for uc st m"
  shows "status_shown uc ord (ds_id st) m = Some (status_view (status_kept st))"
proof -
  let ?k = "status_key uc (ds_id st)"
  note rows = assms(5) [unfolded rows_for_def]
  obtain es where es: "try_map error_of_row (filter (\<lambda>r. er_status_id r = ?k) (hm_values (so_errors ord) (sqs_errors m))) = Ok es"
    "mset es = mset (ds_errors st)"
    using try_map_query [of "\<lambda>r. er_status_id r = ?k" "sqs_errors m" "error_to_row uc (ds_id st)" "ds_errors st"
        error_of_row "\<lambda>e. e" "so_errors ord"] rows
    unfolding list.map_ident using error_of_row_to_row by blast
  obtain ss where ss: "try_map (sensor_status_of_row uc)
      (filter (\<lambda>r. tr_status_id r = ?k) (hm_values (so_sensors ord) (sqs_sensor_statuses m))) = Ok ss"
    "mset ss = mset (map sensor_status_kept (ds_sensor_statuses st))"
    using try_map_query [of "\<lambda>r. tr_status_id r = ?k" "sqs_sensor_statuses m" "sensor_status_to_row uc (ds_id st)"
        "ds_sensor_statuses st" "sensor_status_of_row uc" sensor_status_kept "so_sensors ord"] rows
      sensor_status_of_row_to_row [OF assms(1)]
    unfolding status_valid_def list_all_iff by blast
  have "sqs_get uc ord (ds_id st) m =
      Ok (Some (st\<lparr>ds_timestamp := whole_second (ds_timestamp st), ds_errors := es, ds_sensor_statuses := ss\<rparr>))"
    using rows assms(1-4) es(1) ss(1)
    by (simp add: sqs_get_def map_row_to_status_def fetch_errors_def fetch_sensor_statuses_def status_to_row_def
        ulid_column_show timestamp_column_as_second status_valid_def numeral_2_eq_2)
  then show ?thesis
    by (simp add: status_shown_def status_view_def status_kept_def es(2) ss(2))
qed

lemma filter_key: "filter (\<lambda>x. f x = k') (filter (\<lambda>x. f x \<noteq> k) xs) = (if k' = k then [] else filter (\<lambda>x. f x = k') xs)"
  by (induction xs) auto

lemma filter_rows_key:
  "filter (\<lambda>r. er_status_id r = k) (map (error_to_row uc i) es) = (if status_key uc i = k then map (error_to_row uc i) es else [])"
  "filter (\<lambda>r. tr_status_id r = k) (map (sensor_status_to_row uc i) ss) =
     (if status_key uc i = k then map (sensor_status_to_row uc i) ss else [])"
  by (induction es; simp) (induction ss; simp)

lemma rows_for_stored:
  assumes "ulid_codec_ok uc" and "stored uc st m m'"
  shows "status_valid st \<Longrightarrow> rows_for uc st m'"
    and "ds_id st' \<noteq> ds_id st \<Longrightarrow> rows_for uc st' m' \<longleftrightarrow> rows_for uc st' m"
  using assms(2)
  by (auto simp: rows_for_def stored_def hm_simps filter_key filter_rows_key status_key_inject [OF assms(1)]
      simp del: filter_filter)

lemma sqs_inv_stored:
  assumes "sqs_inv uc m" and "status_valid st" and "stored uc st m m'"
  shows "sqs_inv uc m'"
proof -
  have uc: "ulid_codec_ok uc" using assms(1) by (simp add: sqs_inv_def)
  have "\<exists>st'. rows_for uc st' m' \<and> k = status_key uc (ds_id st')" if "hm_get (sqs_statuses m') k = Some r" for k r
  proof (cases "k = status_key uc (ds_id st)")
    case True
    with rows_for_stored(1) [OF uc assms(3,2)] show ?thesis by blast
  next
    case False
    with that assms(3) have "hm_get (sqs_statuses m) k = Some r" by (simp add: stored_def hm_simps)
    with assms(1) obtain st' where "rows_for uc st' m" "k = status_key uc (ds_id st')"
      unfolding sqs_inv_def by blast
    moreover from this False have "ds_id st' \<noteq> ds_id st" by auto
    ultimately show ?thesis using rows_for_stored(2) [OF uc assms(3)] by blast
  qed
  then show ?thesis using assms by (simp add: sqs_inv_def stored_def)
qed

lemma status_shown_None:
  "\<not> sqs_io m 0 \<Longrightarrow> hm_get (sqs_statuses m) (status_key uc i) = None \<Longrightarrow> status_shown uc ord i m = None"
  by (simp add: status_shown_def sqs_get_def)

text \<open>Storing changes what is shown for one status.\<close>

lemma status_shown_stored:
  assumes "sqs_inv uc m" and "status_valid st" and "stored uc st m m'"
    and "\<not> sqs_io m 0" and "\<not> sqs_io m 1" and "\<not> sqs_io m 2"
  shows "status_shown uc ord i m' = (if i = ds_id st then Some (status_view (status_kept st)) else status_shown uc ord i m)"
proof -
  have uc: "ulid_codec_ok uc" using assms(1) by (simp add: sqs_inv_def)
  have io: "sqs_io m' = sqs_io m" using assms(3) by (simp add: stored_def)
  show ?thesis
  proof (cases "i = ds_id st")
    case True
    with status_shown_rows [OF uc _ _ _ rows_for_stored(1) [OF uc assms(3,2)], of ord] assms(4-) io show ?thesis by simp
  next
    case False
    then have get: "hm_get (sqs_statuses m') (status_key uc i) = hm_get (sqs_statuses m) (status_key uc i)"
      using assms(3) by (simp add: stored_def hm_simps status_key_inject [OF uc])
    show ?thesis
    proof (cases "hm_get (sqs_statuses m) (status_key uc i)")
      case None
      with False get assms(4) io show ?thesis by (simp add: status_shown_None)
    next
      case (Some r)
      then obtain st' where st': "rows_for uc st' m" "ds_id st' = i"
        using assms(1) unfolding sqs_inv_def by (metis status_key_inject)
      with rows_for_stored(2) [OF uc assms(3), of st'] False have "rows_for uc st' m'" by simp
      with status_shown_rows [OF uc _ _ _ this, of ord] status_shown_rows [OF uc _ _ _ st'(1), of ord] assms(4-) io st'(2) False
      show ?thesis by simp
    qed
  qed
qed

lemma sqs_store_OkD:
  assumes "sqs_store_at uc n st m = (Ok u, m')" and "seq_ok m"
  shows "stored uc st m m'" and "\<not> sqs_io m n" and "\<not> sqs_io m (n + 1)" and "\<not> sqs_io m (n + 2)"
proof -
  note body = transaction_OkD [OF assms(1) [unfolded sqs_store_at_def]]
  show "stored uc st m m'" by (rule store_body_stored [OF body assms(2)])
  show "\<not> sqs_io m n" using transaction_started [OF assms(1) [unfolded sqs_store_at_def]] by simp
  show "\<not> sqs_io m (n + 1)" "\<not> sqs_io m (n + 2)"
    using body by (auto simp: store_body_def then_do_Ok sqs_stmt_Ok insert_status_row_def)
qed

text \<open>Without failing statements a status is always stored.\<close>

lemma tx_each_stmt_Ok:
  assumes "\<And>x m. P m \<Longrightarrow> \<exists>m'. stmt x m = (Ok (), m') \<and> P m'" and "\<And>m. P m \<Longrightarrow> sqs_io m = (\<lambda>_. False)" and "P m"
  shows "\<exists>m'. tx_each (\<lambda>j x. sqs_stmt j (stmt x)) n xs m = (Ok (), m') \<and> P m'"
  using assms(3)
proof (induction xs arbitrary: n m)
  case (Cons x xs)
  obtain m1 where m1: "stmt x m = (Ok (), m1)" "P m1" using assms(1) [OF Cons.prems] by blast
  then have "sqs_stmt n (stmt x) m = (Ok (), m1)" using assms(2) [OF Cons.prems] by (simp add: sqs_stmt_Ok)
  with Cons.IH [OF m1(2)] show ?case by simp
qed simp

lemma sqs_store_Ok:
  assumes "sqs_io m = (\<lambda>_. False)"
  shows "\<exists>m'. sqs_store_at uc n st m = (Ok (), m')"
proof -
  let ?k = "status_key uc (ds_id st)"
  let ?P = "\<lambda>m. sqs_io m = (\<lambda>_. False) \<and> hm_get (sqs_statuses m) ?k \<noteq> None"
  define m1 where "m1 = m\<lparr>sqs_statuses := hm_insert ?k (status_to_row uc st) (sqs_statuses m),
      sqs_errors := filter (\<lambda>kr. er_status_id (snd kr) \<noteq> ?k) (sqs_errors m)\<rparr>"
  have "?P m1" using assms by (simp add: m1_def hm_simps)
  have "\<exists>m'. tx_each (\<lambda>j e. sqs_stmt j (insert_error (error_to_row uc (ds_id st) e))) (n + 3) (ds_errors st) m1 =
      (Ok (), m') \<and> ?P m'"
    by (rule tx_each_stmt_Ok) (use \<open>?P m1\<close> in \<open>auto simp: insert_error_def\<close>)
  then obtain m2 where m2: "tx_each (\<lambda>j e. sqs_stmt j (insert_error (error_to_row uc (ds_id st) e))) (n + 3) (ds_errors st) m1 = (Ok (), m2)"
    "?P m2" by blast
  let ?m3 = "m2\<lparr>sqs_sensor_statuses := filter (\<lambda>kr. tr_status_id (snd kr) \<noteq> ?k) (sqs_sensor_statuses m2)\<rparr>"
  have "?P ?m3" using m2(2) by simp
  have "\<exists>m'. tx_each (\<lambda>j s. sqs_stmt j (insert_sensor_status (sensor_status_to_row uc (ds_id st) s)))
      (n + 4 + length (ds_errors st)) (ds_sensor_statuses st) ?m3 = (Ok (), m') \<and> ?P m'"
    by (rule tx_each_stmt_Ok) (use \<open>?P ?m3\<close> in \<open>auto simp: insert_sensor_status_def\<close>)
  then obtain m4 where m4: "tx_each (\<lambda>j s. sqs_stmt j (insert_sensor_status (sensor_status_to_row uc (ds_id st) s)))
      (n + 4 + length (ds_errors st)) (ds_sensor_statuses st) ?m3 = (Ok (), m4)"
    by blast
  have stmts: "sqs_stmt (n + 1) (insert_status_row uc st) m =
      (Ok (), m\<lparr>sqs_statuses := hm_insert ?k (status_to_row uc st) (sqs_statuses m)\<rparr>)"
    "sqs_stmt (n + 2) (delete_errors ?k) (m\<lparr>sqs_statuses := hm_insert ?k (status_to_row uc st) (sqs_statuses m)\<rparr>) = (Ok (), m1)"
    "sqs_stmt (n + 3 + length (ds_errors st)) (delete_sensor_statuses ?k) m2 = (Ok (), ?m3)"
    using assms m2(2) by (simp_all add: sqs_stmt_Ok insert_status_row_def delete_errors_def delete_sensor_statuses_def
        sql_delete_def m1_def)
  have "store_body uc n st m = (Ok (), m4)"
    unfolding store_body_def stmts(1) then_do_def prod.case sum.case stmts(2) m2(1) stmts(3) by (rule m4)
  then show ?thesis using assms by (simp add: sqs_store_at_def transaction_def)
qed

subsection \<open>The SQLite registry and the in-memory registry\<close>

text \<open>A filter on which the back ends agree: no empty list, and whole seconds.\<close>

definition status_filter_plain :: "DeviceStatusFilter \<Rightarrow> bool" where
  "status_filter_plain f \<longleftrightarrow>
     list_plain (sf_ids f) \<and> list_plain (sf_device_ids f) \<and> list_plain (sf_dispatcher_ids f) \<and>
     list_plain (sf_error_codes f) \<and> whole (sf_timestamp_after f) \<and> whole (sf_timestamp_before f)"

lemma inj_error_code_value: "inj error_code_value"
proof (rule injI)
  fix a b show "error_code_value a = error_code_value b \<Longrightarrow> a = b" by (cases a; cases b) simp_all
qed

lemma error_condition_joined:
  assumes "list_plain (sf_error_codes f)"
    and "filter (\<lambda>e. er_status_id e = xr_id r) errors = map (error_to_row uc i) es"
  shows "(if needs_error_join f then list_ex (error_condition f) (joined_errors errors r) else True) \<longleftrightarrow>
    (case sf_has_errors f of None \<Rightarrow> True | Some has_errors \<Rightarrow> has_errors = (es \<noteq> [])) \<and>
    (case sf_error_codes f of None \<Rightarrow> True | Some codes \<Rightarrow> list_ex (\<lambda>e. de_code e \<in> set codes) es)"
proof -
  have code: "sql_in error_code_value (sf_error_codes f) (er_error_code (error_to_row uc i e)) = accepts (sf_error_codes f) (de_code e)" for e
    using sql_in_accepts [OF assms(1) inj_error_code_value, of "de_code e"] by (simp add: error_to_row_def)
  have j: "joined_errors errors r = (if es = [] then [None] else map (\<lambda>e. Some (error_to_row uc i e)) es)"
    by (simp add: joined_errors_def assms(2) comp_def)
  have some: "error_condition f (Some (error_to_row uc i e)) \<longleftrightarrow>
      sf_has_errors f \<noteq> Some False \<and> accepts (sf_error_codes f) (de_code e)" for e
    by (auto simp: error_condition_def code split: option.split)
  have none: "error_condition f None \<longleftrightarrow> sf_has_errors f \<noteq> Some True \<and> sf_error_codes f = None"
    using assms(1) by (auto simp: error_condition_def list_plain_def split: option.split)
  show ?thesis
  proof (cases "es = []")
    case True
    then show ?thesis
      using assms(1) by (auto simp: j none needs_error_join_def list_plain_def split: option.splits)
  next
    case False
    then have "list_ex (error_condition f) (joined_errors errors r) \<longleftrightarrow>
        sf_has_errors f \<noteq> Some False \<and> list_ex (\<lambda>e. accepts (sf_error_codes f) (de_code e)) es"
      by (auto simp: j list_ex_iff some)
    moreover have "list_ex (\<lambda>_. True) es" using False by (cases es) simp_all
    ultimately show ?thesis
      using False assms(1) by (auto simp: needs_error_join_def list_plain_def accepts_def split: option.splits)
  qed
qed

lemma inj_newtype_show:
  assumes "ulid_codec_ok uc"
  shows "inj (status_key uc)" and "inj (\<lambda>i. uc_show uc (device_ulid i))" and "inj (\<lambda>i. uc_show uc (dispatcher_ulid i))"
proof -
  have "dispatcher_ulid a = dispatcher_ulid b \<Longrightarrow> a = b" for a b by (cases a; cases b) simp
  then show "inj (\<lambda>i. uc_show uc (dispatcher_ulid i))" by (auto simp: inj_def uc_show_inject [OF assms])
  show "inj (status_key uc)" by (rule injI) (simp only: status_key_inject [OF assms])
qed (auto simp: inj_def uc_show_inject [OF assms])

lemma status_where_matches:
  assumes "ulid_codec_ok uc" and "status_filter_plain f" and "rows_for uc st m" and "whole_second (ds_timestamp st) = ds_timestamp st"
  shows "status_where uc f (error_rows m) (status_to_row uc st) = status_matches f st"
proof -
  note plain = assms(2) [unfolded status_filter_plain_def]
  note inj = inj_newtype_show [OF assms(1)]
  have "sql_in (status_key uc) (sf_ids f) (status_key uc (ds_id st)) = accepts (sf_ids f) (ds_id st)"
    "sql_in (\<lambda>i. uc_show uc (device_ulid i)) (sf_device_ids f) (uc_show uc (device_ulid (ds_device_id st))) =
       accepts (sf_device_ids f) (ds_device_id st)"
    "sql_in (\<lambda>i. uc_show uc (dispatcher_ulid i)) (sf_dispatcher_ids f) (uc_show uc (dispatcher_ulid (ds_dispatcher_id st))) =
       accepts (sf_dispatcher_ids f) (ds_dispatcher_id st)"
    using plain sql_in_accepts [OF _ inj(1)] sql_in_accepts [OF _ inj(2)] sql_in_accepts [OF _ inj(3)] by blast+
  moreover have "sql_window (sf_timestamp_after f) (sf_timestamp_before f) (as_second (ds_timestamp st)) =
      in_window (sf_timestamp_after f) (sf_timestamp_before f) (ds_timestamp st)"
    using plain by (intro sql_window_in_window assms(4)) simp_all
  moreover have "sql_between uint (sf_battery_range f) (uint (percent (ds_battery_percent st))) =
      in_range (sf_battery_range f) (percent (ds_battery_percent st))"
    by (rule sql_between_in_range) (simp add: word_le_def)
  moreover have "filter (\<lambda>e. er_status_id e = xr_id (status_to_row uc st)) (error_rows m) =
      map (error_to_row uc (ds_id st)) (ds_errors st)"
    using assms(3) by (simp add: rows_for_def)
  from error_condition_joined [OF _ this, of f] plain have
    "(if needs_error_join f then list_ex (error_condition f) (joined_errors (error_rows m) (status_to_row uc st)) else True) \<longleftrightarrow>
      (case sf_has_errors f of None \<Rightarrow> True | Some has_errors \<Rightarrow> has_errors = (ds_errors st \<noteq> [])) \<and>
      (case sf_error_codes f of None \<Rightarrow> True | Some codes \<Rightarrow> list_ex (\<lambda>e. de_code e \<in> set codes) (ds_errors st))"
    by blast
  ultimately show ?thesis
    unfolding status_where_def status_matches_def by (simp add: status_to_row_def) blast
qed

text \<open>The same statuses in both registries.\<close>

definition same_statuses :: "ulid_codec \<Rightarrow> SqliteDeviceStatusRegistry \<Rightarrow> InMemoryDeviceStatusRegistry \<Rightarrow> bool" where
  "same_statuses uc m n \<longleftrightarrow>
     sqs_inv uc m \<and> sqs_io m = (\<lambda>_. False) \<and> statuses_ok n \<and>
     (\<forall>i. hm_get (statuses n) i = None \<longrightarrow> hm_get (sqs_statuses m) (status_key uc i) = None) \<and>
     (\<forall>i st. hm_get (statuses n) i = Some st \<longrightarrow> rows_for uc st m \<and> whole_second (ds_timestamp st) = ds_timestamp st)"

definition status_exact :: "DeviceStatus \<Rightarrow> bool" where
  "status_exact st \<longleftrightarrow> status_valid st \<and> whole_second (ds_timestamp st) = ds_timestamp st"

lemma same_statuses_store:
  assumes "same_statuses uc m n" and "status_exact st"
  shows "\<exists>m'. sqs_store_at uc k st m = (Ok (), m') \<and> same_statuses uc m' (snd (ims_store st n))"
proof -
  note same = assms(1) [unfolded same_statuses_def]
  have uc: "ulid_codec_ok uc" and seq: "seq_ok m" using same by (simp_all add: sqs_inv_def)
  obtain m' where m': "sqs_store_at uc k st m = (Ok (), m')" using sqs_store_Ok same by blast
  have st: "stored uc st m m'" by (rule sqs_store_OkD(1) [OF m' seq])
  have valid: "status_valid st" using assms(2) by (simp add: status_exact_def)
  have "rows_for uc st' m'" if "hm_get (statuses n) i = Some st'" "i \<noteq> ds_id st" for i st'
    using that same rows_for_stored(2) [OF uc st, of st'] by (auto simp: rows_ok_def)
  moreover have "sqs_inv uc m'" using sqs_inv_stored [OF _ valid st] same by blast
  moreover have "rows_for uc st m'" by (rule rows_for_stored(1) [OF uc st valid])
  ultimately have "same_statuses uc m' (snd (ims_store st n))"
    using same st assms(2)
    by (auto simp: same_statuses_def ims_store_def hm_simps stored_def status_exact_def status_key_inject [OF uc])
  with m' show ?thesis by blast
qed

lemma same_statuses_batch:
  "same_statuses uc m n \<Longrightarrow> list_all status_exact sts \<Longrightarrow>
     \<exists>m'. sqs_batch_at uc k sts m = (Ok (), m') \<and> same_statuses uc m' (snd (try_each ims_store sts n))"
proof (induction sts arbitrary: m n k)
  case (Cons st sts)
  obtain m1 where m1: "sqs_store_at uc k st m = (Ok (), m1)" "same_statuses uc m1 (snd (ims_store st n))"
    using same_statuses_store [OF Cons.prems(1), of st k] Cons.prems(2) by auto
  have "try_each ims_store (st # sts) n = try_each ims_store sts (snd (ims_store st n))"
    by (simp add: ims_store_def)
  with Cons.IH [OF m1(2), of "k + store_stmts st"] Cons.prems(2) m1(1) show ?case by (simp add: then_do_def)
qed simp

lemma same_statuses_count:
  assumes "same_statuses uc m n" and "status_filter_plain f"
  shows "sql_count (status_where uc f (error_rows m)) (sqs_statuses m) = length (filter_statuses ord (statuses n) f)"
proof -
  note same = assms(1) [unfolded same_statuses_def]
  have uc: "ulid_codec_ok uc" and wf: "hm_wf (sqs_statuses m)" using same by (simp_all add: sqs_inv_def)
  have wfn: "hm_wf (statuses n)" using same by (simp add: rows_ok_def)
  have row: "hm_get (sqs_statuses m) (status_key uc i) = Some (status_to_row uc st)"
    "status_where uc f (error_rows m) (status_to_row uc st) = status_matches f st" if "hm_get (statuses n) i = Some st" for i st
    using that same status_where_matches [OF uc assms(2), of st m] by (auto simp: rows_for_def rows_ok_def)
  have key: "\<exists>i st. k = status_key uc i \<and> hm_get (statuses n) i = Some st" if get: "hm_get (sqs_statuses m) k = Some r" for k r
  proof -
    from same have "\<forall>k r. hm_get (sqs_statuses m) k = Some r \<longrightarrow> (\<exists>st. rows_for uc st m \<and> k = status_key uc (ds_id st))"
      by (simp add: sqs_inv_def)
    with get obtain st :: DeviceStatus where "k = status_key uc (ds_id st)" by blast
    with get same show ?thesis by (cases "hm_get (statuses n) (ds_id st)") auto
  qed
  have "{k. \<exists>r. hm_get (sqs_statuses m) k = Some r \<and> status_where uc f (error_rows m) r} =
      status_key uc ` {i. \<exists>st. hm_get (statuses n) i = Some st \<and> status_matches f st}" (is "?A = ?B")
  proof
    show "?A \<subseteq> ?B" using key row by fastforce
    show "?B \<subseteq> ?A" using row by auto
  qed
  then have "sql_count (status_where uc f (error_rows m)) (sqs_statuses m) =
      card {i. \<exists>st. hm_get (statuses n) i = Some st \<and> status_matches f st}"
    by (simp add: sql_count_card [OF wf] card_image inj_on_subset [OF inj_newtype_show(1) [OF uc]])
  also have "\<dots> = length (filter_statuses ord (statuses n) f)"
    using sql_count_card [OF wfn, of "status_matches f"]
    by (simp add: sql_count_def filter_statuses_def length_filter_hm_values)
  finally show ?thesis .
qed

subsection \<open>Properties\<close>

text \<open>
  C26.  Storing a status in SQLite.  The three tables change together or not at all: a failing statement
  leaves the registry as it was.  Otherwise a lookup shows the status with all its errors and sensor
  statuses, and nothing left of an earlier status with that identifier; instants are whole seconds.
  Other statuses are shown as before.
\<close>

theorem sqlite_status_store:
  assumes "sqs_inv uc m" and "status_valid st"
  shows "case sqs_store uc st m of
      (Inl e, m') \<Rightarrow> m' = m
    | (Inr _, m') \<Rightarrow> sqs_inv uc m' \<and>
        (\<forall>i. status_shown uc ord i m' =
          (if i = ds_id st then Some (status_view (status_kept st)) else status_shown uc ord i m))"
proof (cases "sqs_store uc st m")
  case (Pair res m')
  show ?thesis
  proof (cases res)
    case (Inl e)
    with Pair transaction_Err [of SE_Sqlx "\<lambda>j. sqs_io m (0 + j)" "store_stmts st - 1" "store_body uc 0 st" m e]
    show ?thesis by (simp add: sqs_store_def sqs_store_at_def)
  next
    case (Inr u)
    have seq: "seq_ok m" using assms(1) by (simp add: sqs_inv_def)
    have "sqs_store_at uc 0 st m = (Ok u, m')" using Pair Inr by (simp add: sqs_store_def)
    note ok = sqs_store_OkD [OF this seq]
    have "\<not> sqs_io m 0" "\<not> sqs_io m 1" "\<not> sqs_io m 2" using ok(2-4) by (simp_all add: numeral_2_eq_2)
    with status_shown_stored [OF assms ok(1)] sqs_inv_stored [OF assms ok(1)] Pair Inr show ?thesis by simp
  qed
qed

definition empty_sqlite_statuses :: SqliteDeviceStatusRegistry where
  "empty_sqlite_statuses =
     \<lparr>sqs_statuses = [], sqs_errors = [], sqs_sensor_statuses = [], sqs_error_seq = 0, sqs_sensor_seq = 0,
      sqs_io = (\<lambda>_. False)\<rparr>"

lemma empty_sqlite_statuses_inv: "ulid_codec_ok uc \<Longrightarrow> sqs_inv uc empty_sqlite_statuses"
  by (simp add: sqs_inv_def empty_sqlite_statuses_def seq_ok_def)

definition sample_orders :: status_orders where
  "sample_orders = \<lparr>so_statuses = forward_order, so_errors = forward_order, so_sensors = backward_order\<rparr>"

lemma sample_status_valid: "status_valid (sample_status i d b [])"
  by (simp add: status_valid_def sample_status_def timestamp_valid_def as_second_def MIN_SECOND_def MAX_SECOND_def)

theorem sqlite_status_store_witness:
  "status_shown sample_ulid_codec sample_orders (StatusId 3)
     (snd (sqs_store sample_ulid_codec (sample_status 3 5 80 []) empty_sqlite_statuses)) =
   Some (status_view (status_kept (sample_status 3 5 80 [])))"
proof -
  obtain m' where "sqs_store sample_ulid_codec (sample_status 3 5 80 []) empty_sqlite_statuses = (Ok (), m')"
    using sqs_store_Ok [of empty_sqlite_statuses sample_ulid_codec 0 "sample_status 3 5 80 []"]
    by (auto simp: sqs_store_def empty_sqlite_statuses_def)
  with sqlite_status_store [OF empty_sqlite_statuses_inv [OF sample_ulid_codec_ok] sample_status_valid [of 3 5 80],
      of sample_orders]
  show ?thesis by simp
qed

text \<open>
  Counting does not depend on the back end.  After storing any batch of statuses, a filter counts
  the same statuses in SQLite, where the errors are joined in, as in memory, provided no list of the
  filter is empty, instants are whole seconds and no statement fails.
\<close>

lemma status_count_backends_agree:
  assumes "ulid_codec_ok uc" and "list_all status_exact sts" and "status_filter_plain f"
  shows "\<exists>c. sqs_count uc (Some f) (snd (sqs_batch_store uc sts empty_sqlite_statuses)) = Ok c \<and>
    ims_count ord (Some f) (snd (ims_batch_store sts InMemoryDeviceStatusRegistry_new)) = Ok c"
proof -
  have "same_statuses uc empty_sqlite_statuses InMemoryDeviceStatusRegistry_new"
    using empty_sqlite_statuses_inv [OF assms(1)]
    by (simp add: same_statuses_def empty_sqlite_statuses_def InMemoryDeviceStatusRegistry_new_def)
  from same_statuses_batch [OF this assms(2), of 0] obtain m where m:
    "sqs_batch_store uc sts empty_sqlite_statuses = (Ok (), m)"
    "same_statuses uc m (snd (ims_batch_store sts InMemoryDeviceStatusRegistry_new))"
    by (auto simp: sqs_batch_store_def ims_batch_store_def)
  with same_statuses_count [OF m(2) assms(3), of ord] show ?thesis
    by (simp add: sqs_count_def ims_count_def same_statuses_def)
qed

end
