(* ===== verification/Prime_Ch.thy ===== *)
theory Prime_Ch
  imports Prime_Sqlite_Status Rust_Text
begin

text \<open>
  What the ClickHouse registries of prime (\<open>ersha-prime/src/registry/clickhouse\<close>) share: their error
  (\<open>mod.rs\<close>), the row structs of the four files, the client, and the conditions of their queries.

  The crate \<open>clickhouse\<close> and the server behind it are arguments: a \<open>Client\<close> is a record of what its
  calls do to a database of any type.  The calls that depend on the type of a row are in \<open>ch_rows\<close>, one
  record for every row struct.  What the theorems need of the server are the predicates of the last
  section, each of which says what the documentation of ClickHouse says of one kind of table.
\<close>

datatype 'ce ClickHouseError =
    CH_Client 'ce
  | CH_InvalidUlid string
  | CH_InvalidTimestamp int
  | CH_InvalidMetricType int
  | CH_InvalidDeviceState int
  | CH_InvalidDeviceKind int
  | CH_InvalidSensorKind int
  | CH_InvalidDispatcherState int
  | CH_InvalidErrorCode int
  | CH_InvalidSensorState int
  | CH_NotFound
  | CH_Panic  \<comment> \<open>the \<open>expect\<close> on a NaN\<close>

subsection \<open>Rows\<close>

text \<open>Integers of the rows are read as numbers; \<open>is_i32\<close> and \<open>is_i64\<close> below state their widths.\<close>

record ch_dispatcher_row =
  cp_id :: string
  cp_state :: int
  cp_location :: int
  cp_provisioned_at :: int
  cp_version :: u64

record ch_device_row =
  cv_id :: string
  cv_kind :: int
  cv_state :: int
  cv_location :: int
  cv_manufacturer :: "string option"
  cv_provisioned_at :: int
  cv_sensor_count :: int
  cv_version :: u64

record ch_sensor_row =
  cn_id :: string
  cn_kind :: int
  cn_metric_type :: int
  cn_metric_value :: f64
  cn_device_id :: string
  cn_version :: u64

record ch_reading_row =
  cr_id :: string
  cr_device_id :: string
  cr_dispatcher_id :: string
  cr_sensor_id :: string
  cr_metric_type :: int
  cr_metric_value :: f64
  cr_location :: int
  cr_confidence :: int
  cr_timestamp :: int

record ch_status_row =
  cx_id :: string
  cx_device_id :: string
  cx_dispatcher_id :: string
  cx_battery_percent :: int
  cx_uptime_seconds :: int
  cx_signal_rssi :: int
  cx_timestamp :: int

record ch_error_row =
  ce_status_id :: string
  ce_error_code :: int
  ce_message :: "string option"

record ch_sensor_status_row =
  ct_status_id :: string
  ct_sensor_id :: string
  ct_state :: int
  ct_last_reading :: "int option"

subsection \<open>The client\<close>

text \<open>
  \<open>insert.write\<close> sees the rows written before it; dropping an insert without \<open>end\<close> aborts it.  A query is
  its text and the values bound to it.
\<close>

record ('db, 'row, 'ce) ch_rows =
  insert_write :: "string \<Rightarrow> 'row list \<Rightarrow> 'row \<Rightarrow> 'db \<Rightarrow> (unit, 'ce) result"
  insert_end :: "string \<Rightarrow> 'row list \<Rightarrow> 'db \<Rightarrow> (unit, 'ce) result \<times> 'db"
  fetch_all :: "string \<Rightarrow> string list \<Rightarrow> 'db \<Rightarrow> ('row list, 'ce) result"
  fetch_optional :: "string \<Rightarrow> string list \<Rightarrow> 'db \<Rightarrow> ('row option, 'ce) result"

record ('db, 'ce) Ch_Client =
  cl_execute :: "string \<Rightarrow> 'db \<Rightarrow> (unit, 'ce) result \<times> 'db"
  cl_insert :: "string \<Rightarrow> 'db \<Rightarrow> (unit, 'ce) result"
  cl_fetch_one :: "string \<Rightarrow> string list \<Rightarrow> 'db \<Rightarrow> (u64, 'ce) result"
  cl_dispatchers :: "('db, ch_dispatcher_row, 'ce) ch_rows"
  cl_devices :: "('db, ch_device_row, 'ce) ch_rows"
  cl_sensors :: "('db, ch_sensor_row, 'ce) ch_rows"
  cl_readings :: "('db, ch_reading_row, 'ce) ch_rows"
  cl_statuses :: "('db, ch_status_row, 'ce) ch_rows"
  cl_errors :: "('db, ch_error_row, 'ce) ch_rows"
  cl_sensor_statuses :: "('db, ch_sensor_status_row, 'ce) ch_rows"

text \<open>
  The four registries are structs with a client.  The state of a registry adds what its operations
  reach through it: the database, and the clock whose next reading has the number \<open>ch_tick\<close>.
\<close>

record ('db, 'ce) ch_registry =
  ch_client :: "('db, 'ce) Ch_Client"
  ch_db :: 'db
  ch_clock :: "nat \<Rightarrow> timestamp"
  ch_tick :: nat

text \<open>\<open>connect\<close> is \<open>Client::default().with_url(url).with_database(database)\<close>.\<close>

definition create_client :: "(string \<Rightarrow> string \<Rightarrow> ('db, 'ce) Ch_Client) \<Rightarrow> string \<Rightarrow> string \<Rightarrow> ('db, 'ce) Ch_Client" where
  "create_client connect url database = connect url database"

fun execute_each ::
    "('db, 'ce) Ch_Client \<Rightarrow> string list \<Rightarrow> 'db \<Rightarrow> (unit, 'ce ClickHouseError) result \<times> 'db" where
  "execute_each client [] db = (Ok (), db)"
| "execute_each client (q # qs) db =
     (case cl_execute client q db of
        (Inl e, db') \<Rightarrow> (Err (CH_Client e), db')
      | (Inr _, db') \<Rightarrow> execute_each client qs db')"

definition registry_new ::
    "(string \<Rightarrow> string \<Rightarrow> ('db, 'ce) Ch_Client) \<Rightarrow> (nat \<Rightarrow> timestamp) \<Rightarrow> string list \<Rightarrow> string \<Rightarrow> string \<Rightarrow> 'db \<Rightarrow>
     (('db, 'ce) ch_registry, 'ce ClickHouseError) result" where
  "registry_new connect clock tables url database db =
     (let client = create_client connect url database
      in case execute_each client tables db of
           (Inl e, _) \<Rightarrow> Err e
         | (Inr _, db') \<Rightarrow> Ok \<lparr>ch_client = client, ch_db = db', ch_clock = clock, ch_tick = 0\<rparr>)"

text \<open>\<open>jiff::Timestamp::now().as_millisecond() as u64\<close>.\<close>

definition as_millisecond :: "timestamp \<Rightarrow> int" where
  "as_millisecond t = (if 0 \<le> t then t div 1000000 else - ((- t) div 1000000))"

definition version_at :: "('db, 'ce) ch_registry \<Rightarrow> nat \<Rightarrow> u64" where
  "version_at m n = word_of_int (as_millisecond (ch_clock m n))"

text \<open>\<open>insert.write(&row).await?\<close> for every row, then \<open>insert.end().await?\<close>.\<close>

fun write_rows ::
    "('db, 'row, 'ce) ch_rows \<Rightarrow> string \<Rightarrow> 'row list \<Rightarrow> 'row list \<Rightarrow> 'db \<Rightarrow> (unit, 'ce ClickHouseError) result" where
  "write_rows c table done_rows [] db = Ok ()"
| "write_rows c table done_rows (r # rows) db =
     (case insert_write c table done_rows r db of
        Inl e \<Rightarrow> Err (CH_Client e)
      | Inr _ \<Rightarrow> write_rows c table (done_rows @ [r]) rows db)"

definition insert_rows ::
    "(('db, 'ce) Ch_Client \<Rightarrow> ('db, 'row, 'ce) ch_rows) \<Rightarrow> string \<Rightarrow> 'row list \<Rightarrow> ('db, 'ce) ch_registry \<Rightarrow>
     (unit, 'ce ClickHouseError) result \<times> ('db, 'ce) ch_registry" where
  "insert_rows sel table rows m =
     (let c = sel (ch_client m); db = ch_db m
      in case cl_insert (ch_client m) table db of
           Inl e \<Rightarrow> (Err (CH_Client e), m)
         | Inr _ \<Rightarrow>
             (case write_rows c table [] rows db of
                Inl e \<Rightarrow> (Err e, m)
              | Inr _ \<Rightarrow>
                  (let (r, db') = insert_end c table rows db
                   in (map_sum CH_Client id r, m\<lparr>ch_db := db'\<rparr>))))"

definition query_optional ::
    "(('db, 'ce) Ch_Client \<Rightarrow> ('db, 'row, 'ce) ch_rows) \<Rightarrow> string \<Rightarrow> string list \<Rightarrow> ('db, 'ce) ch_registry \<Rightarrow>
     ('row option, 'ce ClickHouseError) result" where
  "query_optional sel q bindings m = map_sum CH_Client id (fetch_optional (sel (ch_client m)) q bindings (ch_db m))"

definition query_all ::
    "(('db, 'ce) Ch_Client \<Rightarrow> ('db, 'row, 'ce) ch_rows) \<Rightarrow> string \<Rightarrow> string list \<Rightarrow> ('db, 'ce) ch_registry \<Rightarrow>
     ('row list, 'ce ClickHouseError) result" where
  "query_all sel q bindings m = map_sum CH_Client id (fetch_all (sel (ch_client m)) q bindings (ch_db m))"

definition query_count ::
    "string \<times> string list \<Rightarrow> ('db, 'ce) ch_registry \<Rightarrow> (nat, 'ce ClickHouseError) result" where
  "query_count q m = map_sum CH_Client unat (cl_fetch_one (ch_client m) (fst q) (snd q) (ch_db m))"

subsection \<open>Columns\<close>

definition ch_ulid :: "ulid_codec \<Rightarrow> string \<Rightarrow> (ulid, 'ce ClickHouseError) result" where
  "ch_ulid uc s = (case uc_parse uc s of Some u \<Rightarrow> Ok u | None \<Rightarrow> Err (CH_InvalidUlid s))"

definition ch_timestamp :: "int \<Rightarrow> (timestamp, 'ce ClickHouseError) result" where
  "ch_timestamp s = (case from_second s of Some t \<Rightarrow> Ok t | None \<Rightarrow> Err (CH_InvalidTimestamp s))"

definition ch_not_nan :: "(f64 \<Rightarrow> SensorMetric) \<Rightarrow> f64 \<Rightarrow> (SensorMetric, 'ce ClickHouseError) result" where
  "ch_not_nan c v = (case NotNan_new v of Some x \<Rightarrow> Ok (c x) | None \<Rightarrow> Err CH_Panic)"

definition ch_metric :: "int \<Rightarrow> f64 \<Rightarrow> (SensorMetric, 'ce ClickHouseError) result" where
  "ch_metric mt v =
     (if mt = 0 then Ok (SoilMoisture (Percentage (f64_as_u8 v)))
      else if mt = 1 then ch_not_nan SoilTemp v
      else if mt = 2 then ch_not_nan AirTemp v
      else if mt = 3 then Ok (Humidity (Percentage (f64_as_u8 v)))
      else if mt = 4 then ch_not_nan Rainfall v
      else Err (CH_InvalidMetricType mt))"

lemma ch_ulid_show: "ulid_codec_ok uc \<Longrightarrow> ch_ulid uc (uc_show uc u) = Ok u"
  by (simp add: ulid_codec_ok_def ch_ulid_def)

lemma ch_timestamp_as_second: "timestamp_valid t \<Longrightarrow> ch_timestamp (as_second t) = Ok (whole_second t)"
  by (simp add: ch_timestamp_def from_second_def timestamp_valid_def whole_second_def)

lemma ch_metric_disect: "metric_not_nan v \<Longrightarrow> ch_metric (fst (disect_metric v)) (snd (disect_metric v)) = Ok v"
  by (cases v) (simp_all add: ch_metric_def ch_not_nan_def NotNan_new_def f64_as_u8_int_as_f64 split: Percentage.split)

lemmas ch_columns = ch_ulid_show ch_timestamp_as_second ch_metric_disect

text \<open>The widths of the columns.\<close>

definition is_i32 :: "int \<Rightarrow> bool" where
  "is_i32 i \<longleftrightarrow> - (2 ^ 31) \<le> i \<and> i < 2 ^ 31"

definition is_i64 :: "int \<Rightarrow> bool" where
  "is_i64 i \<longleftrightarrow> - (2 ^ 63) \<le> i \<and> i < 2 ^ 63"

lemma is_i64_u64 [simp]: "is_i64 (u64_as_i64 w)"
  using sint_ge [of w] sint_lt [of w] by (simp add: is_i64_def u64_as_i64_def)

lemma is_i64_second: "timestamp_valid t \<Longrightarrow> is_i64 (as_second t)"
  by (simp add: timestamp_valid_def is_i64_def MIN_SECOND_def MAX_SECOND_def)

lemma is_i32_byte [simp]: "is_i32 (uint (w :: u8))"
  using uint_lt2p [of w] order_trans [OF _ uint_ge_0 [of w], of "- 2147483648"] by (simp add: is_i32_def)

lemma is_i32_short [simp]: "is_i32 (sint (w :: i16))"
  using sint_ge [of w] sint_lt [of w] by (simp add: is_i32_def)

lemma is_i32_dispatcher_state [simp]: "is_i32 (dispatcher_state_code a)"
  by (cases a) (simp_all add: is_i32_def)

lemma is_i32_device_state [simp]: "is_i32 (device_state_code a)"
  by (cases a) (simp_all add: is_i32_def)

lemma is_i32_device_kind [simp]: "is_i32 (device_kind_code a)"
  by (cases a) (simp_all add: is_i32_def)

lemma is_i32_sensor_kind [simp]: "is_i32 (sensor_kind_code a)"
  by (cases a) (simp_all add: is_i32_def)

lemma is_i32_error_code [simp]: "is_i32 (error_code_value a)"
  by (cases a) (simp_all add: is_i32_def)

lemma is_i32_sensor_state [simp]: "is_i32 (sensor_state_value a)"
  by (cases a) (simp_all add: is_i32_def)

lemma is_i32_metric [simp]: "is_i32 (fst (disect_metric v))"
  by (cases v) (simp_all add: is_i32_def)

subsection \<open>Query text\<close>

text \<open>
  The pieces that every \<open>build_where_clause\<close> pushes: a condition \<open>column IN (...)\<close> with placeholders, the
  values of which are bound, or with the numbers themselves; nothing for no list and for an empty list.
\<close>

definition push_in_bound ::
    "string \<Rightarrow> ('a \<Rightarrow> string) \<Rightarrow> 'a list option \<Rightarrow> string list \<times> string list \<Rightarrow> string list \<times> string list" where
  "push_in_bound column show xs acc =
     (case xs of
        None \<Rightarrow> acc
      | Some ys \<Rightarrow>
          if ys = [] then acc
          else (fst acc @ [column @ '' IN ('' @ join '', '' (map (\<lambda>_. ''?'') ys) @ '')''], snd acc @ map show ys))"

definition push_in_values ::
    "string \<Rightarrow> ('a \<Rightarrow> int) \<Rightarrow> 'a list option \<Rightarrow> string list \<times> string list \<Rightarrow> string list \<times> string list" where
  "push_in_values column code xs acc =
     (case xs of
        None \<Rightarrow> acc
      | Some ys \<Rightarrow>
          if ys = [] then acc
          else (fst acc @ [column @ '' IN ('' @ join '', '' (map (\<lambda>y. int_to_string (code y)) ys) @ '')''], snd acc))"

definition push_opt :: "('a \<Rightarrow> string) \<Rightarrow> 'a option \<Rightarrow> string list \<times> string list \<Rightarrow> string list \<times> string list" where
  "push_opt text x acc = (case x of None \<Rightarrow> acc | Some y \<Rightarrow> (fst acc @ [text y], snd acc))"

definition where_text :: "string list \<Rightarrow> string" where
  "where_text conditions = (if conditions = [] then [] else '' WHERE '' @ join '' AND '' conditions)"

fun order_text :: "SortOrder \<Rightarrow> string" where
  "order_text Asc = '' ASC''"
| "order_text Desc = '' DESC''"

fun limit_text :: "Pagination \<Rightarrow> string" where
  "limit_text (Offset offset limit) = '' LIMIT '' @ nat_to_string limit @ '' OFFSET '' @ nat_to_string offset"
| "limit_text (Cursor after limit) = '' LIMIT '' @ nat_to_string limit"

subsection \<open>What a condition means\<close>

text \<open>
  The conditions as data: \<open>condition_text\<close> and \<open>condition_bindings\<close> write one down, \<open>holds\<close> is its meaning in
  SQL on a row, given by the values of its columns.  A comparison with \<open>NULL\<close> does not hold.
\<close>

datatype ch_value = V_Int int | V_Str string | V_Null

datatype ch_condition =
    In_bound string "string list"
  | In_values string "int list"
  | At_least string int
  | At_most string int
  | Between string int int

fun condition_text :: "ch_condition \<Rightarrow> string" where
  "condition_text (In_bound c ss) = c @ '' IN ('' @ join '', '' (map (\<lambda>_. ''?'') ss) @ '')''"
| "condition_text (In_values c is) = c @ '' IN ('' @ join '', '' (map int_to_string is) @ '')''"
| "condition_text (At_least c i) = c @ '' >= '' @ int_to_string i"
| "condition_text (At_most c i) = c @ '' <= '' @ int_to_string i"
| "condition_text (Between c i j) = c @ '' BETWEEN '' @ int_to_string i @ '' AND '' @ int_to_string j"

fun condition_bindings :: "ch_condition \<Rightarrow> string list" where
  "condition_bindings (In_bound c ss) = ss"
| "condition_bindings _ = []"

fun holds :: "(string \<Rightarrow> ch_value) \<Rightarrow> ch_condition \<Rightarrow> bool" where
  "holds row (In_bound c ss) = (case row c of V_Str s \<Rightarrow> s \<in> set ss | _ \<Rightarrow> False)"
| "holds row (In_values c is) = (case row c of V_Int i \<Rightarrow> i \<in> set is | _ \<Rightarrow> False)"
| "holds row (At_least c i) = (case row c of V_Int v \<Rightarrow> i \<le> v | _ \<Rightarrow> False)"
| "holds row (At_most c i) = (case row c of V_Int v \<Rightarrow> v \<le> i | _ \<Rightarrow> False)"
| "holds row (Between c i j) = (case row c of V_Int v \<Rightarrow> i \<le> v \<and> v \<le> j | _ \<Rightarrow> False)"

definition written_as :: "string list \<times> string list \<Rightarrow> ch_condition list \<Rightarrow> bool" where
  "written_as acc cs \<longleftrightarrow> fst acc = map condition_text cs \<and> snd acc = concat (map condition_bindings cs)"

definition conditions_in_bound :: "string \<Rightarrow> ('a \<Rightarrow> string) \<Rightarrow> 'a list option \<Rightarrow> ch_condition list" where
  "conditions_in_bound column show xs =
     (case xs of None \<Rightarrow> [] | Some ys \<Rightarrow> if ys = [] then [] else [In_bound column (map show ys)])"

definition conditions_in_values :: "string \<Rightarrow> ('a \<Rightarrow> int) \<Rightarrow> 'a list option \<Rightarrow> ch_condition list" where
  "conditions_in_values column code xs =
     (case xs of None \<Rightarrow> [] | Some ys \<Rightarrow> if ys = [] then [] else [In_values column (map code ys)])"

definition conditions_opt :: "('a \<Rightarrow> ch_condition) \<Rightarrow> 'a option \<Rightarrow> ch_condition list" where
  "conditions_opt f x = (case x of None \<Rightarrow> [] | Some y \<Rightarrow> [f y])"

lemmas conditions_defs = conditions_in_bound_def conditions_in_values_def conditions_opt_def

lemma written_as_Nil [simp]: "written_as ([], []) []"
  by (simp add: written_as_def)

lemma written_in_bound [intro]:
  "written_as acc cs \<Longrightarrow> written_as (push_in_bound column show xs acc) (cs @ conditions_in_bound column show xs)"
  by (auto simp: written_as_def push_in_bound_def conditions_defs comp_def split: option.split)

lemma written_in_values [intro]:
  "written_as acc cs \<Longrightarrow> written_as (push_in_values column code xs acc) (cs @ conditions_in_values column code xs)"
  by (auto simp: written_as_def push_in_values_def conditions_defs comp_def split: option.split)

lemma written_opt [intro]:
  "written_as acc cs \<Longrightarrow> (\<And>y. text y = condition_text (f y) \<and> condition_bindings (f y) = []) \<Longrightarrow>
     written_as (push_opt text x acc) (cs @ conditions_opt f x)"
  by (auto simp: written_as_def push_opt_def conditions_defs split: option.split)

text \<open>The meaning of the pieces, in the terms of the SQLite registries.\<close>

lemma holds_in_bound [simp]:
  "row column = V_Str s \<Longrightarrow> list_all (holds row) (conditions_in_bound column show xs) = sql_in show xs s"
  by (auto simp: conditions_defs sql_in_def split: option.split)

lemma holds_in_values [simp]:
  "row column = V_Int i \<Longrightarrow> list_all (holds row) (conditions_in_values column code xs) = sql_in code xs i"
  by (auto simp: conditions_defs sql_in_def split: option.split)

lemma holds_window [simp]:
  "row column = V_Int s \<Longrightarrow>
     (list_all (holds row) (conditions_opt (\<lambda>t. At_least column (as_second t)) after) \<and>
      list_all (holds row) (conditions_opt (\<lambda>t. At_most column (as_second t)) before)) = sql_window after before s"
  by (auto simp: conditions_defs sql_window_def split: option.split)

lemma holds_between [simp]:
  "row column = V_Int v \<Longrightarrow>
     list_all (holds row) (conditions_opt (\<lambda>r. Between column (code (fst r)) (code (snd r))) rng) =
     sql_between code rng v"
  by (auto simp: conditions_defs sql_between_def split: option.split)

subsection \<open>Placeholders\<close>

definition placeholders :: "string \<Rightarrow> nat" where
  "placeholders q = count_list q (CHR ''?'')"

lemma placeholders_simps [simp]:
  "placeholders [] = 0" "placeholders (s @ t) = placeholders s + placeholders t"
  "placeholders (c # s) = (if c = CHR ''?'' then 1 else 0) + placeholders s"
  by (simp_all add: placeholders_def)

lemma placeholders_numerals [simp]: "placeholders (int_to_string i) = 0" "placeholders (nat_to_string n) = 0"
  by (simp_all add: placeholders_def)

lemma placeholders_join: "placeholders sep = 0 \<Longrightarrow> placeholders (join sep ss) = sum_list (map placeholders ss)"
  by (simp add: placeholders_def [abs_def] count_list_join)

lemma placeholders_where: "placeholders (where_text cs) = sum_list (map placeholders cs)"
  by (simp add: where_text_def placeholders_join)

definition balanced :: "string list \<times> string list \<Rightarrow> bool" where
  "balanced acc \<longleftrightarrow> sum_list (map placeholders (fst acc)) = length (snd acc)"

lemma balanced_Nil [simp]: "balanced ([], [])"
  by (simp add: balanced_def)

lemma balanced_in_bound [intro]:
  "balanced acc \<Longrightarrow> placeholders column = 0 \<Longrightarrow> balanced (push_in_bound column show xs acc)"
  by (auto simp: balanced_def push_in_bound_def placeholders_join comp_def sum_list_triv split: option.split)

lemma balanced_in_values [intro]:
  "balanced acc \<Longrightarrow> placeholders column = 0 \<Longrightarrow> balanced (push_in_values column code xs acc)"
  by (auto simp: balanced_def push_in_values_def placeholders_join comp_def split: option.split)

lemma balanced_opt [intro]:
  "balanced acc \<Longrightarrow> (\<And>y. x = Some y \<Longrightarrow> placeholders (text y) = 0) \<Longrightarrow> balanced (push_opt text x acc)"
  by (auto simp: balanced_def push_opt_def split: option.split)

lemma placeholders_limit [simp]: "placeholders (limit_text p) = 0"
  by (cases p) simp_all

lemma placeholders_order [simp]: "placeholders (order_text so) = 0"
  by (cases so) simp_all

subsection \<open>What the theorems need of the server\<close>

text \<open>
  \<open>appends c table rows\<close>: \<open>rows\<close> are the rows of the table; an \<open>INSERT\<close> that succeeds adds its rows, and one
  that the server answers with an error adds none (inserts into one partition are atomic).
\<close>

definition appends :: "('db, 'row, 'ce) ch_rows \<Rightarrow> string \<Rightarrow> ('db \<Rightarrow> 'row list) \<Rightarrow> bool" where
  "appends c table rows \<longleftrightarrow>
     (\<forall>rs db. rows (snd (insert_end c table rs db)) =
        (case fst (insert_end c table rs db) of Inl _ \<Rightarrow> rows db | Inr _ \<Rightarrow> rows db @ rs))"

definition keeps :: "('db, 'row, 'ce) ch_rows \<Rightarrow> string \<Rightarrow> ('db \<Rightarrow> 'a) \<Rightarrow> bool" where
  "keeps c table rows \<longleftrightarrow> (\<forall>rs db. rows (snd (insert_end c table rs db)) = rows db)"

text \<open>
  \<open>SELECT ... FINAL\<close> on a \<open>ReplacingMergeTree(version)\<close>: of the rows with the same sorting key the one
  with the greatest version, and of several with that version the last inserted.
\<close>

definition final_row :: "('row \<Rightarrow> 'k) \<Rightarrow> ('row \<Rightarrow> u64) \<Rightarrow> 'row list \<Rightarrow> 'k \<Rightarrow> 'row option" where
  "final_row kf ver rows k =
     fold (\<lambda>r best. if kf r = k \<and> (case best of None \<Rightarrow> True | Some b \<Rightarrow> ver b \<le> ver r) then Some r else best)
       rows None"

lemma final_row_Nil [simp]: "final_row kf ver [] k = None"
  by (simp add: final_row_def)

lemma final_row_snoc:
  "final_row kf ver (rows @ [r]) k =
     (if kf r = k \<and> (case final_row kf ver rows k of None \<Rightarrow> True | Some b \<Rightarrow> ver b \<le> ver r) then Some r
      else final_row kf ver rows k)"
  by (simp add: final_row_def)

lemma final_row_mem: "final_row kf ver rows k = Some r \<Longrightarrow> r \<in> set rows \<and> kf r = k"
  by (induction rows arbitrary: r rule: rev_induct) (auto simp: final_row_snoc split: if_splits option.splits)

lemma final_row_None_iff: "final_row kf ver rows k = None \<longleftrightarrow> k \<notin> kf ` set rows"
  by (induction rows rule: rev_induct) (auto simp: final_row_snoc split: option.splits)

lemma final_row_newest:
  "\<forall>x \<in> set rows. ver x \<le> ver r \<Longrightarrow>
     final_row kf ver (rows @ [r]) k = (if kf r = k then Some r else final_row kf ver rows k)"
  using final_row_mem [of kf ver rows k] by (auto simp: final_row_snoc split: option.splits)

text \<open>All rows that \<open>FINAL\<close> shows, one for every key.\<close>

definition final_rows :: "('row \<Rightarrow> 'k) \<Rightarrow> ('row \<Rightarrow> u64) \<Rightarrow> 'row list \<Rightarrow> 'row list" where
  "final_rows kf ver rows = List.map_filter (final_row kf ver rows) (remdups (map kf rows))"

lemma set_final_rows: "r \<in> set (final_rows kf ver rows) \<longleftrightarrow> final_row kf ver rows (kf r) = Some r"
  by (auto simp: final_rows_def map_filter_def image_iff dest: final_row_mem)
    (metis final_row_mem option.sel)+

lemma keys_final_rows: "map kf (final_rows kf ver rows) = remdups (map kf rows)"
proof -
  have "map kf (List.map_filter (final_row kf ver rows) ks) = ks" if "set ks \<subseteq> kf ` set rows" for ks
    using that
  proof (induction ks)
    case (Cons k ks)
    then obtain r where "final_row kf ver rows k = Some r"
      using final_row_None_iff [of kf ver rows k] by auto
    with Cons final_row_mem [of kf ver rows k r] show ?case
      by (simp add: map_filter_simps)
  qed (simp add: map_filter_simps)
  then show ?thesis by (simp add: final_rows_def)
qed

lemma distinct_final_rows: "distinct (map kf (final_rows kf ver rows))"
  by (simp add: keys_final_rows)

text \<open>Rows of one version that is not older than the table: the last one with a key is shown.\<close>

lemma final_row_batch:
  "\<forall>x \<in> set rows. ver x \<le> v \<Longrightarrow> \<forall>x \<in> set rs. ver x = v \<Longrightarrow>
     final_row kf ver (rows @ rs) k =
       (case find (\<lambda>x. kf x = k) (rev rs) of Some x \<Rightarrow> Some x | None \<Rightarrow> final_row kf ver rows k)"
proof (induction rs rule: rev_induct)
  case (snoc r rs)
  have "final_row kf ver ((rows @ rs) @ [r]) k = (if kf r = k then Some r else final_row kf ver (rows @ rs) k)"
    using snoc.prems by (intro final_row_newest) auto
  with snoc show ?case by simp
qed simp

lemma set_final_rows_append:
  assumes "\<forall>x \<in> set rows. ver x \<le> v" and "\<forall>x \<in> set rs. ver x = v" and "distinct (map kf rs)"
  shows "set (final_rows kf ver (rows @ rs)) = set rs \<union> {r \<in> set (final_rows kf ver rows). kf r \<notin> kf ` set rs}"
proof -
  have "final_row kf ver (rows @ rs) (kf r) = Some r \<longleftrightarrow>
      r \<in> set rs \<or> final_row kf ver rows (kf r) = Some r \<and> kf r \<notin> kf ` set rs" for r
  proof (cases "find (\<lambda>x. kf x = kf r) (rev rs)")
    case None
    then have "kf r \<notin> kf ` set rs" by (auto simp: find_None_iff image_iff)
    with None show ?thesis unfolding final_row_batch [OF assms(1,2)] by auto
  next
    case (Some x)
    then have x: "x \<in> set rs" "kf x = kf r" by (auto dest: find_SomeD)
    then have "kf r \<in> kf ` set rs" by (metis imageI)
    moreover have "r \<in> set rs \<longleftrightarrow> x = r"
      using x assms(3) unfolding distinct_map by (metis inj_onD)
    ultimately show ?thesis unfolding final_row_batch [OF assms(1,2)] Some by simp
  qed
  then show ?thesis by (simp add: set_eq_iff set_final_rows)
qed

lemma insert_rows_client [simp]:
  "ch_client (snd (insert_rows sel table rows m)) = ch_client m"
  "ch_clock (snd (insert_rows sel table rows m)) = ch_clock m"
  "ch_tick (snd (insert_rows sel table rows m)) = ch_tick m"
  by (auto simp: insert_rows_def Let_def split: sum.splits prod.splits)

lemma insert_rows_cases:
  obtains (refused) e where "insert_rows sel table rs m = (Err e, m)"
  | (failed) e where "insert_rows sel table rs m = (Err (CH_Client e), m\<lparr>ch_db := snd (insert_end (sel (ch_client m)) table rs (ch_db m))\<rparr>)"
      "fst (insert_end (sel (ch_client m)) table rs (ch_db m)) = Err e"
  | (inserted) "insert_rows sel table rs m = (Ok (), m\<lparr>ch_db := snd (insert_end (sel (ch_client m)) table rs (ch_db m))\<rparr>)"
      "fst (insert_end (sel (ch_client m)) table rs (ch_db m)) = Ok ()"
proof -
  let ?c = "sel (ch_client m)"
  obtain r db' where e: "insert_end ?c table rs (ch_db m) = (r, db')"
    by fastforce
  consider e1 where "cl_insert (ch_client m) table (ch_db m) = Err e1"
    | e2 where "cl_insert (ch_client m) table (ch_db m) = Ok ()" "write_rows ?c table [] rs (ch_db m) = Err e2"
    | "cl_insert (ch_client m) table (ch_db m) = Ok ()" "write_rows ?c table [] rs (ch_db m) = Ok ()"
    by (cases "cl_insert (ch_client m) table (ch_db m)"; cases "write_rows ?c table [] rs (ch_db m)") auto
  then show thesis
  proof cases
    case 3
    with e refused failed inserted show thesis
      by (cases r) (auto simp: insert_rows_def)
  qed (use refused in \<open>auto simp: insert_rows_def\<close>)
qed

lemma insert_rows_appends:
  "appends (sel (ch_client m)) table rows \<Longrightarrow>
     rows (ch_db (snd (insert_rows sel table rs m))) =
       (case fst (insert_rows sel table rs m) of Inl _ \<Rightarrow> rows (ch_db m) | Inr _ \<Rightarrow> rows (ch_db m) @ rs)"
  by (cases rule: insert_rows_cases [of sel table rs m]) (simp_all add: appends_def)

lemma insert_rows_keeps:
  "keeps (sel (ch_client m)) table rows \<Longrightarrow> rows (ch_db (snd (insert_rows sel table rs m))) = rows (ch_db m)"
  by (cases rule: insert_rows_cases [of sel table rs m]) (simp_all add: keeps_def)

end
