(* ===== verification/Prime_Ch_Dispatcher.thy ===== *)
theory Prime_Ch_Dispatcher
  imports Prime_Ch
begin

text \<open>
  The ClickHouse dispatcher registry of prime (\<open>ersha-prime/src/registry/clickhouse/dispatcher.rs\<close>):
  a \<open>ReplacingMergeTree\<close> whose version is the clock of prime in milliseconds, so an update is a new row.
\<close>

definition CREATE_DISPATCHERS :: string where
  "CREATE_DISPATCHERS = raw_lines
     [''CREATE TABLE IF NOT EXISTS dispatchers ('', ''    id String,'', ''    state Int32,'',
      ''    location Int64,'', ''    provisioned_at Int64,'', ''    version UInt64'',
      '') ENGINE = ReplacingMergeTree(version)'', ''ORDER BY id'']"

definition ch_dispatcher_of_row :: "ulid_codec \<Rightarrow> ch_dispatcher_row \<Rightarrow> (Dispatcher, 'ce ClickHouseError) result" where
  "ch_dispatcher_of_row uc r =
     and_then (ch_ulid uc (cp_id r)) (\<lambda>u.
     and_then (if cp_state r = 0 then Ok Dispatcher_Active
               else if cp_state r = 1 then Ok Dispatcher_Suspended
               else Err (CH_InvalidDispatcherState (cp_state r))) (\<lambda>state.
     and_then (ch_timestamp (cp_provisioned_at r)) (\<lambda>t.
       Ok \<lparr>disp_id = DispatcherId u, disp_location = H3Cell (i64_as_u64 (cp_location r)), disp_state = state,
           disp_provisioned_at = t\<rparr>)))"

definition ch_dispatcher_to_row :: "ulid_codec \<Rightarrow> u64 \<Rightarrow> Dispatcher \<Rightarrow> ch_dispatcher_row" where
  "ch_dispatcher_to_row uc version d =
     \<lparr>cp_id = uc_show uc (dispatcher_ulid (disp_id d)), cp_state = dispatcher_state_code (disp_state d),
      cp_location = u64_as_i64 (h3_index (disp_location d)), cp_provisioned_at = as_second (disp_provisioned_at d),
      cp_version = version\<rparr>"

definition ClickHouseDispatcherRegistry_new where
  "ClickHouseDispatcherRegistry_new connect clock url database db =
     registry_new connect clock [CREATE_DISPATCHERS] url database db"

definition chp_register ::
    "ulid_codec \<Rightarrow> Dispatcher \<Rightarrow> ('db, 'ce) ch_registry \<Rightarrow> (unit, 'ce ClickHouseError) result \<times> ('db, 'ce) ch_registry" where
  "chp_register uc d m =
     insert_rows cl_dispatchers ''dispatchers'' [ch_dispatcher_to_row uc (version_at m (ch_tick m)) d]
       (m\<lparr>ch_tick := Suc (ch_tick m)\<rparr>)"

definition chp_get ::
    "ulid_codec \<Rightarrow> DispatcherId \<Rightarrow> ('db, 'ce) ch_registry \<Rightarrow> (Dispatcher option, 'ce ClickHouseError) result" where
  "chp_get uc i m =
     and_then (query_optional cl_dispatchers ''SELECT ?fields FROM dispatchers FINAL WHERE id = ?''
       [uc_show uc (dispatcher_ulid i)] m) (\<lambda>row.
     case row of
       None \<Rightarrow> Ok None
     | Some r \<Rightarrow> and_then (ch_dispatcher_of_row uc r) (\<lambda>d. Ok (Some d)))"

definition chp_update ::
    "ulid_codec \<Rightarrow> DispatcherId \<Rightarrow> Dispatcher \<Rightarrow> ('db, 'ce) ch_registry \<Rightarrow>
     (unit, 'ce ClickHouseError) result \<times> ('db, 'ce) ch_registry" where
  "chp_update uc i new m =
     (case chp_get uc i m of
        Inl e \<Rightarrow> (Err e, m)
      | Inr None \<Rightarrow> (Err CH_NotFound, m)
      | Inr (Some _) \<Rightarrow> chp_register uc (new\<lparr>disp_id := i\<rparr>) m)"

definition chp_suspend ::
    "ulid_codec \<Rightarrow> DispatcherId \<Rightarrow> ('db, 'ce) ch_registry \<Rightarrow>
     (unit, 'ce ClickHouseError) result \<times> ('db, 'ce) ch_registry" where
  "chp_suspend uc i m =
     (case chp_get uc i m of
        Inl e \<Rightarrow> (Err e, m)
      | Inr None \<Rightarrow> (Err CH_NotFound, m)
      | Inr (Some d) \<Rightarrow> chp_register uc (d\<lparr>disp_state := Dispatcher_Suspended\<rparr>) m)"

text \<open>The clock is read for every row; a row after the one whose \<open>write\<close> fails does not matter.\<close>

definition chp_batch_rows :: "ulid_codec \<Rightarrow> Dispatcher list \<Rightarrow> ('db, 'ce) ch_registry \<Rightarrow> ch_dispatcher_row list" where
  "chp_batch_rows uc ds m =
     map (\<lambda>(n, d). ch_dispatcher_to_row uc (version_at m (ch_tick m + n)) d) (enumerate 0 ds)"

definition chp_batch_register ::
    "ulid_codec \<Rightarrow> Dispatcher list \<Rightarrow> ('db, 'ce) ch_registry \<Rightarrow>
     (unit, 'ce ClickHouseError) result \<times> ('db, 'ce) ch_registry" where
  "chp_batch_register uc ds m =
     (if ds = [] then (Ok (), m)
      else insert_rows cl_dispatchers ''dispatchers'' (chp_batch_rows uc ds m)
             (m\<lparr>ch_tick := ch_tick m + length ds\<rparr>))"

subsection \<open>Queries\<close>

definition chp_where_conditions :: "DispatcherFilter \<Rightarrow> string list \<times> string list" where
  "chp_where_conditions f =
     push_in_values ''location'' (\<lambda>l. u64_as_i64 (h3_index l)) (pf_locations f)
       (push_in_values ''state'' dispatcher_state_code (pf_states f) ([], []))"

definition chp_build_where_clause :: "DispatcherFilter \<Rightarrow> string \<times> string list" where
  "chp_build_where_clause f =
     (let (conditions, bindings) = chp_where_conditions f in (where_text conditions, bindings))"

definition chp_build_count_query :: "DispatcherFilter option \<Rightarrow> string \<times> string list" where
  "chp_build_count_query f =
     (case f of
        None \<Rightarrow> (''SELECT count() FROM dispatchers FINAL'', [])
      | Some f' \<Rightarrow>
          (let (where_clause, filter_bindings) = chp_build_where_clause f'
           in if where_clause \<noteq> [] then (''SELECT count() FROM dispatchers FINAL'' @ where_clause, filter_bindings)
              else (''SELECT count() FROM dispatchers FINAL'', [])))"

fun chp_sort_column :: "DispatcherSortBy \<Rightarrow> string" where
  "chp_sort_column DispBy_ProvisionAt = ''provisioned_at''"

definition chp_build_list_query :: "(DispatcherFilter, DispatcherSortBy) QueryOptions \<Rightarrow> string \<times> string list" where
  "chp_build_list_query options =
     (let (where_clause, bindings) = chp_build_where_clause (qo_filter options)
      in (''SELECT ?fields FROM dispatchers FINAL'' @ where_clause @ '' ORDER BY '' @
            chp_sort_column (qo_sort_by options) @ order_text (qo_sort_order options) @
            limit_text (qo_pagination options),
          bindings))"

definition chp_count ::
    "DispatcherFilter option \<Rightarrow> ('db, 'ce) ch_registry \<Rightarrow> (nat, 'ce ClickHouseError) result" where
  "chp_count f m = query_count (chp_build_count_query f) m"

definition chp_list ::
    "ulid_codec \<Rightarrow> (DispatcherFilter, DispatcherSortBy) QueryOptions \<Rightarrow> ('db, 'ce) ch_registry \<Rightarrow>
     (Dispatcher list, 'ce ClickHouseError) result" where
  "chp_list uc options m =
     (let (query, bindings) = chp_build_list_query options
      in and_then (query_all cl_dispatchers query bindings m) (try_map (ch_dispatcher_of_row uc)))"

definition clickhouse_dispatchers ::
    "ulid_codec \<Rightarrow> (('db, 'ce) ch_registry, 'ce ClickHouseError) DispatcherRegistry" where
  "clickhouse_dispatchers uc =
     \<lparr>disp_register = chp_register uc, disp_get = chp_get uc, disp_update = chp_update uc,
      disp_suspend = chp_suspend uc, disp_batch_register = chp_batch_register uc,
      disp_count = chp_count, disp_list = chp_list uc\<rparr>"

subsection \<open>Query lemmas\<close>

lemma chp_balanced: "balanced (chp_where_conditions f)"
  unfolding chp_where_conditions_def by (intro balanced_in_values) simp_all

definition chp_conditions :: "DispatcherFilter \<Rightarrow> ch_condition list" where
  "chp_conditions f =
     conditions_in_values ''state'' dispatcher_state_code (pf_states f) @
     conditions_in_values ''location'' (\<lambda>l. u64_as_i64 (h3_index l)) (pf_locations f)"

lemma chp_written: "written_as (chp_where_conditions f) (chp_conditions f)"
  using written_in_values [OF written_in_values [OF written_as_Nil]]
  unfolding chp_where_conditions_def chp_conditions_def by fastforce

definition dispatcher_columns :: "ch_dispatcher_row \<Rightarrow> string \<Rightarrow> ch_value" where
  "dispatcher_columns r column =
     (if column = ''id'' then V_Str (cp_id r)
      else if column = ''state'' then V_Int (cp_state r)
      else if column = ''location'' then V_Int (cp_location r)
      else if column = ''provisioned_at'' then V_Int (cp_provisioned_at r)
      else V_Null)"

lemma dispatcher_columns_simps [simp]:
  "dispatcher_columns r ''state'' = V_Int (cp_state r)" "dispatcher_columns r ''location'' = V_Int (cp_location r)"
  by (simp_all add: dispatcher_columns_def)

lemma chp_conditions_meaning:
  "list_all (holds (dispatcher_columns (ch_dispatcher_to_row uc v d))) (chp_conditions f) =
   dispatcher_where f (dispatcher_to_row uc d)"
  by (simp add: chp_conditions_def dispatcher_where_def)
    (simp add: ch_dispatcher_to_row_def dispatcher_to_row_def)

subsection \<open>The registry keeps its contract\<close>

lemma ch_dispatcher_of_row_to_row:
  "ulid_codec_ok uc \<Longrightarrow> dispatcher_valid d \<Longrightarrow> ch_dispatcher_of_row uc (ch_dispatcher_to_row uc v d) = Ok (dispatcher_kept d)"
  by (cases "disp_state d")
    (simp_all add: ch_dispatcher_of_row_def ch_dispatcher_to_row_def ch_columns dispatcher_valid_def dispatcher_kept_def)

lemma cp_version_to_row: "cp_version (ch_dispatcher_to_row uc v d) = v"
  by (simp add: ch_dispatcher_to_row_def)

text \<open>What the registry relies on: a replacing table, and a clock that does not go back.\<close>

definition dispatcher_server :: "('db, 'ce) Ch_Client \<Rightarrow> ('db \<Rightarrow> ch_dispatcher_row list) \<Rightarrow> bool" where
  "dispatcher_server client rows \<longleftrightarrow>
     appends (cl_dispatchers client) ''dispatchers'' rows \<and>
     (\<forall>k db. fetch_optional (cl_dispatchers client) ''SELECT ?fields FROM dispatchers FINAL WHERE id = ?'' [k] db =
        Ok (final_row cp_id cp_version (rows db) k))"

definition clock_forward :: "('db, 'ce) ch_registry \<Rightarrow> bool" where
  "clock_forward m \<longleftrightarrow> (\<forall>i j. i \<le> j \<longrightarrow> version_at m i \<le> version_at m j)"

definition chp_inv :: "ulid_codec \<Rightarrow> ('db \<Rightarrow> ch_dispatcher_row list) \<Rightarrow> ('db, 'ce) ch_registry \<Rightarrow> bool" where
  "chp_inv uc rows m \<longleftrightarrow>
     ulid_codec_ok uc \<and> dispatcher_server (ch_client m) rows \<and> clock_forward m \<and>
     (\<forall>r \<in> set (rows (ch_db m)).
        cp_version r \<le> version_at m (ch_tick m) \<and>
        (\<exists>d v. dispatcher_valid d \<and> r = ch_dispatcher_to_row uc v d))"

lemma version_at_simps [simp]:
  "version_at (m\<lparr>ch_tick := n\<rparr>) = version_at m" "version_at (m\<lparr>ch_db := db\<rparr>) = version_at m"
  by (simp_all add: version_at_def fun_eq_iff)

lemma clock_forward_cong: "version_at m = version_at n \<Longrightarrow> clock_forward m = clock_forward n"
  by (simp add: clock_forward_def)

lemma clock_forward_Suc: "clock_forward m \<Longrightarrow> version_at m n \<le> version_at m (Suc n)"
  by (simp add: clock_forward_def)

lemma version_at_insert [simp]: "version_at (snd (insert_rows sel table rs m)) = version_at m"
  by (simp add: version_at_def fun_eq_iff)

lemma chp_register_simps [simp]:
  "ch_client (snd (chp_register uc d m)) = ch_client m" "version_at (snd (chp_register uc d m)) = version_at m"
  "ch_tick (snd (chp_register uc d m)) = Suc (ch_tick m)"
  by (simp_all add: chp_register_def)

lemma chp_register_rows:
  "dispatcher_server (ch_client m) rows \<Longrightarrow>
     rows (ch_db (snd (chp_register uc d m))) =
       (case fst (chp_register uc d m) of
          Inl _ \<Rightarrow> rows (ch_db m)
        | Inr _ \<Rightarrow> rows (ch_db m) @ [ch_dispatcher_to_row uc (version_at m (ch_tick m)) d])"
  using insert_rows_appends [of cl_dispatchers "m\<lparr>ch_tick := Suc (ch_tick m)\<rparr>" "''dispatchers''" rows]
  by (simp add: chp_register_def dispatcher_server_def split: sum.split)

lemma chp_inv_register:
  assumes "chp_inv uc rows m" and "dispatcher_valid d"
  shows "chp_inv uc rows (snd (chp_register uc d m))"
proof -
  let ?r = "ch_dispatcher_to_row uc (version_at m (ch_tick m)) d"
  have step: "version_at m (ch_tick m) \<le> version_at m (Suc (ch_tick m))"
    using assms(1) by (simp add: chp_inv_def clock_forward_def)
  have "set (rows (ch_db (snd (chp_register uc d m)))) \<subseteq> insert ?r (set (rows (ch_db m)))"
    using assms(1) by (auto simp: chp_inv_def chp_register_rows split: sum.splits)
  moreover have "\<forall>r \<in> insert ?r (set (rows (ch_db m))). cp_version r \<le> version_at m (Suc (ch_tick m)) \<and>
      (\<exists>d v. dispatcher_valid d \<and> r = ch_dispatcher_to_row uc v d)"
    using assms step order_trans [OF _ step] by (auto simp: chp_inv_def cp_version_to_row)
  ultimately show ?thesis
    using assms(1) unfolding chp_inv_def clock_forward_def chp_register_simps by blast
qed

lemma chp_get_final:
  "dispatcher_server (ch_client m) rows \<Longrightarrow>
     chp_get uc i m =
       (case final_row cp_id cp_version (rows (ch_db m)) (uc_show uc (dispatcher_ulid i)) of
          None \<Rightarrow> Ok None
        | Some r \<Rightarrow> and_then (ch_dispatcher_of_row uc r) (\<lambda>d. Ok (Some d)))"
  by (simp add: chp_get_def query_optional_def dispatcher_server_def)

lemma chp_get_register:
  assumes "chp_inv uc rows m" and "dispatcher_valid d" and "chp_register uc d m = (Ok (), m')"
  shows "chp_get uc k m' = (if k = disp_id d then Ok (Some (dispatcher_kept d)) else chp_get uc k m)"
proof -
  have uc: "ulid_codec_ok uc" and srv: "dispatcher_server (ch_client m) rows"
    and ver: "\<forall>x \<in> set (rows (ch_db m)). cp_version x \<le> version_at m (ch_tick m)"
    using assms(1) by (auto simp: chp_inv_def)
  let ?r = "ch_dispatcher_to_row uc (version_at m (ch_tick m)) d"
  have m': "ch_client m' = ch_client m" "rows (ch_db m') = rows (ch_db m) @ [?r]"
    using chp_register_simps(1) [of uc d m] chp_register_rows [OF srv, of uc d] assms(3) by simp_all
  have "(dispatcher_ulid k = dispatcher_ulid (disp_id d)) = (k = disp_id d)"
    by (cases k; cases "disp_id d") simp
  then have key: "(cp_id ?r = uc_show uc (dispatcher_ulid k)) = (k = disp_id d)"
    by (auto simp: ch_dispatcher_to_row_def uc_show_inject [OF uc])
  have "final_row cp_id cp_version (rows (ch_db m')) (uc_show uc (dispatcher_ulid k)) =
      (if k = disp_id d then Some ?r else final_row cp_id cp_version (rows (ch_db m)) (uc_show uc (dispatcher_ulid k)))"
    unfolding m'(2) using ver by (subst final_row_newest) (simp_all add: ch_dispatcher_to_row_def key [symmetric])
  then show ?thesis
    using srv m'(1) by (simp add: chp_get_final [where rows = rows] ch_dispatcher_of_row_to_row [OF uc assms(2)])
qed

interpretation clickhouse_dispatcher_rows:
  keyed_registry "chp_register uc" "chp_get uc" disp_id dispatcher_kept dispatcher_valid "chp_inv uc rows" for uc rows
proof (unfold_locales, goal_cases)
  case (3 m r e m' k)
  then have "dispatcher_server (ch_client m) rows" "ch_client m' = ch_client m" "rows (ch_db m') = rows (ch_db m)"
    using chp_register_simps(1) [of uc r m] chp_register_rows [of m rows uc r] by (simp_all add: chp_inv_def)
  then show ?case by (simp add: chp_get_final [where rows = rows])
qed (simp_all add: chp_inv_register chp_get_register)

end
