(* ===== verification/Prime_Ch_Device.thy ===== *)
theory Prime_Ch_Device
  imports Prime_Ch_Dispatcher
begin

text \<open>
  The ClickHouse device registry of prime (\<open>ersha-prime/src/registry/clickhouse/device.rs\<close>): two
  \<open>ReplacingMergeTree\<close> tables, devices by identifier and sensors by device and identifier.  Nothing is
  deleted, so registering a device again keeps the sensors it had.
\<close>

definition CREATE_DEVICE_TABLE :: string where
  "CREATE_DEVICE_TABLE = raw_lines
     [''CREATE TABLE IF NOT EXISTS devices ('', ''    id String,'', ''    kind Int32,'', ''    state Int32,'',
      ''    location Int64,'', ''    manufacturer Nullable(String),'', ''    provisioned_at Int64,'',
      ''    sensor_count Int64,'', ''    version UInt64'', '') ENGINE = ReplacingMergeTree(version)'',
      ''ORDER BY id'']"

definition CREATE_SENSOR_TABLE :: string where
  "CREATE_SENSOR_TABLE = raw_lines
     [''CREATE TABLE IF NOT EXISTS sensors ('', ''    id String,'', ''    kind Int32,'', ''    metric_type Int32,'',
      ''    metric_value Float64,'', ''    device_id String,'', ''    version UInt64'',
      '') ENGINE = ReplacingMergeTree(version)'', ''ORDER BY (device_id, id)'']"

subsection \<open>Rows\<close>

definition ch_sensor_kind :: "int \<Rightarrow> (SensorKind, 'ce ClickHouseError) result" where
  "ch_sensor_kind k =
     (if k = 0 then Ok SK_SoilMoisture
      else if k = 1 then Ok SK_SoilTemp
      else if k = 2 then Ok SK_AirTemp
      else if k = 3 then Ok SK_Humidity
      else if k = 4 then Ok SK_Rainfall
      else Err (CH_InvalidSensorKind k))"

definition map_sensor_row :: "ulid_codec \<Rightarrow> ch_sensor_row \<Rightarrow> (Sensor, 'ce ClickHouseError) result" where
  "map_sensor_row uc r =
     and_then (ch_ulid uc (cn_id r)) (\<lambda>u.
     and_then (ch_sensor_kind (cn_kind r)) (\<lambda>kind.
     and_then (ch_metric (cn_metric_type r) (cn_metric_value r)) (\<lambda>metric.
       Ok \<lparr>sensor_id = SensorId u, sensor_metric = metric, sensor_kind = kind\<rparr>)))"

definition ch_sensor_to_row :: "ulid_codec \<Rightarrow> u64 \<Rightarrow> DeviceId \<Rightarrow> Sensor \<Rightarrow> ch_sensor_row" where
  "ch_sensor_to_row uc version i s =
     \<lparr>cn_id = uc_show uc (sensor_ulid (sensor_id s)), cn_kind = sensor_kind_code (sensor_kind s),
      cn_metric_type = fst (disect_metric (sensor_metric s)), cn_metric_value = snd (disect_metric (sensor_metric s)),
      cn_device_id = uc_show uc (device_ulid i), cn_version = version\<rparr>"

definition ch_device_to_row :: "ulid_codec \<Rightarrow> u64 \<Rightarrow> Device \<Rightarrow> ch_device_row" where
  "ch_device_to_row uc version d =
     \<lparr>cv_id = uc_show uc (device_ulid (dev_id d)), cv_kind = device_kind_code (dev_kind d),
      cv_state = device_state_code (dev_state d), cv_location = u64_as_i64 (h3_index (dev_location d)),
      cv_manufacturer = dev_manufacturer d, cv_provisioned_at = as_second (dev_provisioned_at d),
      cv_sensor_count = usize_as_i64 (length (dev_sensors d)), cv_version = version\<rparr>"

definition map_device_row :: "ulid_codec \<Rightarrow> ch_device_row \<Rightarrow> (Device, 'ce ClickHouseError) result" where
  "map_device_row uc r =
     and_then (ch_ulid uc (cv_id r)) (\<lambda>u.
     and_then (if cv_kind r = 0 then Ok DK_Sensor else Err (CH_InvalidDeviceKind (cv_kind r))) (\<lambda>kind.
     and_then (if cv_state r = 0 then Ok Device_Active
               else if cv_state r = 1 then Ok Device_Suspended
               else Err (CH_InvalidDeviceState (cv_state r))) (\<lambda>state.
     and_then (ch_timestamp (cv_provisioned_at r)) (\<lambda>t.
       Ok \<lparr>dev_id = DeviceId u, dev_kind = kind, dev_state = state,
           dev_location = H3Cell (i64_as_u64 (cv_location r)), dev_manufacturer = cv_manufacturer r,
           dev_provisioned_at = t, dev_sensors = []\<rparr>))))"

subsection \<open>Operations\<close>

definition ClickHouseDeviceRegistry_new where
  "ClickHouseDeviceRegistry_new connect clock url database db =
     registry_new connect clock [CREATE_DEVICE_TABLE, CREATE_SENSOR_TABLE] url database db"

text \<open>Without sensors the insert is opened and dropped.\<close>

definition store_sensors ::
    "ulid_codec \<Rightarrow> DeviceId \<Rightarrow> Sensor list \<Rightarrow> ('db, 'ce) ch_registry \<Rightarrow>
     (unit, 'ce ClickHouseError) result \<times> ('db, 'ce) ch_registry" where
  "store_sensors uc i sensors m =
     (let version = version_at m (ch_tick m); m' = m\<lparr>ch_tick := Suc (ch_tick m)\<rparr>
      in if sensors = []
         then (map_sum CH_Client id (cl_insert (ch_client m') ''sensors'' (ch_db m')), m')
         else insert_rows cl_sensors ''sensors'' (map (ch_sensor_to_row uc version i) sensors) m')"

definition fetch_sensors ::
    "ulid_codec \<Rightarrow> DeviceId \<Rightarrow> ('db, 'ce) ch_registry \<Rightarrow> (Sensor list, 'ce ClickHouseError) result" where
  "fetch_sensors uc i m =
     and_then (query_all cl_sensors ''SELECT ?fields FROM sensors FINAL WHERE device_id = ?''
       [uc_show uc (device_ulid i)] m) (try_map (map_sensor_row uc))"

definition chd_register ::
    "ulid_codec \<Rightarrow> Device \<Rightarrow> ('db, 'ce) ch_registry \<Rightarrow> (unit, 'ce ClickHouseError) result \<times> ('db, 'ce) ch_registry" where
  "chd_register uc d m =
     then_do (insert_rows cl_devices ''devices'' [ch_device_to_row uc (version_at m (ch_tick m)) d]
         (m\<lparr>ch_tick := Suc (ch_tick m)\<rparr>))
       (store_sensors uc (dev_id d) (dev_sensors d))"

definition chd_get ::
    "ulid_codec \<Rightarrow> DeviceId \<Rightarrow> ('db, 'ce) ch_registry \<Rightarrow> (Device option, 'ce ClickHouseError) result" where
  "chd_get uc i m =
     and_then (query_optional cl_devices ''SELECT ?fields FROM devices FINAL WHERE id = ?''
       [uc_show uc (device_ulid i)] m) (\<lambda>row.
     case row of
       None \<Rightarrow> Ok None
     | Some r \<Rightarrow>
         and_then (map_device_row uc r) (\<lambda>device.
         and_then (fetch_sensors uc i m) (\<lambda>sensors.
           Ok (Some (device\<lparr>dev_sensors := sensors\<rparr>)))))"

definition chd_update ::
    "ulid_codec \<Rightarrow> DeviceId \<Rightarrow> Device \<Rightarrow> ('db, 'ce) ch_registry \<Rightarrow>
     (unit, 'ce ClickHouseError) result \<times> ('db, 'ce) ch_registry" where
  "chd_update uc i new m =
     (case chd_get uc i m of
        Inl e \<Rightarrow> (Err e, m)
      | Inr None \<Rightarrow> (Err CH_NotFound, m)
      | Inr (Some old) \<Rightarrow> chd_register uc (new\<lparr>dev_id := dev_id old\<rparr>) m)"

definition chd_suspend ::
    "ulid_codec \<Rightarrow> DeviceId \<Rightarrow> ('db, 'ce) ch_registry \<Rightarrow>
     (unit, 'ce ClickHouseError) result \<times> ('db, 'ce) ch_registry" where
  "chd_suspend uc i m =
     (case chd_get uc i m of
        Inl e \<Rightarrow> (Err e, m)
      | Inr None \<Rightarrow> (Err CH_NotFound, m)
      | Inr (Some device) \<Rightarrow> chd_register uc (device\<lparr>dev_state := Device_Suspended\<rparr>) m)"

definition chd_add_sensor where
  "chd_add_sensor uc i s m = store_sensors uc i [s] m"

definition chd_add_sensors where
  "chd_add_sensors uc i sensors m = store_sensors uc i sensors m"

definition chd_batch_register ::
    "ulid_codec \<Rightarrow> Device list \<Rightarrow> ('db, 'ce) ch_registry \<Rightarrow>
     (unit, 'ce ClickHouseError) result \<times> ('db, 'ce) ch_registry" where
  "chd_batch_register uc ds m =
     (if ds = [] then (Ok (), m)
      else
        (let version = version_at m (ch_tick m)
         in then_do (insert_rows cl_devices ''devices'' (map (ch_device_to_row uc version) ds)
                (m\<lparr>ch_tick := Suc (ch_tick m)\<rparr>))
              (try_each (\<lambda>d. store_sensors uc (dev_id d) (dev_sensors d)) ds)))"

subsection \<open>Queries\<close>

definition chd_where_conditions :: "ulid_codec \<Rightarrow> DeviceFilter \<Rightarrow> string list \<times> string list" where
  "chd_where_conditions uc f =
     push_opt (\<lambda>pattern. ''manufacturer LIKE '' @ [CHR 0x27] @ ''%'' @ pattern @ ''%'' @ [CHR 0x27]) (df_manufacturer_pattern f)
    (push_opt (\<lambda>rng. ''sensor_count BETWEEN '' @ int_to_string (usize_as_i64 (fst rng)) @ '' AND '' @
        int_to_string (usize_as_i64 (snd rng))) (df_sensor_count f)
    (push_opt (\<lambda>t. ''provisioned_at <= '' @ int_to_string (as_second t)) (df_provisioned_before f)
    (push_opt (\<lambda>t. ''provisioned_at >= '' @ int_to_string (as_second t)) (df_provisioned_after f)
    (push_in_values ''location'' (\<lambda>l. u64_as_i64 (h3_index l)) (df_locations f)
    (push_in_values ''kind'' device_kind_code (df_kinds f)
    (push_in_values ''state'' device_state_code (df_states f)
    (push_in_bound ''id'' (\<lambda>i. uc_show uc (device_ulid i)) (df_ids f) ([], []))))))))"

definition chd_build_where_clause :: "ulid_codec \<Rightarrow> DeviceFilter \<Rightarrow> string \<times> string list" where
  "chd_build_where_clause uc f =
     (let (conditions, bindings) = chd_where_conditions uc f in (where_text conditions, bindings))"

definition chd_build_count_query :: "ulid_codec \<Rightarrow> DeviceFilter option \<Rightarrow> string \<times> string list" where
  "chd_build_count_query uc f =
     (case f of
        None \<Rightarrow> (''SELECT count() FROM devices FINAL'', [])
      | Some f' \<Rightarrow>
          (let (where_clause, filter_bindings) = chd_build_where_clause uc f'
           in if where_clause \<noteq> [] then (''SELECT count() FROM devices FINAL'' @ where_clause, filter_bindings)
              else (''SELECT count() FROM devices FINAL'', [])))"

fun chd_sort_column :: "DeviceSortBy \<Rightarrow> string" where
  "chd_sort_column DevBy_State = ''state''"
| "chd_sort_column DevBy_Manufacturer = ''manufacturer''"
| "chd_sort_column DevBy_ProvisionAt = ''provisioned_at''"
| "chd_sort_column DevBy_SensorCount = ''sensor_count''"

definition chd_build_list_query ::
    "ulid_codec \<Rightarrow> (DeviceFilter, DeviceSortBy) QueryOptions \<Rightarrow> string \<times> string list" where
  "chd_build_list_query uc options =
     (let (where_clause, bindings) = chd_build_where_clause uc (qo_filter options)
      in (''SELECT ?fields FROM devices FINAL'' @ where_clause @ '' ORDER BY '' @
            chd_sort_column (qo_sort_by options) @ order_text (qo_sort_order options) @
            limit_text (qo_pagination options),
          bindings))"

definition chd_count ::
    "ulid_codec \<Rightarrow> DeviceFilter option \<Rightarrow> ('db, 'ce) ch_registry \<Rightarrow> (nat, 'ce ClickHouseError) result" where
  "chd_count uc f m = query_count (chd_build_count_query uc f) m"

definition chd_list ::
    "ulid_codec \<Rightarrow> (DeviceFilter, DeviceSortBy) QueryOptions \<Rightarrow> ('db, 'ce) ch_registry \<Rightarrow>
     (Device list, 'ce ClickHouseError) result" where
  "chd_list uc options m =
     (let (query, bindings) = chd_build_list_query uc options
      in and_then (query_all cl_devices query bindings m) (\<lambda>rows.
           if rows = [] then Ok []
           else try_map (\<lambda>row.
                  and_then (map_device_row uc row) (\<lambda>device.
                  and_then (fetch_sensors uc (dev_id device) m) (\<lambda>sensors.
                    Ok (device\<lparr>dev_sensors := sensors\<rparr>)))) rows))"

definition clickhouse_devices :: "ulid_codec \<Rightarrow> (('db, 'ce) ch_registry, 'ce ClickHouseError) DeviceRegistry" where
  "clickhouse_devices uc =
     \<lparr>dev_register = chd_register uc, dev_get = chd_get uc, dev_update = chd_update uc,
      dev_suspend = chd_suspend uc, dev_add_sensor = chd_add_sensor uc, dev_add_sensors = chd_add_sensors uc,
      dev_batch_register = chd_batch_register uc, dev_count = chd_count uc, dev_list = chd_list uc\<rparr>"

subsection \<open>Query lemmas\<close>

lemma chd_balanced:
  assumes "pred_option (\<lambda>pattern. CHR ''?'' \<notin> set pattern) (df_manufacturer_pattern f)"
  shows "balanced (chd_where_conditions uc f)"
proof -
  have "placeholders pattern = 0" if "df_manufacturer_pattern f = Some pattern" for pattern
    using assms that by (simp add: placeholders_def count_list_0_iff)
  then show ?thesis
    unfolding chd_where_conditions_def by (intro balanced_opt balanced_in_values balanced_in_bound) simp_all
qed

definition chd_conditions :: "ulid_codec \<Rightarrow> DeviceFilter \<Rightarrow> ch_condition list" where
  "chd_conditions uc f =
     ((((((conditions_in_bound ''id'' (\<lambda>i. uc_show uc (device_ulid i)) (df_ids f) @
     conditions_in_values ''state'' device_state_code (df_states f)) @
     conditions_in_values ''kind'' device_kind_code (df_kinds f)) @
     conditions_in_values ''location'' (\<lambda>l. u64_as_i64 (h3_index l)) (df_locations f)) @
     conditions_opt (\<lambda>t. At_least ''provisioned_at'' (as_second t)) (df_provisioned_after f)) @
     conditions_opt (\<lambda>t. At_most ''provisioned_at'' (as_second t)) (df_provisioned_before f)) @
     conditions_opt (\<lambda>rng. Between ''sensor_count'' (usize_as_i64 (fst rng)) (usize_as_i64 (snd rng))) (df_sensor_count f))"

lemma chd_written:
  assumes "df_manufacturer_pattern f = None"
  shows "written_as (chd_where_conditions uc f) (chd_conditions uc f)"
proof -
  have "written_as (push_in_bound ''id'' (\<lambda>i. uc_show uc (device_ulid i)) (df_ids f) ([], []))
      (conditions_in_bound ''id'' (\<lambda>i. uc_show uc (device_ulid i)) (df_ids f))"
    using written_in_bound [OF written_as_Nil] by fastforce
  then show ?thesis
    unfolding chd_where_conditions_def chd_conditions_def assms
    by (subst push_opt_def, simp only: option.case) (intro written_opt written_in_values; simp)
qed

subsection \<open>What the tables hold\<close>

abbreviation sensor_key :: "ch_sensor_row \<Rightarrow> string \<times> string" where
  "sensor_key r \<equiv> (cn_device_id r, cn_id r)"

text \<open>What the registry relies on: two replacing tables, independent of each other.\<close>

definition device_server ::
    "('db, 'ce) Ch_Client \<Rightarrow> ('db \<Rightarrow> ch_device_row list) \<Rightarrow> ('db \<Rightarrow> ch_sensor_row list) \<Rightarrow> bool" where
  "device_server client devs sens \<longleftrightarrow>
     appends (cl_devices client) ''devices'' devs \<and> keeps (cl_devices client) ''devices'' sens \<and>
     appends (cl_sensors client) ''sensors'' sens \<and> keeps (cl_sensors client) ''sensors'' devs \<and>
     (\<forall>k db. fetch_optional (cl_devices client) ''SELECT ?fields FROM devices FINAL WHERE id = ?'' [k] db =
        Ok (final_row cv_id cv_version (devs db) k)) \<and>
     (\<forall>k db. \<exists>rows. fetch_all (cl_sensors client) ''SELECT ?fields FROM sensors FINAL WHERE device_id = ?'' [k] db = Ok rows \<and>
        mset rows = mset (filter (\<lambda>r. cn_device_id r = k) (final_rows sensor_key cn_version (sens db))))"

definition device_rows_ok :: "ulid_codec \<Rightarrow> u64 \<Rightarrow> ch_device_row list \<Rightarrow> bool" where
  "device_rows_ok uc now rows \<longleftrightarrow>
     (\<forall>r \<in> set rows. cv_version r \<le> now \<and>
        (\<exists>d v. timestamp_valid (dev_provisioned_at d) \<and> r = ch_device_to_row uc v d))"

definition sensor_rows_ok :: "ulid_codec \<Rightarrow> u64 \<Rightarrow> ch_sensor_row list \<Rightarrow> bool" where
  "sensor_rows_ok uc now rows \<longleftrightarrow>
     (\<forall>r \<in> set rows. cn_version r \<le> now \<and> (\<exists>i s v. sensor_valid s \<and> r = ch_sensor_to_row uc v i s))"

definition chd_inv ::
    "ulid_codec \<Rightarrow> ('db \<Rightarrow> ch_device_row list) \<Rightarrow> ('db \<Rightarrow> ch_sensor_row list) \<Rightarrow> ('db, 'ce) ch_registry \<Rightarrow> bool" where
  "chd_inv uc devs sens m \<longleftrightarrow>
     ulid_codec_ok uc \<and> device_server (ch_client m) devs sens \<and> clock_forward m \<and>
     device_rows_ok uc (version_at m (ch_tick m)) (devs (ch_db m)) \<and>
     sensor_rows_ok uc (version_at m (ch_tick m)) (sens (ch_db m))"

lemma map_sensor_row_to_row:
  "ulid_codec_ok uc \<Longrightarrow> sensor_valid s \<Longrightarrow> map_sensor_row uc (ch_sensor_to_row uc v i s) = Ok s"
  by (cases "sensor_kind s")
    (simp_all add: map_sensor_row_def ch_sensor_to_row_def ch_columns sensor_valid_def ch_sensor_kind_def)

definition device_kept :: "Device \<Rightarrow> Device" where
  "device_kept d = d\<lparr>dev_provisioned_at := whole_second (dev_provisioned_at d), dev_sensors := []\<rparr>"

lemma map_device_row_to_row:
  "ulid_codec_ok uc \<Longrightarrow> timestamp_valid (dev_provisioned_at d) \<Longrightarrow>
     map_device_row uc (ch_device_to_row uc v d) = Ok (device_kept d)"
  by (cases "dev_state d"; cases "dev_kind d")
    (simp_all add: map_device_row_def ch_device_to_row_def ch_columns device_kept_def)

text \<open>The sensors of a device in the table.\<close>

definition table_sensors :: "ulid_codec \<Rightarrow> ch_sensor_row list \<Rightarrow> DeviceId \<Rightarrow> Sensor set" where
  "table_sensors uc rows i =
     {s. \<exists>v. sensor_valid s \<and> ch_sensor_to_row uc v i s \<in> set (final_rows sensor_key cn_version rows)}"

lemma device_key_inject: "ulid_codec_ok uc \<Longrightarrow> uc_show uc (device_ulid i) = uc_show uc (device_ulid j) \<longleftrightarrow> i = j"
  by (cases i; cases j) (simp add: uc_show_inject)

lemma sensor_key_inject: "ulid_codec_ok uc \<Longrightarrow> uc_show uc (sensor_ulid i) = uc_show uc (sensor_ulid j) \<longleftrightarrow> i = j"
  by (cases i; cases j) (simp add: uc_show_inject)

lemma ch_sensor_to_row_simps [simp]:
  "cn_device_id (ch_sensor_to_row uc v i s) = uc_show uc (device_ulid i)"
  "cn_id (ch_sensor_to_row uc v i s) = uc_show uc (sensor_ulid (sensor_id s))"
  "cn_version (ch_sensor_to_row uc v i s) = v"
  by (simp_all add: ch_sensor_to_row_def)

lemma set_fetch_sensors:
  assumes "chd_inv uc devs sens m"
  shows "\<exists>ss. fetch_sensors uc i m = Ok ss \<and> set ss = table_sensors uc (sens (ch_db m)) i"
proof -
  have uc: "ulid_codec_ok uc" using assms by (simp add: chd_inv_def)
  let ?k = "uc_show uc (device_ulid i)" and ?final = "final_rows sensor_key cn_version (sens (ch_db m))"
  obtain rows where rows: "query_all cl_sensors ''SELECT ?fields FROM sensors FINAL WHERE device_id = ?'' [?k] m = Ok rows"
      "mset rows = mset (filter (\<lambda>r. cn_device_id r = ?k) ?final)"
    using assms unfolding chd_inv_def device_server_def query_all_def by (metis id_apply map_sum.simps(2))
  have set_rows: "set rows = {r \<in> set ?final. cn_device_id r = ?k}"
    using mset_eq_setD [OF rows(2)] by simp
  have row: "\<exists>s v. sensor_valid s \<and> r = ch_sensor_to_row uc v i s" if "r \<in> set rows" for r
  proof -
    have "r \<in> set (sens (ch_db m))" "cn_device_id r = ?k"
      using that set_rows by (auto simp: set_final_rows dest: final_row_mem)
    with assms obtain j s v where "sensor_valid s" "r = ch_sensor_to_row uc v j s" "cn_device_id r = ?k"
      by (auto simp: chd_inv_def sensor_rows_ok_def)
    then show ?thesis by (auto simp: device_key_inject [OF uc])
  qed
  let ?g = "\<lambda>r. projr (map_sensor_row uc r :: (Sensor, 'b ClickHouseError) result)"
  have dec: "map_sensor_row uc r = (Ok (?g r) :: (Sensor, 'b ClickHouseError) result)" if "r \<in> set rows" for r
    using row [OF that] map_sensor_row_to_row [OF uc, where 'a = 'b] by auto
  have "fetch_sensors uc i m = Ok (map ?g rows)"
    using rows(1) try_map_Ok [OF dec] by (simp add: fetch_sensors_def)
  moreover have "?g ` set rows = table_sensors uc (sens (ch_db m)) i"
  proof (intro set_eqI iffI)
    fix s assume "s \<in> ?g ` set rows"
    then obtain r where r: "r \<in> set rows" "s = ?g r" by blast
    obtain s' v where "sensor_valid s'" "r = ch_sensor_to_row uc v i s'" using row [OF r(1)] by blast
    with r set_rows show "s \<in> table_sensors uc (sens (ch_db m)) i"
      by (auto simp: table_sensors_def map_sensor_row_to_row [OF uc])
  next
    fix s assume "s \<in> table_sensors uc (sens (ch_db m)) i"
    then obtain v where "sensor_valid s" "ch_sensor_to_row uc v i s \<in> set rows"
      by (auto simp: table_sensors_def set_rows)
    then show "s \<in> ?g ` set rows"
      using map_sensor_row_to_row [OF uc, of s v i, where 'a = 'b] by (metis image_eqI sum.sel(2))
  qed
  ultimately show ?thesis by (metis set_map)
qed

lemma table_sensors_append:
  assumes "ulid_codec_ok uc" and "sensor_rows_ok uc v rows" and "list_all sensor_valid ss" and "distinct (map sensor_id ss)"
  shows "table_sensors uc (rows @ map (ch_sensor_to_row uc v i) ss) k =
    (if k = i then set ss \<union> {s \<in> table_sensors uc rows k. sensor_id s \<notin> sensor_id ` set ss}
     else table_sensors uc rows k)"
proof -
  let ?new = "map (ch_sensor_to_row uc v i) ss"
  have "inj_on (\<lambda>s. uc_show uc (sensor_ulid (sensor_id s))) (set ss)"
    using assms(4) by (auto simp: distinct_map inj_on_def sensor_key_inject [OF assms(1)])
  then have "distinct (map sensor_key ?new)"
    using assms(4) by (auto simp: distinct_map inj_on_def comp_def)
  with assms(2) have final: "set (final_rows sensor_key cn_version (rows @ ?new)) =
      set ?new \<union> {r \<in> set (final_rows sensor_key cn_version rows). sensor_key r \<notin> sensor_key ` set ?new}"
    by (intro set_final_rows_append [where v = v]) (auto simp: sensor_rows_ok_def)
  have new: "sensor_key (ch_sensor_to_row uc w k s) \<in> sensor_key ` set ?new \<longleftrightarrow> k = i \<and> sensor_id s \<in> sensor_id ` set ss"
    for w s by (auto simp: image_iff device_key_inject [OF assms(1)] sensor_key_inject [OF assms(1)])
  have row: "ch_sensor_to_row uc w k s \<in> set ?new \<longleftrightarrow> k = i \<and> w = v \<and> s \<in> set ss" if "sensor_valid s" for w s
  proof
    assume "ch_sensor_to_row uc w k s \<in> set ?new"
    then obtain s' where s': "s' \<in> set ss" "ch_sensor_to_row uc w k s = ch_sensor_to_row uc v i s'" by auto
    moreover have "sensor_valid s'" using s'(1) assms(3) by (simp add: list_all_iff)
    ultimately have "s = s'"
      using map_sensor_row_to_row [OF assms(1) that, of w k, where 'a = unit]
        map_sensor_row_to_row [OF assms(1), of s' v i, where 'a = unit] by simp
    moreover have "k = i" "w = v"
      using arg_cong [OF s'(2), of cn_device_id] arg_cong [OF s'(2), of cn_version]
      by (simp_all add: device_key_inject [OF assms(1)])
    ultimately show "k = i \<and> w = v \<and> s \<in> set ss" using s'(1) by simp
  qed auto
  show ?thesis
  proof (intro set_eqI)
    fix s
    have "s \<in> table_sensors uc (rows @ ?new) k \<longleftrightarrow> sensor_valid s \<and>
        (k = i \<and> s \<in> set ss \<or> s \<in> table_sensors uc rows k \<and> \<not> (k = i \<and> sensor_id s \<in> sensor_id ` set ss))"
      unfolding table_sensors_def final mem_Collect_eq Un_iff using row new by blast
    moreover have "sensor_valid s" if "s \<in> set ss \<or> s \<in> table_sensors uc rows k"
      using that assms(3) by (auto simp: list_all_iff table_sensors_def)
    ultimately show "s \<in> table_sensors uc (rows @ ?new) k \<longleftrightarrow> s \<in>
        (if k = i then set ss \<union> {s \<in> table_sensors uc rows k. sensor_id s \<notin> sensor_id ` set ss}
         else table_sensors uc rows k)" by auto
  qed
qed

subsection \<open>Effect of an operation\<close>

lemma store_sensors_simps [simp]:
  "ch_client (snd (store_sensors uc i ss m)) = ch_client m"
  "version_at (snd (store_sensors uc i ss m)) = version_at m"
  "ch_tick (snd (store_sensors uc i ss m)) = Suc (ch_tick m)"
  by (simp_all add: store_sensors_def Let_def)

lemma store_sensors_rows:
  assumes "device_server (ch_client m) devs sens"
  shows "devs (ch_db (snd (store_sensors uc i ss m))) = devs (ch_db m)"
    and "sens (ch_db (snd (store_sensors uc i ss m))) =
      (case fst (store_sensors uc i ss m) of
         Inl _ \<Rightarrow> sens (ch_db m)
       | Inr _ \<Rightarrow> sens (ch_db m) @ map (ch_sensor_to_row uc (version_at m (ch_tick m)) i) ss)"
  using assms insert_rows_appends [of cl_sensors "m\<lparr>ch_tick := Suc (ch_tick m)\<rparr>" "''sensors''" sens]
    insert_rows_keeps [of cl_sensors "m\<lparr>ch_tick := Suc (ch_tick m)\<rparr>" "''sensors''" devs]
  by (simp_all add: store_sensors_def Let_def device_server_def split: sum.split)

lemma insert_device_rows:
  assumes "device_server (ch_client m) devs sens"
  shows "sens (ch_db (snd (insert_rows cl_devices ''devices'' rs (m\<lparr>ch_tick := n\<rparr>)))) = sens (ch_db m)"
    and "devs (ch_db (snd (insert_rows cl_devices ''devices'' rs (m\<lparr>ch_tick := n\<rparr>)))) =
      (case fst (insert_rows cl_devices ''devices'' rs (m\<lparr>ch_tick := n\<rparr>)) of
         Inl _ \<Rightarrow> devs (ch_db m)
       | Inr _ \<Rightarrow> devs (ch_db m) @ rs)"
  using assms insert_rows_appends [of cl_devices "m\<lparr>ch_tick := n\<rparr>" "''devices''" devs]
    insert_rows_keeps [of cl_devices "m\<lparr>ch_tick := n\<rparr>" "''devices''" sens]
  by (simp_all add: device_server_def split: sum.split)

lemma device_rows_ok_mono: "device_rows_ok uc v rows \<Longrightarrow> v \<le> w \<Longrightarrow> device_rows_ok uc w rows"
  by (fastforce simp: device_rows_ok_def)

lemma sensor_rows_ok_mono: "sensor_rows_ok uc v rows \<Longrightarrow> v \<le> w \<Longrightarrow> sensor_rows_ok uc w rows"
  by (fastforce simp: sensor_rows_ok_def)

lemma device_rows_ok_snoc:
  "device_rows_ok uc v rows \<Longrightarrow> timestamp_valid (dev_provisioned_at d) \<Longrightarrow>
     device_rows_ok uc v (rows @ [ch_device_to_row uc v d])"
  by (auto simp: device_rows_ok_def) (simp add: ch_device_to_row_def)

lemma sensor_rows_ok_append:
  "sensor_rows_ok uc v rows \<Longrightarrow> list_all sensor_valid ss \<Longrightarrow>
     sensor_rows_ok uc v (rows @ map (ch_sensor_to_row uc v i) ss)"
  by (auto simp: sensor_rows_ok_def list_all_iff)

lemma chd_inv_advance:
  assumes "chd_inv uc devs sens m" and "ch_client m' = ch_client m" and "version_at m' = version_at m"
    and "ch_tick m' = Suc (ch_tick m)"
    and "device_rows_ok uc (version_at m (ch_tick m)) (devs (ch_db m'))"
    and "sensor_rows_ok uc (version_at m (ch_tick m)) (sens (ch_db m'))"
  shows "chd_inv uc devs sens m'"
proof -
  have "version_at m (ch_tick m) \<le> version_at m (Suc (ch_tick m))"
    using assms(1) by (simp add: chd_inv_def clock_forward_Suc)
  from device_rows_ok_mono [OF assms(5) this] sensor_rows_ok_mono [OF assms(6) this] assms(1-4)
    clock_forward_cong [OF assms(3)]
  show ?thesis by (simp add: chd_inv_def)
qed

lemma chd_inv_store_sensors:
  assumes "chd_inv uc devs sens m" and "list_all sensor_valid ss"
  shows "chd_inv uc devs sens (snd (store_sensors uc i ss m))"
proof -
  have srv: "device_server (ch_client m) devs sens" using assms(1) by (simp add: chd_inv_def)
  have "sensor_rows_ok uc (version_at m (ch_tick m)) (sens (ch_db (snd (store_sensors uc i ss m))))"
    using assms sensor_rows_ok_append [of uc "version_at m (ch_tick m)" "sens (ch_db m)" ss i]
    by (simp add: store_sensors_rows [OF srv] chd_inv_def split: sum.split)
  moreover have "device_rows_ok uc (version_at m (ch_tick m)) (devs (ch_db m))"
    using assms(1) by (simp add: chd_inv_def)
  ultimately show ?thesis
    by (intro chd_inv_advance [OF assms(1)]) (simp_all add: store_sensors_rows(1) [OF srv])
qed

lemma chd_inv_insert_device:
  assumes "chd_inv uc devs sens m" and "timestamp_valid (dev_provisioned_at d)"
  shows "chd_inv uc devs sens (snd (insert_rows cl_devices ''devices''
    [ch_device_to_row uc (version_at m (ch_tick m)) d] (m\<lparr>ch_tick := Suc (ch_tick m)\<rparr>)))"
proof -
  let ?ins = "insert_rows cl_devices ''devices'' [ch_device_to_row uc (version_at m (ch_tick m)) d]
      (m\<lparr>ch_tick := Suc (ch_tick m)\<rparr>)"
  have srv: "device_server (ch_client m) devs sens" using assms(1) by (simp add: chd_inv_def)
  have "device_rows_ok uc (version_at m (ch_tick m)) (devs (ch_db m) @ [ch_device_to_row uc (version_at m (ch_tick m)) d])"
    using assms by (simp add: chd_inv_def device_rows_ok_snoc)
  moreover have "device_rows_ok uc (version_at m (ch_tick m)) (devs (ch_db m))"
      "sensor_rows_ok uc (version_at m (ch_tick m)) (sens (ch_db m))"
    using assms(1) by (simp_all add: chd_inv_def)
  ultimately have "device_rows_ok uc (version_at m (ch_tick m)) (devs (ch_db (snd ?ins)))"
      "sensor_rows_ok uc (version_at m (ch_tick m)) (sens (ch_db (snd ?ins)))"
    unfolding insert_device_rows [OF srv] by (simp_all split: sum.split)
  then show ?thesis
    by (intro chd_inv_advance [OF assms(1), of "snd ?ins"]) simp_all
qed

text \<open>What lookups show of a device apart from its sensors, and its sensors.\<close>

definition ch_attributes :: "ulid_codec \<Rightarrow> DeviceId \<Rightarrow> ('db, 'ce) ch_registry \<Rightarrow> Device option" where
  "ch_attributes uc i m =
     (case chd_get uc i m of Inl _ \<Rightarrow> None | Inr d \<Rightarrow> map_option (\<lambda>d. d\<lparr>dev_sensors := []\<rparr>) d)"

definition ch_sensors :: "ulid_codec \<Rightarrow> DeviceId \<Rightarrow> ('db, 'ce) ch_registry \<Rightarrow> Sensor set" where
  "ch_sensors uc i m = (case fetch_sensors uc i m of Inl _ \<Rightarrow> {} | Inr ss \<Rightarrow> set ss)"

lemma ch_sensors_table: "chd_inv uc devs sens m \<Longrightarrow> ch_sensors uc i m = table_sensors uc (sens (ch_db m)) i"
  unfolding ch_sensors_def using set_fetch_sensors [of uc devs sens m i] by (metis sum.case(2))

lemma chd_get_final:
  assumes "chd_inv uc devs sens m"
  shows "\<exists>ss. set ss = ch_sensors uc i m \<and> chd_get uc i m =
       (case final_row cv_id cv_version (devs (ch_db m)) (uc_show uc (device_ulid i)) of
          None \<Rightarrow> Ok None
        | Some r \<Rightarrow> and_then (map_device_row uc r) (\<lambda>d. Ok (Some (d\<lparr>dev_sensors := ss\<rparr>))))"
proof -
  obtain ss where "fetch_sensors uc i m = Ok ss" using set_fetch_sensors [OF assms] by blast
  then show ?thesis
    using assms by (intro exI [of _ ss])
      (simp add: ch_sensors_def chd_get_def query_optional_def chd_inv_def device_server_def split: option.split)
qed

lemma ch_attributes_final:
  fixes m :: "('db, 'ce) ch_registry"
  assumes "chd_inv uc devs sens m"
  shows "ch_attributes uc i m =
    (case final_row cv_id cv_version (devs (ch_db m)) (uc_show uc (device_ulid i)) of
       None \<Rightarrow> None
     | Some r \<Rightarrow> (case map_device_row uc r :: (Device, 'ce ClickHouseError) result of Inl _ \<Rightarrow> None | Inr d \<Rightarrow> Some (d\<lparr>dev_sensors := []\<rparr>)))"
proof -
  obtain ss where "chd_get uc i m =
       (case final_row cv_id cv_version (devs (ch_db m)) (uc_show uc (device_ulid i)) of
          None \<Rightarrow> Ok None
        | Some r \<Rightarrow> and_then (map_device_row uc r) (\<lambda>d. Ok (Some (d\<lparr>dev_sensors := ss\<rparr>))))"
    using chd_get_final [OF assms] by blast
  then show ?thesis
    by (simp add: ch_attributes_def and_then_def split: option.split sum.split)
qed

lemma ch_attributes_cong:
  fixes m m' :: "('db, 'ce) ch_registry"
  assumes "chd_inv uc devs sens m" and "chd_inv uc devs sens m'" and "devs (ch_db m') = devs (ch_db m)"
  shows "ch_attributes uc i m' = ch_attributes uc i m"
  using assms by (simp add: ch_attributes_final)

lemma ch_attributes_insert:
  fixes m m' :: "('db, 'ce) ch_registry"
  assumes "chd_inv uc devs sens m" and "chd_inv uc devs sens m'" and "timestamp_valid (dev_provisioned_at d)"
    and "devs (ch_db m') = devs (ch_db m) @ [ch_device_to_row uc (version_at m (ch_tick m)) d]"
  shows "ch_attributes uc k m' = (if k = dev_id d then Some (device_kept d) else ch_attributes uc k m)"
proof -
  have uc: "ulid_codec_ok uc" using assms(1) by (simp add: chd_inv_def)
  let ?r = "ch_device_to_row uc (version_at m (ch_tick m)) d"
  have key: "cv_id ?r = uc_show uc (device_ulid k) \<longleftrightarrow> k = dev_id d"
    using device_key_inject [OF uc, of "dev_id d" k] by (auto simp: ch_device_to_row_def)
  have "final_row cv_id cv_version (devs (ch_db m')) (uc_show uc (device_ulid k)) =
      (if k = dev_id d then Some ?r else final_row cv_id cv_version (devs (ch_db m)) (uc_show uc (device_ulid k)))"
    unfolding assms(4) using assms(1)
    by (subst final_row_newest) (simp_all add: key chd_inv_def device_rows_ok_def, simp add: ch_device_to_row_def)
  moreover have "(device_kept d)\<lparr>dev_sensors := []\<rparr> = device_kept d" by (simp add: device_kept_def)
  ultimately show ?thesis
    using map_device_row_to_row [OF uc assms(3), of "version_at m (ch_tick m)", where 'a = 'ce]
    by (simp add: ch_attributes_final [OF assms(2)] ch_attributes_final [OF assms(1)])
qed

text \<open>Registration, in all its outcomes.\<close>

lemma chd_register_spec:
  assumes "chd_inv uc devs sens m" and "device_valid d"
  shows "chd_inv uc devs sens (snd (chd_register uc d m)) \<and>
    (case chd_register uc d m of
       (Inl e, m') \<Rightarrow>
         (\<forall>k. ch_sensors uc k m' = ch_sensors uc k m) \<and>
         ((\<forall>k. ch_attributes uc k m' = ch_attributes uc k m) \<or>
          (\<forall>k. ch_attributes uc k m' = (if k = dev_id d then Some (device_kept d) else ch_attributes uc k m)))
     | (Inr _, m') \<Rightarrow>
         (\<forall>k. ch_attributes uc k m' = (if k = dev_id d then Some (device_kept d) else ch_attributes uc k m)) \<and>
         (\<forall>k. ch_sensors uc k m' =
            (if k = dev_id d
             then set (dev_sensors d) \<union> {s \<in> ch_sensors uc k m. sensor_id s \<notin> sensor_id ` set (dev_sensors d)}
             else ch_sensors uc k m)))"
proof -
  have srv: "device_server (ch_client m) devs sens" using assms(1) by (simp add: chd_inv_def)
  have valid: "timestamp_valid (dev_provisioned_at d)" "list_all sensor_valid (dev_sensors d)" "distinct (map sensor_id (dev_sensors d))"
    using assms(2) by (simp_all add: device_valid_def)
  let ?ins = "insert_rows cl_devices ''devices'' [ch_device_to_row uc (version_at m (ch_tick m)) d]
      (m\<lparr>ch_tick := Suc (ch_tick m)\<rparr>)"
  define m1 where "m1 = snd ?ins"
  define m2 where "m2 = snd (store_sensors uc (dev_id d) (dev_sensors d) m1)"
  have inv1: "chd_inv uc devs sens m1" unfolding m1_def by (rule chd_inv_insert_device [OF assms(1) valid(1)])
  have srv1: "device_server (ch_client m1) devs sens" using inv1 by (simp add: chd_inv_def)
  have inv2: "chd_inv uc devs sens m2" unfolding m2_def by (rule chd_inv_store_sensors [OF inv1 valid(2)])
  have s1: "ch_sensors uc k m1 = ch_sensors uc k m" for k
    using ch_sensors_table [OF inv1] ch_sensors_table [OF assms(1)] insert_device_rows(1) [OF srv]
    by (simp add: m1_def)
  have a2: "ch_attributes uc k m2 = ch_attributes uc k m1" for k
    using store_sensors_rows(1) [OF srv1] by (intro ch_attributes_cong [OF inv1 inv2]) (simp add: m2_def)
  show ?thesis
  proof (cases "fst ?ins")
    case (Inl e)
    then have reg: "chd_register uc d m = (Err e, m1)"
      by (cases ?ins) (simp add: chd_register_def then_do_def m1_def)
    have "ch_attributes uc k m1 = ch_attributes uc k m" for k
      using insert_device_rows(2) [OF srv] Inl by (intro ch_attributes_cong [OF assms(1) inv1]) (simp add: m1_def)
    with reg inv1 s1 show ?thesis by simp
  next
    case (Inr u)
    then have reg: "chd_register uc d m = (fst (store_sensors uc (dev_id d) (dev_sensors d) m1), m2)"
      by (cases ?ins) (simp add: chd_register_def then_do_def m1_def m2_def)
    have a1: "ch_attributes uc k m1 = (if k = dev_id d then Some (device_kept d) else ch_attributes uc k m)" for k
      using insert_device_rows(2) [OF srv] Inr
      by (intro ch_attributes_insert [OF assms(1) inv1 valid(1)]) (simp add: m1_def)
    show ?thesis
    proof (cases "fst (store_sensors uc (dev_id d) (dev_sensors d) m1)")
      case (Inl e)
      then have "ch_sensors uc k m2 = ch_sensors uc k m1" for k
        using ch_sensors_table [OF inv2] ch_sensors_table [OF inv1] store_sensors_rows(2) [OF srv1] by (simp add: m2_def)
      with reg Inl inv2 s1 a1 a2 show ?thesis by simp
    next
      case (Inr u')
      then have "sens (ch_db m2) =
          sens (ch_db m1) @ map (ch_sensor_to_row uc (version_at m1 (ch_tick m1)) (dev_id d)) (dev_sensors d)"
        using store_sensors_rows(2) [OF srv1] by (simp add: m2_def)
      then have "ch_sensors uc k m2 = (if k = dev_id d
             then set (dev_sensors d) \<union> {s \<in> ch_sensors uc k m1. sensor_id s \<notin> sensor_id ` set (dev_sensors d)}
             else ch_sensors uc k m1)" for k
        using ch_sensors_table [OF inv2] ch_sensors_table [OF inv1] inv1 valid(2,3)
        by (simp add: table_sensors_append chd_inv_def)
      with reg Inr inv2 s1 a1 a2 show ?thesis by simp
    qed
  qed
qed

end
