(* ===== verification/Prime_Ch_Reading.thy ===== *)
theory Prime_Ch_Reading
  imports Prime_Ch_Device
begin

text \<open>
  The ClickHouse reading registry of prime (\<open>ersha-prime/src/registry/clickhouse/reading.rs\<close>): a plain
  \<open>MergeTree\<close>, partitioned by month, that keeps every row it is given.
\<close>

definition CREATE_READINGS :: string where
  "CREATE_READINGS = raw_lines
     [''CREATE TABLE IF NOT EXISTS sensor_readings ('', ''    id String,'', ''    device_id String,'',
      ''    dispatcher_id String,'', ''    sensor_id String,'', ''    metric_type Int32,'',
      ''    metric_value Float64,'', ''    location Int64,'', ''    confidence Int32,'', ''    timestamp Int64'',
      '') ENGINE = MergeTree()'', ''PARTITION BY toYYYYMM(toDateTime(timestamp))'',
      ''ORDER BY (device_id, sensor_id, timestamp)'']"

definition ch_reading_of_row :: "ulid_codec \<Rightarrow> ch_reading_row \<Rightarrow> (SensorReading, 'ce ClickHouseError) result" where
  "ch_reading_of_row uc r =
     and_then (ch_ulid uc (cr_id r)) (\<lambda>i.
     and_then (ch_ulid uc (cr_device_id r)) (\<lambda>device_id.
     and_then (ch_ulid uc (cr_dispatcher_id r)) (\<lambda>dispatcher_id.
     and_then (ch_ulid uc (cr_sensor_id r)) (\<lambda>sensor_id.
     and_then (ch_metric (cr_metric_type r) (cr_metric_value r)) (\<lambda>metric.
     and_then (ch_timestamp (cr_timestamp r)) (\<lambda>ts.
       Ok \<lparr>rd_id = ReadingId i, rd_device_id = DeviceId device_id, rd_dispatcher_id = DispatcherId dispatcher_id,
           rd_metric = metric, rd_location = H3Cell (i64_as_u64 (cr_location r)),
           rd_confidence = Percentage (word_of_int (cr_confidence r)), rd_timestamp = ts,
           rd_sensor_id = SensorId sensor_id\<rparr>))))))"

definition ch_reading_to_row :: "ulid_codec \<Rightarrow> SensorReading \<Rightarrow> ch_reading_row" where
  "ch_reading_to_row uc r =
     \<lparr>cr_id = uc_show uc (reading_ulid (rd_id r)),
      cr_device_id = uc_show uc (device_ulid (rd_device_id r)),
      cr_dispatcher_id = uc_show uc (dispatcher_ulid (rd_dispatcher_id r)),
      cr_sensor_id = uc_show uc (sensor_ulid (rd_sensor_id r)),
      cr_metric_type = fst (disect_metric (rd_metric r)), cr_metric_value = snd (disect_metric (rd_metric r)),
      cr_location = u64_as_i64 (h3_index (rd_location r)),
      cr_confidence = uint (percent (rd_confidence r)), cr_timestamp = as_second (rd_timestamp r)\<rparr>"

definition ClickHouseReadingRegistry_new where
  "ClickHouseReadingRegistry_new connect clock url database db =
     registry_new connect clock [CREATE_READINGS] url database db"

definition chr_store ::
    "ulid_codec \<Rightarrow> SensorReading \<Rightarrow> ('db, 'ce) ch_registry \<Rightarrow>
     (unit, 'ce ClickHouseError) result \<times> ('db, 'ce) ch_registry" where
  "chr_store uc r m = insert_rows cl_readings ''sensor_readings'' [ch_reading_to_row uc r] m"

definition chr_get ::
    "ulid_codec \<Rightarrow> ReadingId \<Rightarrow> ('db, 'ce) ch_registry \<Rightarrow> (SensorReading option, 'ce ClickHouseError) result" where
  "chr_get uc i m =
     and_then (query_optional cl_readings ''SELECT ?fields FROM sensor_readings WHERE id = ?''
       [uc_show uc (reading_ulid i)] m) (\<lambda>row.
     case row of
       None \<Rightarrow> Ok None
     | Some r \<Rightarrow> and_then (ch_reading_of_row uc r) (\<lambda>d. Ok (Some d)))"

definition chr_batch_store ::
    "ulid_codec \<Rightarrow> SensorReading list \<Rightarrow> ('db, 'ce) ch_registry \<Rightarrow>
     (unit, 'ce ClickHouseError) result \<times> ('db, 'ce) ch_registry" where
  "chr_batch_store uc rs m =
     (if rs = [] then (Ok (), m)
      else insert_rows cl_readings ''sensor_readings'' (map (ch_reading_to_row uc) rs) m)"

subsection \<open>Queries\<close>

definition chr_where_conditions :: "ulid_codec \<Rightarrow> ReadingFilter \<Rightarrow> string list \<times> string list" where
  "chr_where_conditions uc f =
     push_opt (\<lambda>rng. ''confidence BETWEEN '' @ int_to_string (uint (fst rng)) @ '' AND '' @
        int_to_string (uint (snd rng))) (rf_confidence_range f)
    (push_opt (\<lambda>t. ''timestamp <= '' @ int_to_string (as_second t)) (rf_timestamp_before f)
    (push_opt (\<lambda>t. ''timestamp >= '' @ int_to_string (as_second t)) (rf_timestamp_after f)
    (push_in_values ''location'' (\<lambda>l. u64_as_i64 (h3_index l)) (rf_locations f)
    (push_in_values ''metric_type'' metric_type_code (rf_metric_types f)
    (push_in_bound ''dispatcher_id'' (\<lambda>i. uc_show uc (dispatcher_ulid i)) (rf_dispatcher_ids f)
    (push_in_bound ''sensor_id'' (\<lambda>i. uc_show uc (sensor_ulid i)) (rf_sensor_ids f)
    (push_in_bound ''device_id'' (\<lambda>i. uc_show uc (device_ulid i)) (rf_device_ids f)
    (push_in_bound ''id'' (\<lambda>i. uc_show uc (reading_ulid i)) (rf_ids f) ([], [])))))))))"

definition chr_build_where_clause :: "ulid_codec \<Rightarrow> ReadingFilter \<Rightarrow> string \<times> string list" where
  "chr_build_where_clause uc f =
     (let (conditions, bindings) = chr_where_conditions uc f in (where_text conditions, bindings))"

definition chr_build_count_query :: "ulid_codec \<Rightarrow> ReadingFilter option \<Rightarrow> string \<times> string list" where
  "chr_build_count_query uc f =
     (case f of
        None \<Rightarrow> (''SELECT count() FROM sensor_readings'', [])
      | Some f' \<Rightarrow>
          (let (where_clause, filter_bindings) = chr_build_where_clause uc f'
           in if where_clause \<noteq> [] then (''SELECT count() FROM sensor_readings'' @ where_clause, filter_bindings)
              else (''SELECT count() FROM sensor_readings'', [])))"

fun chr_sort_column :: "ReadingSortBy \<Rightarrow> string" where
  "chr_sort_column ReadBy_Timestamp = ''timestamp''"
| "chr_sort_column ReadBy_Confidence = ''confidence''"
| "chr_sort_column ReadBy_DeviceId = ''device_id''"

definition chr_build_list_query ::
    "ulid_codec \<Rightarrow> (ReadingFilter, ReadingSortBy) QueryOptions \<Rightarrow> string \<times> string list" where
  "chr_build_list_query uc options =
     (let (where_clause, bindings) = chr_build_where_clause uc (qo_filter options)
      in (''SELECT ?fields FROM sensor_readings'' @ where_clause @ '' ORDER BY '' @
            chr_sort_column (qo_sort_by options) @ order_text (qo_sort_order options) @
            limit_text (qo_pagination options),
          bindings))"

definition chr_count ::
    "ulid_codec \<Rightarrow> ReadingFilter option \<Rightarrow> ('db, 'ce) ch_registry \<Rightarrow> (nat, 'ce ClickHouseError) result" where
  "chr_count uc f m = query_count (chr_build_count_query uc f) m"

definition chr_list ::
    "ulid_codec \<Rightarrow> (ReadingFilter, ReadingSortBy) QueryOptions \<Rightarrow> ('db, 'ce) ch_registry \<Rightarrow>
     (SensorReading list, 'ce ClickHouseError) result" where
  "chr_list uc options m =
     (let (query, bindings) = chr_build_list_query uc options
      in and_then (query_all cl_readings query bindings m) (try_map (ch_reading_of_row uc)))"

definition clickhouse_readings :: "ulid_codec \<Rightarrow> (('db, 'ce) ch_registry, 'ce ClickHouseError) ReadingRegistry" where
  "clickhouse_readings uc =
     \<lparr>read_store = chr_store uc, read_get = chr_get uc, read_batch_store = chr_batch_store uc,
      read_count = chr_count uc, read_list = chr_list uc\<rparr>"

subsection \<open>Query lemmas\<close>

lemma chr_balanced: "balanced (chr_where_conditions uc f)"
  unfolding chr_where_conditions_def by (intro balanced_opt balanced_in_values balanced_in_bound) simp_all

definition chr_conditions :: "ulid_codec \<Rightarrow> ReadingFilter \<Rightarrow> ch_condition list" where
  "chr_conditions uc f =
     ((((((((conditions_in_bound ''id'' (\<lambda>i. uc_show uc (reading_ulid i)) (rf_ids f) @
     conditions_in_bound ''device_id'' (\<lambda>i. uc_show uc (device_ulid i)) (rf_device_ids f)) @
     conditions_in_bound ''sensor_id'' (\<lambda>i. uc_show uc (sensor_ulid i)) (rf_sensor_ids f)) @
     conditions_in_bound ''dispatcher_id'' (\<lambda>i. uc_show uc (dispatcher_ulid i)) (rf_dispatcher_ids f)) @
     conditions_in_values ''metric_type'' metric_type_code (rf_metric_types f)) @
     conditions_in_values ''location'' (\<lambda>l. u64_as_i64 (h3_index l)) (rf_locations f)) @
     conditions_opt (\<lambda>t. At_least ''timestamp'' (as_second t)) (rf_timestamp_after f)) @
     conditions_opt (\<lambda>t. At_most ''timestamp'' (as_second t)) (rf_timestamp_before f)) @
     conditions_opt (\<lambda>rng. Between ''confidence'' (uint (fst rng)) (uint (snd rng))) (rf_confidence_range f))"

lemma chr_written: "written_as (chr_where_conditions uc f) (chr_conditions uc f)"
proof -
  have "written_as (push_in_bound ''id'' (\<lambda>i. uc_show uc (reading_ulid i)) (rf_ids f) ([], []))
      (conditions_in_bound ''id'' (\<lambda>i. uc_show uc (reading_ulid i)) (rf_ids f))"
    using written_in_bound [OF written_as_Nil] by fastforce
  then show ?thesis
    unfolding chr_where_conditions_def chr_conditions_def
    by (intro written_opt written_in_values written_in_bound; simp)
qed

text \<open>The columns of a row, by name.\<close>

definition reading_columns :: "ch_reading_row \<Rightarrow> string \<Rightarrow> ch_value" where
  "reading_columns r column =
     (if column = ''id'' then V_Str (cr_id r)
      else if column = ''device_id'' then V_Str (cr_device_id r)
      else if column = ''dispatcher_id'' then V_Str (cr_dispatcher_id r)
      else if column = ''sensor_id'' then V_Str (cr_sensor_id r)
      else if column = ''metric_type'' then V_Int (cr_metric_type r)
      else if column = ''location'' then V_Int (cr_location r)
      else if column = ''confidence'' then V_Int (cr_confidence r)
      else if column = ''timestamp'' then V_Int (cr_timestamp r)
      else V_Null)"

lemma reading_columns_simps [simp]:
  "reading_columns r ''id'' = V_Str (cr_id r)" "reading_columns r ''device_id'' = V_Str (cr_device_id r)"
  "reading_columns r ''dispatcher_id'' = V_Str (cr_dispatcher_id r)"
  "reading_columns r ''sensor_id'' = V_Str (cr_sensor_id r)"
  "reading_columns r ''metric_type'' = V_Int (cr_metric_type r)" "reading_columns r ''location'' = V_Int (cr_location r)"
  "reading_columns r ''confidence'' = V_Int (cr_confidence r)" "reading_columns r ''timestamp'' = V_Int (cr_timestamp r)"
  by (simp_all add: reading_columns_def)

lemma chr_conditions_meaning:
  "list_all (holds (reading_columns (ch_reading_to_row uc r))) (chr_conditions uc f) =
   reading_where uc f (reading_to_row uc r)"
proof -
  let ?row = "ch_reading_to_row uc r"
  note win = holds_window [of "reading_columns ?row" "''timestamp''"]
  show ?thesis
    using win [of "cr_timestamp ?row" "rf_timestamp_after f" "rf_timestamp_before f"]
    by (simp add: chr_conditions_def reading_where_def conj_ac)
      (simp add: ch_reading_to_row_def reading_to_row_def conj_ac)
qed

subsection \<open>What the table holds\<close>

text \<open>
  What the registry relies on: a successful insert adds its rows and a failed one adds some of them (it
  is atomic in every partition only); a lookup returns some row with the identifier; \<open>count()\<close> counts rows.
\<close>

definition reading_server :: "('db, 'ce) Ch_Client \<Rightarrow> ('db \<Rightarrow> ch_reading_row multiset) \<Rightarrow> bool" where
  "reading_server client rows \<longleftrightarrow>
     (\<forall>rs db. case insert_end (cl_readings client) ''sensor_readings'' rs db of
        (Inl _, db') \<Rightarrow> rows db \<subseteq># rows db' \<and> rows db' \<subseteq># rows db + mset rs
      | (Inr _, db') \<Rightarrow> rows db' = rows db + mset rs) \<and>
     (\<forall>k db. \<exists>row. fetch_optional (cl_readings client) ''SELECT ?fields FROM sensor_readings WHERE id = ?'' [k] db = Ok row \<and>
        (case row of None \<Rightarrow> k \<notin> cr_id ` set_mset (rows db) | Some r \<Rightarrow> r \<in># rows db \<and> cr_id r = k)) \<and>
     (\<forall>db. cl_fetch_one client ''SELECT count() FROM sensor_readings'' [] db = Ok (of_nat (size (rows db))))"

definition chr_inv :: "ulid_codec \<Rightarrow> ('db \<Rightarrow> ch_reading_row multiset) \<Rightarrow> ('db, 'ce) ch_registry \<Rightarrow> bool" where
  "chr_inv uc rows m \<longleftrightarrow>
     ulid_codec_ok uc \<and> reading_server (ch_client m) rows \<and>
     (\<forall>row \<in># rows (ch_db m). \<exists>r. reading_valid r \<and> row = ch_reading_to_row uc r)"

lemma cr_id_to_row: "cr_id (ch_reading_to_row uc r) = uc_show uc (reading_ulid (rd_id r))"
  by (simp add: ch_reading_to_row_def)

lemma ch_reading_of_row_to_row:
  "ulid_codec_ok uc \<Longrightarrow> reading_valid r \<Longrightarrow> ch_reading_of_row uc (ch_reading_to_row uc r) = Ok (reading_kept r)"
  by (simp add: ch_reading_of_row_def ch_reading_to_row_def ch_columns reading_valid_def reading_kept_def)

lemma chr_batch_store_rows:
  assumes "reading_server (ch_client m) rows"
  shows "case chr_batch_store uc rs m of
      (Inl _, m') \<Rightarrow> rows (ch_db m) \<subseteq># rows (ch_db m') \<and> rows (ch_db m') \<subseteq># rows (ch_db m) + mset (map (ch_reading_to_row uc) rs)
    | (Inr _, m') \<Rightarrow> rows (ch_db m') = rows (ch_db m) + mset (map (ch_reading_to_row uc) rs)"
proof -
  let ?rows = "map (ch_reading_to_row uc) rs"
  have law: "case insert_end (cl_readings (ch_client m)) ''sensor_readings'' ?rows (ch_db m) of
        (Inl _, db') \<Rightarrow> rows (ch_db m) \<subseteq># rows db' \<and> rows db' \<subseteq># rows (ch_db m) + mset ?rows
      | (Inr _, db') \<Rightarrow> rows db' = rows (ch_db m) + mset ?rows"
    by (rule conjunct1 [OF assms [unfolded reading_server_def], THEN spec, THEN spec])
  show ?thesis
    using law
    by (cases rule: insert_rows_cases [of cl_readings "''sensor_readings''" ?rows m];
        cases "insert_end (cl_readings (ch_client m)) ''sensor_readings'' ?rows (ch_db m)")
      (auto simp: chr_batch_store_def)
qed

lemma chr_batch_store_client [simp]: "ch_client (snd (chr_batch_store uc rs m)) = ch_client m"
  by (simp add: chr_batch_store_def)

lemma chr_inv_batch_store:
  assumes "chr_inv uc rows m" and "list_all reading_valid rs"
  shows "chr_inv uc rows (snd (chr_batch_store uc rs m))"
proof -
  have "set_mset (rows (ch_db (snd (chr_batch_store uc rs m)))) \<subseteq>
      set_mset (rows (ch_db m)) \<union> ch_reading_to_row uc ` set rs"
    using assms(1) chr_batch_store_rows [of m rows uc rs]
    by (auto simp: chr_inv_def split: prod.splits sum.splits dest: mset_subset_eqD)
  then show ?thesis
    using assms by (fastforce simp: chr_inv_def list_all_iff)
qed

lemma chr_get_spec:
  assumes "chr_inv uc rows m"
  shows "case chr_get uc i m of
      Inl _ \<Rightarrow> False
    | Inr None \<Rightarrow> uc_show uc (reading_ulid i) \<notin> cr_id ` set_mset (rows (ch_db m))
    | Inr (Some r) \<Rightarrow> \<exists>r'. reading_valid r' \<and> ch_reading_to_row uc r' \<in># rows (ch_db m) \<and> rd_id r' = i \<and> r = reading_kept r'"
proof -
  let ?k = "uc_show uc (reading_ulid i)"
  have uc: "ulid_codec_ok uc" using assms by (simp add: chr_inv_def)
  obtain row where row:
      "fetch_optional (cl_readings (ch_client m)) ''SELECT ?fields FROM sensor_readings WHERE id = ?'' [?k] (ch_db m) = Ok row"
      "case row of None \<Rightarrow> ?k \<notin> cr_id ` set_mset (rows (ch_db m)) | Some r \<Rightarrow> r \<in># rows (ch_db m) \<and> cr_id r = ?k"
    using assms unfolding chr_inv_def reading_server_def by blast
  show ?thesis
  proof (cases row)
    case None
    with row show ?thesis by (simp add: chr_get_def query_optional_def)
  next
    case (Some r)
    with row assms obtain r' where r': "reading_valid r'" "r = ch_reading_to_row uc r'" "r \<in># rows (ch_db m)"
      by (auto simp: chr_inv_def)
    moreover have "rd_id r' = i"
      using row(2) Some r'(2) by (cases i; cases "rd_id r'") (simp add: ch_reading_to_row_def uc_show_inject [OF uc])
    ultimately show ?thesis
      using row(1) Some by (auto simp: chr_get_def query_optional_def ch_reading_of_row_to_row [OF uc])
  qed
qed

lemma chr_batches_rows:
  assumes "chr_inv uc rows m" and "list_all (list_all reading_valid) batches"
    and "try_each (chr_batch_store uc) batches m = (Ok u, m')"
  shows "chr_inv uc rows m' \<and>
    rows (ch_db m') = rows (ch_db m) + mset (map (ch_reading_to_row uc) (concat batches))"
  using assms
proof (induction batches arbitrary: m)
  case (Cons b batches)
  obtain m1 where m1: "chr_batch_store uc b m = (Ok (), m1)" "try_each (chr_batch_store uc) batches m1 = (Ok u, m')"
    using Cons.prems(3) by (auto split: prod.splits sum.splits)
  have "chr_inv uc rows m1" using chr_inv_batch_store [of uc rows m b] Cons.prems(1,2) m1(1) by simp
  moreover have "rows (ch_db m1) = rows (ch_db m) + mset (map (ch_reading_to_row uc) b)"
    using chr_batch_store_rows [of m rows uc b] Cons.prems(1) m1(1) by (simp add: chr_inv_def)
  ultimately show ?case using Cons.IH [OF _ _ m1(2)] Cons.prems(2) by simp
qed simp

end
