(* ===== verification/Prime_Ch_Status.thy ===== *)
theory Prime_Ch_Status
  imports Prime_Ch_Reading
begin

text \<open>
  The ClickHouse registry of device statuses of prime
  (\<open>ersha-prime/src/registry/clickhouse/device_status.rs\<close>): three plain \<open>MergeTree\<close> tables, one for the
  statuses and two for their errors and sensor statuses, filled by three inserts.
\<close>

definition CREATE_STATUS_TABLE :: string where
  "CREATE_STATUS_TABLE = raw_lines
     [''CREATE TABLE IF NOT EXISTS device_statuses ('', ''    id String,'', ''    device_id String,'',
      ''    dispatcher_id String,'', ''    battery_percent Int32,'', ''    uptime_seconds Int64,'',
      ''    signal_rssi Int32,'', ''    timestamp Int64'', '') ENGINE = MergeTree()'',
      ''PARTITION BY toYYYYMM(toDateTime(timestamp))'', ''ORDER BY (device_id, timestamp)'']"

definition CREATE_ERRORS_TABLE :: string where
  "CREATE_ERRORS_TABLE = raw_lines
     [''CREATE TABLE IF NOT EXISTS device_status_errors ('', ''    status_id String,'', ''    error_code Int32,'',
      ''    message Nullable(String)'', '') ENGINE = MergeTree()'', ''ORDER BY status_id'']"

definition CREATE_SENSOR_STATUSES_TABLE :: string where
  "CREATE_SENSOR_STATUSES_TABLE = raw_lines
     [''CREATE TABLE IF NOT EXISTS device_status_sensor_statuses ('', ''    status_id String,'',
      ''    sensor_id String,'', ''    state Int32,'', ''    last_reading Nullable(Int64)'',
      '') ENGINE = MergeTree()'', ''ORDER BY status_id'']"

definition ClickHouseDeviceStatusRegistry_new where
  "ClickHouseDeviceStatusRegistry_new connect clock url database db =
     registry_new connect clock [CREATE_STATUS_TABLE, CREATE_ERRORS_TABLE, CREATE_SENSOR_STATUSES_TABLE] url database db"

subsection \<open>Rows\<close>

definition ch_status_to_row :: "ulid_codec \<Rightarrow> DeviceStatus \<Rightarrow> ch_status_row" where
  "ch_status_to_row uc st =
     \<lparr>cx_id = status_key uc (ds_id st), cx_device_id = uc_show uc (device_ulid (ds_device_id st)),
      cx_dispatcher_id = uc_show uc (dispatcher_ulid (ds_dispatcher_id st)),
      cx_battery_percent = uint (percent (ds_battery_percent st)),
      cx_uptime_seconds = u64_as_i64 (ds_uptime_seconds st), cx_signal_rssi = sint (ds_signal_rssi st),
      cx_timestamp = as_second (ds_timestamp st)\<rparr>"

definition ch_error_to_row :: "ulid_codec \<Rightarrow> StatusId \<Rightarrow> DeviceError \<Rightarrow> ch_error_row" where
  "ch_error_to_row uc i e =
     \<lparr>ce_status_id = status_key uc i, ce_error_code = error_code_value (de_code e), ce_message = de_message e\<rparr>"

definition ch_sensor_status_to_row :: "ulid_codec \<Rightarrow> StatusId \<Rightarrow> SensorStatus \<Rightarrow> ch_sensor_status_row" where
  "ch_sensor_status_to_row uc i s =
     \<lparr>ct_status_id = status_key uc i, ct_sensor_id = uc_show uc (sensor_ulid (ss_sensor_id s)),
      ct_state = sensor_state_value (ss_state s), ct_last_reading = map_option as_second (ss_last_reading s)\<rparr>"

definition ch_error_of_row :: "ch_error_row \<Rightarrow> (DeviceError, 'ce ClickHouseError) result" where
  "ch_error_of_row r =
     and_then (if ce_error_code r = 0 then Ok LowBattery
               else if ce_error_code r = 1 then Ok SensorFault
               else if ce_error_code r = 2 then Ok RadioFault
               else if ce_error_code r = 3 then Ok UnknownError
               else Err (CH_InvalidErrorCode (ce_error_code r))) (\<lambda>code.
       Ok \<lparr>de_code = code, de_message = ce_message r\<rparr>)"

definition ch_sensor_status_of_row ::
    "ulid_codec \<Rightarrow> ch_sensor_status_row \<Rightarrow> (SensorStatus, 'ce ClickHouseError) result" where
  "ch_sensor_status_of_row uc r =
     and_then (ch_ulid uc (ct_sensor_id r)) (\<lambda>u.
     and_then (if ct_state r = 0 then Ok Sensor_Active
               else if ct_state r = 1 then Ok Sensor_Faulty
               else if ct_state r = 2 then Ok Sensor_Inactive
               else Err (CH_InvalidSensorState (ct_state r))) (\<lambda>state.
     and_then (case ct_last_reading r of
                 None \<Rightarrow> Ok None
               | Some s \<Rightarrow> and_then (ch_timestamp s) (\<lambda>t. Ok (Some t))) (\<lambda>last_reading.
       Ok \<lparr>ss_sensor_id = SensorId u, ss_state = state, ss_last_reading = last_reading\<rparr>)))"

subsection \<open>Operations\<close>

definition store_errors ::
    "ulid_codec \<Rightarrow> StatusId \<Rightarrow> DeviceError list \<Rightarrow> ('db, 'ce) ch_registry \<Rightarrow>
     (unit, 'ce ClickHouseError) result \<times> ('db, 'ce) ch_registry" where
  "store_errors uc i errors m =
     (if errors = [] then (Ok (), m)
      else insert_rows cl_errors ''device_status_errors'' (map (ch_error_to_row uc i) errors) m)"

definition store_sensor_statuses ::
    "ulid_codec \<Rightarrow> StatusId \<Rightarrow> SensorStatus list \<Rightarrow> ('db, 'ce) ch_registry \<Rightarrow>
     (unit, 'ce ClickHouseError) result \<times> ('db, 'ce) ch_registry" where
  "store_sensor_statuses uc i sensor_statuses m =
     (if sensor_statuses = [] then (Ok (), m)
      else insert_rows cl_sensor_statuses ''device_status_sensor_statuses''
             (map (ch_sensor_status_to_row uc i) sensor_statuses) m)"

definition ch_fetch_errors ::
    "ulid_codec \<Rightarrow> StatusId \<Rightarrow> ('db, 'ce) ch_registry \<Rightarrow> (DeviceError list, 'ce ClickHouseError) result" where
  "ch_fetch_errors uc i m =
     and_then (query_all cl_errors ''SELECT ?fields FROM device_status_errors WHERE status_id = ?''
       [status_key uc i] m) (try_map ch_error_of_row)"

definition ch_fetch_sensor_statuses ::
    "ulid_codec \<Rightarrow> StatusId \<Rightarrow> ('db, 'ce) ch_registry \<Rightarrow> (SensorStatus list, 'ce ClickHouseError) result" where
  "ch_fetch_sensor_statuses uc i m =
     and_then (query_all cl_sensor_statuses
       ''SELECT ?fields FROM device_status_sensor_statuses WHERE status_id = ?'' [status_key uc i] m)
       (try_map (ch_sensor_status_of_row uc))"

definition ch_map_row_to_status ::
    "ulid_codec \<Rightarrow> ('db, 'ce) ch_registry \<Rightarrow> ch_status_row \<Rightarrow> (DeviceStatus, 'ce ClickHouseError) result" where
  "ch_map_row_to_status uc m r =
     and_then (ch_ulid uc (cx_id r)) (\<lambda>i.
     and_then (ch_ulid uc (cx_device_id r)) (\<lambda>device_id.
     and_then (ch_ulid uc (cx_dispatcher_id r)) (\<lambda>dispatcher_id.
     and_then (ch_timestamp (cx_timestamp r)) (\<lambda>t.
     and_then (ch_fetch_errors uc (StatusId i) m) (\<lambda>errors.
     and_then (ch_fetch_sensor_statuses uc (StatusId i) m) (\<lambda>sensor_statuses.
       Ok \<lparr>ds_id = StatusId i, ds_device_id = DeviceId device_id, ds_dispatcher_id = DispatcherId dispatcher_id,
           ds_battery_percent = Percentage (word_of_int (cx_battery_percent r)),
           ds_uptime_seconds = i64_as_u64 (cx_uptime_seconds r), ds_signal_rssi = word_of_int (cx_signal_rssi r),
           ds_errors = errors, ds_timestamp = t, ds_sensor_statuses = sensor_statuses\<rparr>))))))"

definition chs_store ::
    "ulid_codec \<Rightarrow> DeviceStatus \<Rightarrow> ('db, 'ce) ch_registry \<Rightarrow>
     (unit, 'ce ClickHouseError) result \<times> ('db, 'ce) ch_registry" where
  "chs_store uc st m =
     then_do (insert_rows cl_statuses ''device_statuses'' [ch_status_to_row uc st] m) (\<lambda>m.
     then_do (store_errors uc (ds_id st) (ds_errors st) m) (\<lambda>m.
       store_sensor_statuses uc (ds_id st) (ds_sensor_statuses st) m))"

definition chs_get ::
    "ulid_codec \<Rightarrow> StatusId \<Rightarrow> ('db, 'ce) ch_registry \<Rightarrow> (DeviceStatus option, 'ce ClickHouseError) result" where
  "chs_get uc i m =
     and_then (query_optional cl_statuses ''SELECT ?fields FROM device_statuses WHERE id = ?'' [status_key uc i] m) (\<lambda>row.
     case row of
       None \<Rightarrow> Ok None
     | Some r \<Rightarrow> and_then (ch_map_row_to_status uc m r) (\<lambda>st. Ok (Some st)))"

definition chs_get_latest ::
    "ulid_codec \<Rightarrow> DeviceId \<Rightarrow> ('db, 'ce) ch_registry \<Rightarrow> (DeviceStatus option, 'ce ClickHouseError) result" where
  "chs_get_latest uc d m =
     and_then (query_optional cl_statuses
       ''SELECT ?fields FROM device_statuses WHERE device_id = ? ORDER BY timestamp DESC LIMIT 1''
       [uc_show uc (device_ulid d)] m) (\<lambda>row.
     case row of
       None \<Rightarrow> Ok None
     | Some r \<Rightarrow> and_then (ch_map_row_to_status uc m r) (\<lambda>st. Ok (Some st)))"

definition chs_batch_store where
  "chs_batch_store uc sts m = try_each (chs_store uc) sts m"

subsection \<open>Queries\<close>

definition chs_conditions_pushed :: "ulid_codec \<Rightarrow> DeviceStatusFilter \<Rightarrow> string list \<times> string list" where
  "chs_conditions_pushed uc f =
     push_in_values ''device_status_errors.error_code'' error_code_value (sf_error_codes f)
    (push_opt (\<lambda>has_errors. if has_errors then ''device_status_errors.status_id IS NOT NULL''
        else ''device_status_errors.status_id IS NULL'') (sf_has_errors f)
    (push_opt (\<lambda>rng. ''battery_percent BETWEEN '' @ int_to_string (uint (fst rng)) @ '' AND '' @
        int_to_string (uint (snd rng))) (sf_battery_range f)
    (push_opt (\<lambda>t. ''timestamp <= '' @ int_to_string (as_second t)) (sf_timestamp_before f)
    (push_opt (\<lambda>t. ''timestamp >= '' @ int_to_string (as_second t)) (sf_timestamp_after f)
    (push_in_bound ''dispatcher_id'' (\<lambda>i. uc_show uc (dispatcher_ulid i)) (sf_dispatcher_ids f)
    (push_in_bound ''device_id'' (\<lambda>i. uc_show uc (device_ulid i)) (sf_device_ids f)
    (push_in_bound ''device_statuses.id'' (status_key uc) (sf_ids f) ([], []))))))))"

definition chs_join_clause :: "DeviceStatusFilter \<Rightarrow> string" where
  "chs_join_clause f =
     (if sf_has_errors f \<noteq> None \<or> (case sf_error_codes f of None \<Rightarrow> False | Some codes \<Rightarrow> codes \<noteq> [])
      then '' LEFT JOIN device_status_errors ON device_statuses.id = device_status_errors.status_id''
      else [])"

definition chs_build_clauses :: "ulid_codec \<Rightarrow> DeviceStatusFilter \<Rightarrow> string \<times> string \<times> string list" where
  "chs_build_clauses uc f =
     (let (conditions, bindings) = chs_conditions_pushed uc f
      in (chs_join_clause f, where_text conditions, bindings))"

definition chs_build_count_query :: "ulid_codec \<Rightarrow> DeviceStatusFilter option \<Rightarrow> string \<times> string list" where
  "chs_build_count_query uc f =
     (case f of
        None \<Rightarrow> (''SELECT count(DISTINCT id) FROM device_statuses'', [])
      | Some f' \<Rightarrow>
          (let (join_clause, where_clause, filter_bindings) = chs_build_clauses uc f';
               query = ''SELECT count(DISTINCT id) FROM device_statuses'' @ join_clause
           in if where_clause \<noteq> [] then (query @ where_clause, filter_bindings) else (query, [])))"

fun chs_sort_column :: "DeviceStatusSortBy \<Rightarrow> string" where
  "chs_sort_column StatBy_Timestamp = ''timestamp''"
| "chs_sort_column StatBy_BatteryPercent = ''battery_percent''"
| "chs_sort_column StatBy_DeviceId = ''device_id''"

definition chs_build_list_query ::
    "ulid_codec \<Rightarrow> (DeviceStatusFilter, DeviceStatusSortBy) QueryOptions \<Rightarrow> string \<times> string list" where
  "chs_build_list_query uc options =
     (let (join_clause, where_clause, bindings) = chs_build_clauses uc (qo_filter options)
      in (''SELECT DISTINCT device_statuses.id, device_id, dispatcher_id, battery_percent, uptime_seconds, signal_rssi, timestamp FROM device_statuses'' @
            join_clause @ where_clause @ '' ORDER BY '' @
            chs_sort_column (qo_sort_by options) @ order_text (qo_sort_order options) @
            limit_text (qo_pagination options),
          bindings))"

definition chs_count ::
    "ulid_codec \<Rightarrow> DeviceStatusFilter option \<Rightarrow> ('db, 'ce) ch_registry \<Rightarrow> (nat, 'ce ClickHouseError) result" where
  "chs_count uc f m = query_count (chs_build_count_query uc f) m"

definition chs_list ::
    "ulid_codec \<Rightarrow> (DeviceStatusFilter, DeviceStatusSortBy) QueryOptions \<Rightarrow> ('db, 'ce) ch_registry \<Rightarrow>
     (DeviceStatus list, 'ce ClickHouseError) result" where
  "chs_list uc options m =
     (let (query, bindings) = chs_build_list_query uc options
      in and_then (query_all cl_statuses query bindings m) (try_map (ch_map_row_to_status uc m)))"

definition clickhouse_statuses :: "ulid_codec \<Rightarrow> (('db, 'ce) ch_registry, 'ce ClickHouseError) DeviceStatusRegistry" where
  "clickhouse_statuses uc =
     \<lparr>stat_store = chs_store uc, stat_get = chs_get uc, stat_get_latest = chs_get_latest uc,
      stat_batch_store = chs_batch_store uc, stat_count = chs_count uc, stat_list = chs_list uc\<rparr>"

subsection \<open>Query lemmas\<close>

lemma chs_balanced: "balanced (chs_conditions_pushed uc f)"
  unfolding chs_conditions_pushed_def by (intro balanced_opt balanced_in_values balanced_in_bound) simp_all

lemma placeholders_join_clause [simp]: "placeholders (chs_join_clause f) = 0"
  by (simp add: chs_join_clause_def)

subsection \<open>What the tables hold\<close>

text \<open>
  What the registry relies on: a successful insert adds its rows to its table and no insert touches the
  other tables; a lookup returns some row with the identifier, the rows of a status in any order, and the
  newest status of a device.
\<close>

definition adds :: "('db, 'row, 'ce) ch_rows \<Rightarrow> string \<Rightarrow> ('db \<Rightarrow> 'row multiset) \<Rightarrow> bool" where
  "adds c table rows \<longleftrightarrow>
     (\<forall>rs db db'. insert_end c table rs db = (Ok (), db') \<longrightarrow> rows db' = rows db + mset rs)"

definition newest :: "ch_status_row multiset \<Rightarrow> ch_status_row \<Rightarrow> bool" where
  "newest rows r \<longleftrightarrow> r \<in># rows \<and> (\<forall>x \<in># rows. cx_timestamp x \<le> cx_timestamp r)"

definition status_server ::
    "('db, 'ce) Ch_Client \<Rightarrow> ('db \<Rightarrow> ch_status_row multiset) \<Rightarrow> ('db \<Rightarrow> ch_error_row multiset) \<Rightarrow>
     ('db \<Rightarrow> ch_sensor_status_row multiset) \<Rightarrow> bool" where
  "status_server client S E T \<longleftrightarrow>
     adds (cl_statuses client) ''device_statuses'' S \<and>
     keeps (cl_statuses client) ''device_statuses'' E \<and> keeps (cl_statuses client) ''device_statuses'' T \<and>
     adds (cl_errors client) ''device_status_errors'' E \<and>
     keeps (cl_errors client) ''device_status_errors'' S \<and> keeps (cl_errors client) ''device_status_errors'' T \<and>
     adds (cl_sensor_statuses client) ''device_status_sensor_statuses'' T \<and>
     keeps (cl_sensor_statuses client) ''device_status_sensor_statuses'' S \<and>
     keeps (cl_sensor_statuses client) ''device_status_sensor_statuses'' E \<and>
     (\<forall>k db. \<exists>row. fetch_optional (cl_statuses client) ''SELECT ?fields FROM device_statuses WHERE id = ?'' [k] db = Ok row \<and>
        (case row of None \<Rightarrow> k \<notin> cx_id ` set_mset (S db) | Some r \<Rightarrow> r \<in># S db \<and> cx_id r = k)) \<and>
     (\<forall>k db. \<exists>row. fetch_optional (cl_statuses client)
          ''SELECT ?fields FROM device_statuses WHERE device_id = ? ORDER BY timestamp DESC LIMIT 1'' [k] db = Ok row \<and>
        (case row of
           None \<Rightarrow> filter_mset (\<lambda>r. cx_device_id r = k) (S db) = {#}
         | Some r \<Rightarrow> newest (filter_mset (\<lambda>r. cx_device_id r = k) (S db)) r)) \<and>
     (\<forall>k db. \<exists>rows. fetch_all (cl_errors client)
          ''SELECT ?fields FROM device_status_errors WHERE status_id = ?'' [k] db = Ok rows \<and>
        mset rows = filter_mset (\<lambda>r. ce_status_id r = k) (E db)) \<and>
     (\<forall>k db. \<exists>rows. fetch_all (cl_sensor_statuses client)
          ''SELECT ?fields FROM device_status_sensor_statuses WHERE status_id = ?'' [k] db = Ok rows \<and>
        mset rows = filter_mset (\<lambda>r. ct_status_id r = k) (T db))"

lemma insert_rows_adds:
  "adds (sel (ch_client m)) table rows \<Longrightarrow> insert_rows sel table rs m = (Ok u, m') \<Longrightarrow>
     rows (ch_db m') = rows (ch_db m) + mset rs"
  by (cases rule: insert_rows_cases [of sel table rs m])
    (auto simp: adds_def prod_eq_iff)

lemma insert_rows_keepsD:
  "keeps (sel (ch_client m)) table rows \<Longrightarrow> insert_rows sel table rs m = (r, m') \<Longrightarrow> rows (ch_db m') = rows (ch_db m)"
  using insert_rows_keeps [of sel m table rows rs] by simp

lemma insert_rows_clientD: "insert_rows sel table rs m = (r, m') \<Longrightarrow> ch_client m' = ch_client m"
  using insert_rows_client(1) [of sel table rs m] by simp

lemma chs_store_rows:
  assumes "status_server (ch_client m) S E T" and "chs_store uc st m = (Ok u, m')"
  shows "ch_client m' = ch_client m \<and> S (ch_db m') = S (ch_db m) + {#ch_status_to_row uc st#} \<and>
    E (ch_db m') = E (ch_db m) + mset (map (ch_error_to_row uc (ds_id st)) (ds_errors st)) \<and>
    T (ch_db m') = T (ch_db m) + mset (map (ch_sensor_status_to_row uc (ds_id st)) (ds_sensor_statuses st))"
proof -
  obtain m1 m2 where m1: "insert_rows cl_statuses ''device_statuses'' [ch_status_to_row uc st] m = (Ok (), m1)"
    and m2: "store_errors uc (ds_id st) (ds_errors st) m1 = (Ok (), m2)"
    and m3: "store_sensor_statuses uc (ds_id st) (ds_sensor_statuses st) m2 = (Ok u, m')"
    using assms(2) by (auto simp: chs_store_def then_do_def split: prod.splits sum.splits)
  let ?c = "ch_client m"
  have S: "adds (cl_statuses ?c) ''device_statuses'' S" "keeps (cl_statuses ?c) ''device_statuses'' E"
      "keeps (cl_statuses ?c) ''device_statuses'' T"
    and E: "adds (cl_errors ?c) ''device_status_errors'' E" "keeps (cl_errors ?c) ''device_status_errors'' S"
      "keeps (cl_errors ?c) ''device_status_errors'' T"
    and T: "adds (cl_sensor_statuses ?c) ''device_status_sensor_statuses'' T"
      "keeps (cl_sensor_statuses ?c) ''device_status_sensor_statuses'' S"
      "keeps (cl_sensor_statuses ?c) ''device_status_sensor_statuses'' E"
    using assms(1) by (simp_all add: status_server_def)
  have e1: "ch_client m1 = ch_client m \<and> S (ch_db m1) = S (ch_db m) + {#ch_status_to_row uc st#} \<and>
      E (ch_db m1) = E (ch_db m) \<and> T (ch_db m1) = T (ch_db m)"
    using insert_rows_adds [OF S(1) m1] insert_rows_keepsD [OF S(2) m1] insert_rows_keepsD [OF S(3) m1]
      insert_rows_clientD [OF m1] by simp
  have e2: "ch_client m2 = ch_client m1 \<and> S (ch_db m2) = S (ch_db m1) \<and> T (ch_db m2) = T (ch_db m1) \<and>
      E (ch_db m2) = E (ch_db m1) + mset (map (ch_error_to_row uc (ds_id st)) (ds_errors st))"
  proof (cases "ds_errors st = []")
    case False
    then have i: "insert_rows cl_errors ''device_status_errors'' (map (ch_error_to_row uc (ds_id st)) (ds_errors st)) m1 = (Ok (), m2)"
      using m2 by (simp add: store_errors_def)
    have c: "ch_client m1 = ?c" using e1 by simp
    show ?thesis
      using insert_rows_adds [OF E(1) [folded c] i] insert_rows_keepsD [OF E(2) [folded c] i]
        insert_rows_keepsD [OF E(3) [folded c] i] insert_rows_clientD [OF i] by simp
  qed (use m2 in \<open>simp add: store_errors_def\<close>)
  have "ch_client m' = ch_client m2 \<and> S (ch_db m') = S (ch_db m2) \<and> E (ch_db m') = E (ch_db m2) \<and>
      T (ch_db m') = T (ch_db m2) + mset (map (ch_sensor_status_to_row uc (ds_id st)) (ds_sensor_statuses st))"
  proof (cases "ds_sensor_statuses st = []")
    case False
    then have i: "insert_rows cl_sensor_statuses ''device_status_sensor_statuses''
        (map (ch_sensor_status_to_row uc (ds_id st)) (ds_sensor_statuses st)) m2 = (Ok u, m')"
      using m3 by (simp add: store_sensor_statuses_def)
    have c: "ch_client m2 = ?c" using e1 e2 by simp
    show ?thesis
      using insert_rows_adds [OF T(1) [folded c] i] insert_rows_keepsD [OF T(2) [folded c] i]
        insert_rows_keepsD [OF T(3) [folded c] i] insert_rows_clientD [OF i] by simp
  qed (use m3 in \<open>simp add: store_sensor_statuses_def\<close>)
  with e1 e2 show ?thesis by simp
qed

abbreviation all_error_rows :: "ulid_codec \<Rightarrow> DeviceStatus list \<Rightarrow> ch_error_row list" where
  "all_error_rows uc sts \<equiv> concat (map (\<lambda>st. map (ch_error_to_row uc (ds_id st)) (ds_errors st)) sts)"

abbreviation all_sensor_status_rows :: "ulid_codec \<Rightarrow> DeviceStatus list \<Rightarrow> ch_sensor_status_row list" where
  "all_sensor_status_rows uc sts \<equiv>
     concat (map (\<lambda>st. map (ch_sensor_status_to_row uc (ds_id st)) (ds_sensor_statuses st)) sts)"

lemma chs_batch_rows:
  assumes "status_server (ch_client m) S E T" and "chs_batch_store uc sts m = (Ok u, m')"
  shows "ch_client m' = ch_client m \<and> S (ch_db m') = S (ch_db m) + mset (map (ch_status_to_row uc) sts) \<and>
    E (ch_db m') = E (ch_db m) + mset (all_error_rows uc sts) \<and>
    T (ch_db m') = T (ch_db m) + mset (all_sensor_status_rows uc sts)"
  using assms
proof (induction sts arbitrary: m)
  case (Cons st sts)
  obtain m1 where m1: "chs_store uc st m = (Ok (), m1)" "chs_batch_store uc sts m1 = (Ok u, m')"
    using Cons.prems(2) by (auto simp: chs_batch_store_def split: prod.splits sum.splits)
  note e = chs_store_rows [OF Cons.prems(1) m1(1)]
  then have "status_server (ch_client m1) S E T" using Cons.prems(1) by simp
  with e Cons.IH [OF _ m1(2)] show ?case by simp
qed (simp add: chs_batch_store_def)

lemma ch_error_of_row_to_row: "ch_error_of_row (ch_error_to_row uc i e) = Ok e"
  by (cases "de_code e") (simp_all add: ch_error_of_row_def ch_error_to_row_def)

lemma ch_sensor_status_of_row_to_row:
  "ulid_codec_ok uc \<Longrightarrow> pred_option timestamp_valid (ss_last_reading s) \<Longrightarrow>
     ch_sensor_status_of_row uc (ch_sensor_status_to_row uc i s) = Ok (sensor_status_kept s)"
  by (cases "ss_state s"; cases "ss_last_reading s")
    (simp_all add: ch_sensor_status_of_row_def ch_sensor_status_to_row_def ch_columns sensor_status_kept_def)

lemma fetch_children:
  assumes "ulid_codec_ok uc" and "status_server (ch_client m) S E T" and "status_valid st"
    and "filter_mset (\<lambda>r. ce_status_id r = status_key uc (ds_id st)) (E (ch_db m)) =
      mset (map (ch_error_to_row uc (ds_id st)) errors)"
    and "filter_mset (\<lambda>r. ct_status_id r = status_key uc (ds_id st)) (T (ch_db m)) =
      mset (map (ch_sensor_status_to_row uc (ds_id st)) sensors)"
    and "set sensors \<subseteq> set (ds_sensor_statuses st)"
  shows "\<exists>es ss. ch_fetch_errors uc (ds_id st) m = Ok es \<and> mset es = mset errors \<and>
    ch_fetch_sensor_statuses uc (ds_id st) m = Ok ss \<and> mset ss = mset (map sensor_status_kept sensors)"
proof -
  let ?k = "status_key uc (ds_id st)"
  obtain er where er: "query_all cl_errors ''SELECT ?fields FROM device_status_errors WHERE status_id = ?'' [?k] m = Ok er"
      "mset er = mset (map (ch_error_to_row uc (ds_id st)) errors)"
    using assms(2,4) unfolding status_server_def query_all_def by (metis id_apply map_sum.simps(2))
  obtain tr where tr: "query_all cl_sensor_statuses
      ''SELECT ?fields FROM device_status_sensor_statuses WHERE status_id = ?'' [?k] m = Ok tr"
      "mset tr = mset (map (ch_sensor_status_to_row uc (ds_id st)) sensors)"
    using assms(2,5) unfolding status_server_def query_all_def by (metis id_apply map_sum.simps(2))
  have valid: "pred_option timestamp_valid (ss_last_reading s)" if "s \<in> set sensors" for s
    using that assms(3,6) by (auto simp: status_valid_def list_all_iff)
  show ?thesis
    using try_map_mset [OF er(2), of ch_error_of_row id] try_map_mset [OF tr(2), of "ch_sensor_status_of_row uc" sensor_status_kept]
      er(1) tr(1) valid
    by (auto simp: ch_fetch_errors_def ch_fetch_sensor_statuses_def ch_error_of_row_to_row
        ch_sensor_status_of_row_to_row [OF assms(1)])
qed

lemma ch_map_row_to_status_to_row:
  assumes "ulid_codec_ok uc" and "status_valid st"
    and "ch_fetch_errors uc (ds_id st) m = Ok es" and "ch_fetch_sensor_statuses uc (ds_id st) m = Ok ss"
  shows "ch_map_row_to_status uc m (ch_status_to_row uc st) =
    Ok (st\<lparr>ds_timestamp := whole_second (ds_timestamp st), ds_errors := es, ds_sensor_statuses := ss\<rparr>)"
proof -
  have "StatusId (status_ulid (ds_id st)) = ds_id st" by simp
  with assms show ?thesis
    by (simp add: ch_map_row_to_status_def ch_status_to_row_def ch_columns status_valid_def)
qed

text \<open>The rows of a status that is stored several times.\<close>

lemma all_rows_replicate:
  "all_error_rows uc (replicate n st) = map (ch_error_to_row uc (ds_id st)) (concat (replicate n (ds_errors st)))"
  "all_sensor_status_rows uc (replicate n st) =
     map (ch_sensor_status_to_row uc (ds_id st)) (concat (replicate n (ds_sensor_statuses st)))"
  by (induction n) simp_all

lemma filter_child_rows:
  "filter_mset (\<lambda>r. ce_status_id r = status_key uc i) (mset (map (ch_error_to_row uc i) es)) =
     mset (map (ch_error_to_row uc i) es)"
  "filter_mset (\<lambda>r. ct_status_id r = status_key uc i) (mset (map (ch_sensor_status_to_row uc i) ss)) =
     mset (map (ch_sensor_status_to_row uc i) ss)"
  by (auto simp: filter_mset_eq_conv ch_error_to_row_def ch_sensor_status_to_row_def)

end
