(* ===== verification/Prime_Clickhouse.thy ===== *)
theory Prime_Clickhouse
  imports Prime_Ch_Status
begin

text \<open>
  What the four ClickHouse registries promise together, and a small server on lists that meets the
  assumptions of the theories before, on which the theorems are evaluated.
\<close>

subsection \<open>A server on lists\<close>

record ch_tables =
  tb_dispatchers :: "ch_dispatcher_row list"
  tb_devices :: "ch_device_row list"
  tb_sensors :: "ch_sensor_row list"
  tb_readings :: "ch_reading_row list"
  tb_statuses :: "ch_status_row list"
  tb_errors :: "ch_error_row list"
  tb_sensor_statuses :: "ch_sensor_status_row list"

definition list_table ::
    "('row list \<Rightarrow> ch_tables \<Rightarrow> ch_tables) \<Rightarrow> (string \<Rightarrow> string \<Rightarrow> ch_tables \<Rightarrow> 'row list) \<Rightarrow> (ch_tables, 'row, unit) ch_rows" where
  "list_table add answer =
     \<lparr>insert_write = (\<lambda>_ _ _ _. Ok ()), insert_end = (\<lambda>_ rs db. (Ok (), add rs db)),
      fetch_all = (\<lambda>q bs db. Ok (answer q (hd bs) db)),
      fetch_optional = (\<lambda>q bs db. Ok (case answer q (hd bs) db of [] \<Rightarrow> None | r # _ \<Rightarrow> Some r))\<rparr>"

definition list_client :: "(ch_tables, unit) Ch_Client" where
  "list_client =
     \<lparr>cl_execute = (\<lambda>_ db. (Ok (), db)), cl_insert = (\<lambda>_ _. Ok ()),
      cl_fetch_one = (\<lambda>_ _ db. Ok (of_nat (length (tb_readings db)))),
      cl_dispatchers = list_table (\<lambda>rs db. db\<lparr>tb_dispatchers := tb_dispatchers db @ rs\<rparr>)
        (\<lambda>_ k db. case final_row cp_id cp_version (tb_dispatchers db) k of None \<Rightarrow> [] | Some r \<Rightarrow> [r]),
      cl_devices = list_table (\<lambda>rs db. db\<lparr>tb_devices := tb_devices db @ rs\<rparr>)
        (\<lambda>_ k db. case final_row cv_id cv_version (tb_devices db) k of None \<Rightarrow> [] | Some r \<Rightarrow> [r]),
      cl_sensors = list_table (\<lambda>rs db. db\<lparr>tb_sensors := tb_sensors db @ rs\<rparr>)
        (\<lambda>_ k db. filter (\<lambda>r. cn_device_id r = k) (final_rows sensor_key cn_version (tb_sensors db))),
      cl_readings = list_table (\<lambda>rs db. db\<lparr>tb_readings := tb_readings db @ rs\<rparr>)
        (\<lambda>_ k db. filter (\<lambda>r. cr_id r = k) (tb_readings db)),
      cl_statuses = list_table (\<lambda>rs db. db\<lparr>tb_statuses := tb_statuses db @ rs\<rparr>)
        (\<lambda>q k db. if q = ''SELECT ?fields FROM device_statuses WHERE id = ?''
           then filter (\<lambda>r. cx_id r = k) (tb_statuses db)
           else rev (sort_key cx_timestamp (filter (\<lambda>r. cx_device_id r = k) (tb_statuses db)))),
      cl_errors = list_table (\<lambda>rs db. db\<lparr>tb_errors := tb_errors db @ rs\<rparr>)
        (\<lambda>_ k db. filter (\<lambda>r. ce_status_id r = k) (tb_errors db)),
      cl_sensor_statuses = list_table (\<lambda>rs db. db\<lparr>tb_sensor_statuses := tb_sensor_statuses db @ rs\<rparr>)
        (\<lambda>_ k db. filter (\<lambda>r. ct_status_id r = k) (tb_sensor_statuses db))\<rparr>"

definition list_registry :: "(ch_tables, unit) ch_registry" where
  "list_registry =
     \<lparr>ch_client = list_client,
      ch_db = \<lparr>tb_dispatchers = [], tb_devices = [], tb_sensors = [], tb_readings = [], tb_statuses = [],
               tb_errors = [], tb_sensor_statuses = []\<rparr>,
      ch_clock = (\<lambda>_. 0), ch_tick = 0\<rparr>"

lemmas list_server_defs = list_client_def list_table_def appends_def keeps_def adds_def

lemma case_filter_head:
  "case (case filter P xs of [] \<Rightarrow> None | r # _ \<Rightarrow> Some r) of None \<Rightarrow> \<forall>x \<in> set xs. \<not> P x | Some r \<Rightarrow> r \<in> set xs \<and> P r"
proof (cases "filter P xs")
  case (Cons y ys)
  then have "y \<in> set xs" "P y" using filter_eq_ConsD [OF Cons] by auto
  with Cons show ?thesis by simp
qed (auto simp: filter_empty_conv)

lemma list_dispatcher_server: "dispatcher_server list_client tb_dispatchers"
  by (simp add: dispatcher_server_def list_server_defs split: option.split)

lemma list_device_server: "device_server list_client tb_devices tb_sensors"
  by (simp add: device_server_def list_server_defs split: option.split)

lemma list_reading_server: "reading_server list_client (\<lambda>db. mset (tb_readings db))"
proof -
  have "case (case filter (\<lambda>r. cr_id r = k) rows of [] \<Rightarrow> None | r # _ \<Rightarrow> Some r) of
      None \<Rightarrow> k \<notin> cr_id ` set_mset (mset rows) | Some r \<Rightarrow> r \<in># mset rows \<and> cr_id r = k" for k and rows :: "ch_reading_row list"
    using case_filter_head [where P = "\<lambda>r. cr_id r = k" and xs = rows] by (auto split: list.splits option.splits)
  then show ?thesis by (simp add: reading_server_def list_server_defs)
qed

lemma newest_head:
  "case (case rev (sort_key cx_timestamp (filter P rows)) of [] \<Rightarrow> None | r # _ \<Rightarrow> Some r) of
     None \<Rightarrow> filter_mset P (mset rows) = {#} | Some r \<Rightarrow> newest (filter_mset P (mset rows)) r"
proof (cases "sort_key cx_timestamp (filter P rows)" rule: rev_cases)
  case Nil
  then have "filter P rows = []"
    using List.length_sort [of cx_timestamp "filter P rows"] by (metis length_0_conv)
  then have "mset (filter P rows) = {#}" by (simp only: mset.simps)
  with Nil show ?thesis by simp
next
  case (snoc ys y)
  have "set (sort_key cx_timestamp (filter P rows)) = set (filter P rows)" by simp
  moreover have "List.linorder_class.sorted (map cx_timestamp (ys @ [y]))" using List.sorted_sort_key [of cx_timestamp "filter P rows"] snoc by metis
  ultimately have "y \<in> set (filter P rows)" "\<forall>x \<in> set (filter P rows). cx_timestamp x \<le> cx_timestamp y"
    unfolding snoc by (auto simp: List.sorted_append)
  with snoc show ?thesis by (simp add: newest_def)
qed

lemma list_status_server:
  "status_server list_client (\<lambda>db. mset (tb_statuses db)) (\<lambda>db. mset (tb_errors db)) (\<lambda>db. mset (tb_sensor_statuses db))"
proof -
  have "case (case filter (\<lambda>r. cx_id r = k) rows of [] \<Rightarrow> None | r # _ \<Rightarrow> Some r) of
      None \<Rightarrow> k \<notin> cx_id ` set_mset (mset rows) | Some r \<Rightarrow> r \<in># mset rows \<and> cx_id r = k" for k and rows :: "ch_status_row list"
    using case_filter_head [where P = "\<lambda>r. cx_id r = k" and xs = rows] by (auto split: list.splits option.splits)
  moreover note newest_head [where P = "\<lambda>r. cx_device_id r = k" for k]
  ultimately show ?thesis by (simp add: status_server_def list_server_defs)
qed

lemma list_write_Ok: "write_rows (list_table add answer) table done_rows rs db = Ok ()"
  by (induction rs arbitrary: done_rows) (simp_all add: list_table_def)

lemma list_insert_Ok:
  assumes "ch_client m = list_client" and "sel list_client = list_table add answer"
  shows "fst (insert_rows sel table rs m) = Ok ()"
proof -
  have "cl_insert list_client table (ch_db m) = Ok ()" by (simp add: list_client_def)
  with assms show ?thesis
    by (simp add: insert_rows_def list_write_Ok) (simp add: list_table_def)
qed

lemma list_tables:
  "\<exists>add answer. cl_dispatchers list_client = list_table add answer"
  "\<exists>add answer. cl_devices list_client = list_table add answer"
  "\<exists>add answer. cl_sensors list_client = list_table add answer"
  "\<exists>add answer. cl_readings list_client = list_table add answer"
  "\<exists>add answer. cl_statuses list_client = list_table add answer"
  "\<exists>add answer. cl_errors list_client = list_table add answer"
  "\<exists>add answer. cl_sensor_statuses list_client = list_table add answer"
  by (simp_all add: list_client_def) blast+

lemma list_inserts_Ok:
  assumes "ch_client m = list_client"
  shows "fst (insert_rows cl_dispatchers table r1 m) = Ok ()" "fst (insert_rows cl_devices table r2 m) = Ok ()"
    "fst (insert_rows cl_sensors table r3 m) = Ok ()" "fst (insert_rows cl_readings table r4 m) = Ok ()"
    "fst (insert_rows cl_statuses table r5 m) = Ok ()" "fst (insert_rows cl_errors table r6 m) = Ok ()"
    "fst (insert_rows cl_sensor_statuses table r7 m) = Ok ()"
  using list_insert_Ok [OF assms] list_tables by metis+

lemma list_registry_client [simp]: "ch_client list_registry = list_client"
  by (simp add: list_registry_def)

lemma list_registry_inv:
  "chp_inv sample_ulid_codec tb_dispatchers list_registry"
  "chd_inv sample_ulid_codec tb_devices tb_sensors list_registry"
  "chr_inv sample_ulid_codec (\<lambda>db. mset (tb_readings db)) list_registry"
  by (simp_all add: chp_inv_def chd_inv_def chr_inv_def list_registry_def sample_ulid_codec_ok list_dispatcher_server
      list_device_server list_reading_server clock_forward_def version_at_def device_rows_ok_def sensor_rows_ok_def)

subsection \<open>The dispatcher registry and the in-memory registry\<close>

fun chp_step ::
    "ulid_codec \<Rightarrow> dispatcher_op \<Rightarrow> ('db, 'ce) ch_registry \<Rightarrow> (unit, 'ce ClickHouseError) result \<times> ('db, 'ce) ch_registry" where
  "chp_step uc (Register_dispatcher d) m = chp_register uc d m"
| "chp_step uc (Suspend_dispatcher i) m = chp_suspend uc i m"

text \<open>A run, with the operations that returned \<open>Ok\<close>.\<close>

fun chp_run ::
    "ulid_codec \<Rightarrow> dispatcher_op list \<Rightarrow> ('db, 'ce) ch_registry \<Rightarrow> dispatcher_op list \<times> ('db, 'ce) ch_registry" where
  "chp_run uc [] m = ([], m)"
| "chp_run uc (oper # opers) m =
     (let (r, m') = chp_step uc oper m; (done_ops, m'') = chp_run uc opers m'
      in (case r of Inl _ \<Rightarrow> done_ops | Inr _ \<Rightarrow> oper # done_ops, m''))"

definition ch_same :: "ulid_codec \<Rightarrow> ('db \<Rightarrow> ch_dispatcher_row list) \<Rightarrow> ('db, 'ce) ch_registry \<Rightarrow> InMemoryDispatcherRegistry \<Rightarrow> bool" where
  "ch_same uc rows m n \<longleftrightarrow>
     chp_inv uc rows m \<and> rows_ok disp_id (dispatchers n) \<and>
     (\<forall>i. chp_get uc i m = Ok (map_option dispatcher_kept (hm_get (dispatchers n) i))) \<and>
     (\<forall>i d. hm_get (dispatchers n) i = Some d \<longrightarrow> dispatcher_valid d)"

lemma ch_same_register:
  assumes "ch_same uc rows m n" and "dispatcher_valid d" and "dispatcher_kept d' = dispatcher_kept d"
    and "disp_id d' = disp_id d" and "dispatcher_valid d'"
  shows "case chp_register uc d m of
      (Inl _, m') \<Rightarrow> ch_same uc rows m' n
    | (Inr _, m') \<Rightarrow> ch_same uc rows m' (n\<lparr>dispatchers := hm_insert (disp_id d') d' (dispatchers n)\<rparr>)"
proof -
  have inv: "chp_inv uc rows m" using assms(1) by (simp add: ch_same_def)
  obtain r m' where r: "chp_register uc d m = (r, m')" by fastforce
  have inv': "chp_inv uc rows m'" using chp_inv_register [OF inv assms(2)] r by simp
  show ?thesis
  proof (cases r)
    case (Inl e)
    with clickhouse_dispatcher_rows.get_put_err [OF inv, of d e m'] r inv' assms(1) show ?thesis
      by (simp add: ch_same_def)
  next
    case (Inr u)
    with chp_get_register [OF inv assms(2), of m'] r inv' assms show ?thesis
      by (auto simp: ch_same_def hm_simps)
  qed
qed

lemma ch_same_step:
  assumes "ch_same uc rows m n" and "op_valid oper"
  shows "case chp_step uc oper m of
      (Inl _, m') \<Rightarrow> ch_same uc rows m' n
    | (Inr _, m') \<Rightarrow> ch_same uc rows m' (imp_step oper n)"
proof (cases oper)
  case (Register_dispatcher d)
  with ch_same_register [OF assms(1), of d d] assms(2) show ?thesis
    by (simp add: imp_register_def split: prod.splits sum.splits)
next
  case (Suspend_dispatcher i)
  show ?thesis
  proof (cases "hm_get (dispatchers n) i")
    case None
    with assms(1) Suspend_dispatcher show ?thesis
      by (simp add: chp_suspend_def ch_same_def)
  next
    case (Some d)
    with assms(1) have d: "dispatcher_valid d" "disp_id d = i" "chp_get uc i m = Ok (Some (dispatcher_kept d))"
      by (auto simp: ch_same_def rows_ok_def)
    with ch_same_register [OF assms(1), of "dispatcher_kept d\<lparr>disp_state := Dispatcher_Suspended\<rparr>"
        "d\<lparr>disp_state := Dispatcher_Suspended\<rparr>"] Some Suspend_dispatcher
    show ?thesis by (simp add: chp_suspend_def imp_defs split: prod.splits sum.splits)
  qed
qed

lemma ch_same_run:
  "ch_same uc rows m n \<Longrightarrow> list_all op_valid opers \<Longrightarrow>
     ch_same uc rows (snd (chp_run uc opers m)) (fold imp_step (fst (chp_run uc opers m)) n)"
proof (induction opers arbitrary: m n)
  case (Cons oper opers)
  obtain r m' where r: "chp_step uc oper m = (r, m')" by fastforce
  obtain ops' m'' where run: "chp_run uc opers m' = (ops', m'')" by fastforce
  from ch_same_step [OF Cons.prems(1), of oper] Cons.prems(2) r
  have "ch_same uc rows m' (case r of Inl _ \<Rightarrow> n | Inr _ \<Rightarrow> imp_step oper n)" by (simp split: sum.splits)
  from Cons.IH [OF this] Cons.prems(2) r run show ?case by (simp split: sum.splits)
qed simp

text \<open>
  C14.  Hello with ClickHouse.  Starting from an empty table, after any registrations and suspensions,
  of which ClickHouse may refuse some, prime answers every hello as it would from an in-memory registry
  on which exactly the operations that returned \<open>Ok\<close> were performed, provided the table is a
  \<open>ReplacingMergeTree\<close> and the clock of prime does not go back.
\<close>

theorem clickhouse_hello:
  assumes "chp_inv uc rows m" and "rows (ch_db m) = []" and "list_all op_valid opers"
    and "chp_run uc opers m = (done_ops, m')"
  shows "fst (prime_on_hello (clickhouse_dispatchers uc) h i
      \<lparr>dispatcher_registry = m', device_registry = dv, reading_registry = rd, device_status_registry = sr\<rparr>) =
    fst (prime_on_hello (in_memory_dispatchers ord) h i
      \<lparr>dispatcher_registry = fold imp_step done_ops InMemoryDispatcherRegistry_new, device_registry = dv,
       reading_registry = rd, device_status_registry = sr\<rparr>)"
proof -
  have "ch_same uc rows m InMemoryDispatcherRegistry_new"
    using assms(1,2) by (simp add: ch_same_def chp_inv_def chp_get_final [where rows = rows] InMemoryDispatcherRegistry_new_def)
  from ch_same_run [OF this assms(3)] assms(4) show ?thesis
    by (auto simp: prime_on_hello_def clickhouse_dispatchers_def in_memory_dispatchers_def imp_get_def
        ch_same_def split: option.split)
qed

lemmas sample_valid_defs = dispatcher_valid_def timestamp_valid_def as_second_def MIN_SECOND_def MAX_SECOND_def sample_dispatcher_def

lemma list_run_suspended:
  "fst (chp_run sample_ulid_codec
      [Register_dispatcher (sample_dispatcher 7 Dispatcher_Active), Suspend_dispatcher (DispatcherId 7)] list_registry) =
    [Register_dispatcher (sample_dispatcher 7 Dispatcher_Active), Suspend_dispatcher (DispatcherId 7)]"
proof -
  let ?d = "sample_dispatcher 7 Dispatcher_Active" and ?uc = sample_ulid_codec
  have ok: "fst (chp_register ?uc d m) = Ok ()" if "ch_client m = list_client" for d and m :: "(ch_tables, unit) ch_registry"
    using that by (simp add: chp_register_def list_inserts_Ok)
  obtain m1 where m1: "chp_register ?uc ?d list_registry = (Ok (), m1)"
    using ok [of list_registry ?d] by (metis list_registry_client prod.collapse)
  have client: "ch_client m1 = list_client"
    using chp_register_simps(1) [of ?uc ?d list_registry] m1 by simp
  have "dispatcher_valid ?d" by (simp add: sample_valid_defs)
  then have "chp_get ?uc (DispatcherId 7) m1 = Ok (Some (dispatcher_kept ?d))"
    using chp_get_register [OF list_registry_inv(1) _ m1, of "DispatcherId 7"] by simp
  then have "fst (chp_suspend ?uc (DispatcherId 7) m1) = Ok ()"
    using ok [OF client] by (simp add: chp_suspend_def)
  with m1 show ?thesis by (cases "chp_suspend ?uc (DispatcherId 7) m1") simp
qed

theorem clickhouse_hello_witness:
  "fst (prime_on_hello (clickhouse_dispatchers sample_ulid_codec)
      \<lparr>hello_dispatcher_id = DispatcherId 7, hello_location = H3Cell 1\<rparr> (MessageId 1)
      \<lparr>dispatcher_registry = snd (chp_run sample_ulid_codec
         [Register_dispatcher (sample_dispatcher 7 Dispatcher_Active), Suspend_dispatcher (DispatcherId 7)] list_registry),
       device_registry = (), reading_registry = (), device_status_registry = ()\<rparr>) = Rejected DispatcherSuspended"
proof -
  let ?ops = "[Register_dispatcher (sample_dispatcher 7 Dispatcher_Active), Suspend_dispatcher (DispatcherId 7)]"
  have "list_all op_valid ?ops" by (simp add: sample_valid_defs)
  moreover have "tb_dispatchers (ch_db list_registry) = []" by (simp add: list_registry_def)
  moreover have "chp_run sample_ulid_codec ?ops list_registry = (?ops, snd (chp_run sample_ulid_codec ?ops list_registry))"
    using list_run_suspended by (metis prod.collapse)
  ultimately show ?thesis
    using clickhouse_hello [OF list_registry_inv(1), of ?ops ?ops _ "\<lparr>hello_dispatcher_id = DispatcherId 7, hello_location = H3Cell 1\<rparr>"
        "MessageId 1" "()" "()" "()" forward_order]
    by (simp add: prime_on_hello_def in_memory_dispatchers_def imp_defs hm_simps InMemoryDispatcherRegistry_new_def)
qed

subsection \<open>The device registry\<close>


lemma list_register_device_Ok:
  assumes "ch_client m = list_client"
  shows "\<exists>m'. chd_register uc d m = (Ok (), m') \<and> ch_client m' = list_client"
proof -
  let ?m = "m\<lparr>ch_tick := Suc (ch_tick m)\<rparr>"
  let ?row = "ch_device_to_row uc (version_at m (ch_tick m)) d"
  obtain m1 where m1: "insert_rows cl_devices ''devices'' [?row] ?m = (Ok (), m1)"
    using list_inserts_Ok(2) [of ?m] assms by (metis ch_registry.select_convs(1) ch_registry.surjective ch_registry.update_convs(4) prod.collapse)
  have c1: "ch_client m1 = list_client"
    using insert_rows_clientD [OF m1] assms by simp
  have "cl_insert list_client t db = Ok ()" for t db by (simp add: list_client_def)
  then have "fst (store_sensors uc (dev_id d) (dev_sensors d) m1) = Ok ()"
    using c1 by (simp add: store_sensors_def Let_def list_inserts_Ok)
  moreover have "ch_client (snd (store_sensors uc (dev_id d) (dev_sensors d) m1)) = list_client" using c1 by simp
  ultimately show ?thesis
    using m1 by (cases "store_sensors uc (dev_id d) (dev_sensors d) m1") (simp add: chd_register_def then_do_def)
qed


subsection \<open>Deliveries\<close>

text \<open>
  C15.  Readings in ClickHouse.  After batches that all succeeded the count has grown by the number of
  readings delivered, a reading that was delivered twice included (the in-memory and SQLite registries
  count it once).  A lookup of an identifier that was not stored before returns one of the delivered
  readings with it, exact up to the fraction of a second.
\<close>

theorem clickhouse_reading_deliveries:
  assumes "chr_inv uc rows m" and "list_all (list_all reading_valid) batches"
    and "try_each (chr_batch_store uc) batches m = (Ok u, m')"
    and "size (rows (ch_db m)) + length (concat batches) < 2 ^ 64"
  shows "chr_count uc None m' = Ok (size (rows (ch_db m)) + length (concat batches)) \<and>
    (\<forall>r \<in> set (concat batches). chr_get uc (rd_id r) m = Ok None \<longrightarrow>
       (\<exists>r' \<in> set (concat batches). rd_id r' = rd_id r \<and>
          chr_get uc (rd_id r) m' = Ok (Some (r'\<lparr>rd_timestamp := whole_second (rd_timestamp r')\<rparr>))))"
proof -
  note run = chr_batches_rows [OF assms(1-3)]
  have uc: "ulid_codec_ok uc" using assms(1) by (simp add: chr_inv_def)
  let ?new = "map (ch_reading_to_row uc) (concat batches)"
  have "cl_fetch_one (ch_client m') ''SELECT count() FROM sensor_readings'' [] (ch_db m') = Ok (of_nat (size (rows (ch_db m'))))"
    using run by (simp add: chr_inv_def reading_server_def)
  then have "chr_count uc None m' = Ok (unat (of_nat (size (rows (ch_db m'))) :: u64))"
    by (simp add: chr_count_def query_count_def chr_build_count_query_def)
  moreover have size: "size (rows (ch_db m')) = size (rows (ch_db m)) + length (concat batches)"
    unfolding conjunct2 [OF run] by simp
  moreover have "unat (of_nat (size (rows (ch_db m'))) :: u64) = size (rows (ch_db m'))"
    using assms(4) unfolding size [symmetric] by (simp add: unat_of_nat)
  ultimately have count: "chr_count uc None m' = Ok (size (rows (ch_db m)) + length (concat batches))"
    by simp
  have "\<exists>r' \<in> set (concat batches). rd_id r' = rd_id r \<and> chr_get uc (rd_id r) m' = Ok (Some (reading_kept r'))"
    if r: "r \<in> set (concat batches)" and none: "chr_get uc (rd_id r) m = Ok None" for r
  proof -
    let ?k = "uc_show uc (reading_ulid (rd_id r))"
    have old: "?k \<notin> cr_id ` set_mset (rows (ch_db m))"
      using chr_get_spec [OF assms(1), of "rd_id r"] none by simp
    have "?k \<in> cr_id ` set_mset (rows (ch_db m'))"
      using imageI [OF r, of "\<lambda>x. cr_id (ch_reading_to_row uc x)"]
      unfolding conjunct2 [OF run] by (auto simp: cr_id_to_row image_image image_Un)
    with chr_get_spec [OF conjunct1 [OF run], of "rd_id r"] obtain q where
      q: "reading_valid q" "ch_reading_to_row uc q \<in># rows (ch_db m')" "rd_id q = rd_id r" "chr_get uc (rd_id r) m' = Ok (Some (reading_kept q))"
      by (auto split: sum.splits option.splits)
    have "cr_id (ch_reading_to_row uc q) = ?k" using q(3) by (simp add: ch_reading_to_row_def)
    with old q(2) have "ch_reading_to_row uc q \<in> set ?new" unfolding conjunct2 [OF run] by force
    then obtain r' where r': "r' \<in> set (concat batches)" "ch_reading_to_row uc q = ch_reading_to_row uc r'" by auto
    have valid: "reading_valid r'" using r'(1) assms(2) by (auto simp: list_all_iff)
    have "rd_id r' = rd_id r"
      using arg_cong [OF r'(2), of cr_id] q(3) by (cases "rd_id r'"; cases "rd_id r") (simp add: ch_reading_to_row_def uc_show_inject [OF uc])
    moreover have "chr_get uc (rd_id r) m' = Ok (Some (reading_kept r'))"
      using q(4) r'(2) ch_reading_of_row_to_row [OF uc q(1), where 'a = unit]
        ch_reading_of_row_to_row [OF uc valid, where 'a = unit] by simp
    ultimately show ?thesis using r'(1) by blast
  qed
  with count show ?thesis by (auto simp: reading_kept_def)
qed

lemma list_batch_Ok:
  "ch_client m = list_client \<Longrightarrow> \<exists>m'. try_each (chr_batch_store uc) batches m = (Ok (), m')"
proof (induction batches arbitrary: m)
  case (Cons b batches)
  have "fst (chr_batch_store uc b m) = Ok ()"
    using Cons.prems by (simp add: chr_batch_store_def list_inserts_Ok)
  then obtain m1 where m1: "chr_batch_store uc b m = (Ok (), m1)" by (cases "chr_batch_store uc b m") simp
  then have "ch_client m1 = list_client"
    using chr_batch_store_client [of uc b m] Cons.prems by simp
  from Cons.IH [OF this] m1 show ?case by simp
qed simp

theorem clickhouse_reading_deliveries_witness:
  "\<exists>m'. try_each (chr_batch_store sample_ulid_codec) [[sample_reading 1 2], [sample_reading 1 2]] list_registry = (Ok (), m') \<and>
     chr_count sample_ulid_codec None m' = Ok 2 \<and>
     chr_get sample_ulid_codec (ReadingId 1) m' = Ok (Some (sample_reading 1 2))"
proof -
  let ?b = "[[sample_reading 1 2], [sample_reading 1 2]]" and ?rows = "\<lambda>db. mset (tb_readings db)"
  obtain m' where m': "try_each (chr_batch_store sample_ulid_codec) ?b list_registry = (Ok (), m')"
    using list_batch_Ok [OF list_registry_client] by blast
  have "list_all (list_all reading_valid) ?b" by (simp add: sample_reading_valid)
  moreover have size: "size (?rows (ch_db list_registry)) = 0" by (simp add: list_registry_def)
  ultimately have r: "chr_count sample_ulid_codec None m' = Ok 2 \<and>
      (\<forall>r \<in> {sample_reading 1 2}. chr_get sample_ulid_codec (rd_id r) list_registry = Ok None \<longrightarrow>
       (\<exists>r' \<in> {sample_reading 1 2}. rd_id r' = rd_id r \<and>
          chr_get sample_ulid_codec (rd_id r) m' = Ok (Some (r'\<lparr>rd_timestamp := whole_second (rd_timestamp r')\<rparr>))))"
    using clickhouse_reading_deliveries [OF list_registry_inv(3) _ m'] by simp
  have "chr_get sample_ulid_codec (ReadingId 1) list_registry = Ok None"
    using chr_get_spec [OF list_registry_inv(3), of "ReadingId 1"] size by (auto split: sum.splits option.splits)
  with r have "chr_get sample_ulid_codec (ReadingId 1) m' = Ok (Some (sample_reading 1 2))"
    by (simp add: sample_reading_def whole_second_def as_second_def)
  with r m' show ?thesis by blast
qed

lemma mset_concat_replicate: "mset (concat (replicate n xs)) = repeat_mset n (mset xs)"
  by (induction n) simp_all

text \<open>The row that the query for one identifier finds, when exactly one row with it was added.\<close>

lemma status_row_found:
  assumes "status_server c S E T" and "set_mset (S db') = set_mset (S db) \<union> {x}"
    and "k \<notin> cx_id ` set_mset (S db)" and "cx_id x = k"
  shows "fetch_optional (cl_statuses c) ''SELECT ?fields FROM device_statuses WHERE id = ?'' [k] db' = Ok (Some x)"
proof -
  have "\<forall>k db. \<exists>row. fetch_optional (cl_statuses c) ''SELECT ?fields FROM device_statuses WHERE id = ?'' [k] db = Ok row \<and>
        (case row of None \<Rightarrow> k \<notin> cx_id ` set_mset (S db) | Some r \<Rightarrow> r \<in># S db \<and> cx_id r = k)"
    using assms(1) by (simp add: status_server_def)
  then obtain row where row: "fetch_optional (cl_statuses c)
        ''SELECT ?fields FROM device_statuses WHERE id = ?'' [k] db' = Ok row"
      "case row of None \<Rightarrow> k \<notin> cx_id ` set_mset (S db') | Some r \<Rightarrow> r \<in># S db' \<and> cx_id r = k"
    by blast
  have "row = Some x"
  proof (cases row)
    case None
    with row(2) assms(2,4) show ?thesis by auto
  next
    case (Some r)
    with row(2) have r: "r \<in># S db'" "cx_id r = k" by simp_all
    with assms(3) have "r \<notin># S db" by (metis imageI)
    with assms(2) r(1) Some show ?thesis by auto
  qed
  with row(1) show ?thesis by simp
qed

text \<open>
  C16.  Statuses in ClickHouse.  A status that is stored \<open>n\<close> times, all of them successfully, under an
  identifier that had no rows, is found as it was up to the fractions of seconds, with every error and
  every sensor status \<open>n\<close> times: once if it was delivered once, doubled if it was delivered again.
\<close>

theorem clickhouse_status_deliveries:
  assumes "ulid_codec_ok uc" and "status_server (ch_client m) S E T" and "status_valid st" and "0 < n"
    and "chs_batch_store uc (replicate n st) m = (Ok u, m')"
    and "status_key uc (ds_id st) \<notin> cx_id ` set_mset (S (ch_db m))"
    and "status_key uc (ds_id st) \<notin> ce_status_id ` set_mset (E (ch_db m))"
    and "status_key uc (ds_id st) \<notin> ct_status_id ` set_mset (T (ch_db m))"
  shows "\<exists>es ss. chs_get uc (ds_id st) m' =
      Ok (Some (st\<lparr>ds_timestamp := whole_second (ds_timestamp st), ds_errors := es, ds_sensor_statuses := ss\<rparr>)) \<and>
    mset es = repeat_mset n (mset (ds_errors st)) \<and>
    mset ss = repeat_mset n (mset (map sensor_status_kept (ds_sensor_statuses st)))"
proof -
  let ?k = "status_key uc (ds_id st)" and ?sts = "replicate n st"
  note rows = chs_batch_rows [OF assms(2,5)]
  have srv: "status_server (ch_client m') S E T" using rows assms(2) by simp
  have "set_mset (S (ch_db m')) = set_mset (S (ch_db m)) \<union> {ch_status_to_row uc st}"
    using rows assms(4) by auto
  from status_row_found [OF srv this assms(6)] have row: "fetch_optional (cl_statuses (ch_client m'))
      ''SELECT ?fields FROM device_statuses WHERE id = ?'' [?k] (ch_db m') = Ok (Some (ch_status_to_row uc st))"
    by (simp add: ch_status_to_row_def)
  have "filter_mset (\<lambda>r. ce_status_id r = ?k) (E (ch_db m)) = {#}"
      "filter_mset (\<lambda>r. ct_status_id r = ?k) (T (ch_db m)) = {#}"
    using assms(7,8) by (auto simp: filter_mset_eq_conv image_iff)
  then have E': "filter_mset (\<lambda>r. ce_status_id r = ?k) (E (ch_db m')) =
        mset (map (ch_error_to_row uc (ds_id st)) (concat (replicate n (ds_errors st))))"
    and T': "filter_mset (\<lambda>r. ct_status_id r = ?k) (T (ch_db m')) =
        mset (map (ch_sensor_status_to_row uc (ds_id st)) (concat (replicate n (ds_sensor_statuses st))))"
    unfolding conjunct1 [OF conjunct2 [OF conjunct2 [OF rows]]] conjunct2 [OF conjunct2 [OF conjunct2 [OF rows]]]
      all_rows_replicate filter_union_mset filter_child_rows by simp_all
  have "set (concat (replicate n (ds_sensor_statuses st))) \<subseteq> set (ds_sensor_statuses st)" by auto
  from fetch_children [OF assms(1) srv assms(3) E' T' this] obtain es ss where
    es: "ch_fetch_errors uc (ds_id st) m' = Ok es" "mset es = mset (concat (replicate n (ds_errors st)))"
    and ss: "ch_fetch_sensor_statuses uc (ds_id st) m' = Ok ss"
      "mset ss = mset (map sensor_status_kept (concat (replicate n (ds_sensor_statuses st))))"
    by blast
  have "chs_get uc (ds_id st) m' =
      Ok (Some (st\<lparr>ds_timestamp := whole_second (ds_timestamp st), ds_errors := es, ds_sensor_statuses := ss\<rparr>))"
    using row ch_map_row_to_status_to_row [OF assms(1,3) es(1) ss(1)]
    by (simp add: chs_get_def query_optional_def)
  moreover have "mset es = repeat_mset n (mset (ds_errors st))"
      "mset ss = repeat_mset n (mset (map sensor_status_kept (ds_sensor_statuses st)))"
    using es(2) ss(2) by (simp_all add: map_concat mset_concat_replicate)
  ultimately show ?thesis by blast
qed

lemma list_store_Ok:
  assumes "ch_client m = list_client"
  shows "\<exists>m'. chs_store uc st m = (Ok (), m') \<and> ch_client m' = list_client"
proof -
  obtain m1 where m1: "insert_rows cl_statuses ''device_statuses'' [ch_status_to_row uc st] m = (Ok (), m1)" "ch_client m1 = list_client"
    using assms list_inserts_Ok(5) [OF assms]
      insert_rows_client(1) [of cl_statuses "''device_statuses''" "[ch_status_to_row uc st]" m] by (metis prod.collapse)
  obtain m2 where m2: "store_errors uc (ds_id st) (ds_errors st) m1 = (Ok (), m2)" "ch_client m2 = list_client"
  proof (cases "ds_errors st = []")
    case False
    with m1(2) list_inserts_Ok(6) [OF m1(2)] insert_rows_client(1) [of cl_errors "''device_status_errors''" _ m1] that
    show thesis unfolding store_errors_def by (metis prod.collapse)
  qed (use m1 that in \<open>simp add: store_errors_def\<close>)
  obtain m3 where "store_sensor_statuses uc (ds_id st) (ds_sensor_statuses st) m2 = (Ok (), m3)" "ch_client m3 = list_client"
  proof (cases "ds_sensor_statuses st = []")
    case False
    with m2(2) list_inserts_Ok(7) [OF m2(2)]
      insert_rows_client(1) [of cl_sensor_statuses "''device_status_sensor_statuses''" _ m2] that
    show thesis unfolding store_sensor_statuses_def by (metis prod.collapse)
  qed (use m2 that in \<open>simp add: store_sensor_statuses_def\<close>)
  with m1 m2 show ?thesis by (simp add: chs_store_def then_do_def)
qed

definition faulty_status :: DeviceStatus where
  "faulty_status = sample_status 1 2 80 []\<lparr>ds_errors := [\<lparr>de_code = SensorFault, de_message = None\<rparr>]\<rparr>"

theorem clickhouse_status_deliveries_witness:
  "\<exists>m' es. chs_batch_store sample_ulid_codec (replicate 2 faulty_status) list_registry = (Ok (), m') \<and>
     chs_get sample_ulid_codec (StatusId 1) m' = Ok (Some (faulty_status\<lparr>ds_errors := es\<rparr>)) \<and>
     mset es = {#\<lparr>de_code = SensorFault, de_message = None\<rparr>, \<lparr>de_code = SensorFault, de_message = None\<rparr>#}"
proof -
  obtain m1 where m1: "chs_store sample_ulid_codec faulty_status list_registry = (Ok (), m1)" "ch_client m1 = list_client"
    using list_store_Ok [OF list_registry_client] by blast
  obtain m2 where m2: "chs_store sample_ulid_codec faulty_status m1 = (Ok (), m2)"
    using list_store_Ok [OF m1(2)] by blast
  have batch: "chs_batch_store sample_ulid_codec (replicate 2 faulty_status) list_registry = (Ok (), m2)"
    using m1(1) m2 by (simp add: chs_batch_store_def numeral_2_eq_2)
  have srv: "status_server (ch_client list_registry) (\<lambda>db. mset (tb_statuses db)) (\<lambda>db. mset (tb_errors db))
      (\<lambda>db. mset (tb_sensor_statuses db))"
    by (simp add: list_status_server)
  have valid: "status_valid faulty_status"
    by (simp add: status_valid_def faulty_status_def sample_status_def timestamp_valid_def as_second_def MIN_SECOND_def MAX_SECOND_def)
  have "\<exists>es ss. chs_get sample_ulid_codec (ds_id faulty_status) m2 =
      Ok (Some (faulty_status\<lparr>ds_timestamp := whole_second (ds_timestamp faulty_status), ds_errors := es, ds_sensor_statuses := ss\<rparr>)) \<and>
    mset es = repeat_mset 2 (mset (ds_errors faulty_status)) \<and>
    mset ss = repeat_mset 2 (mset (map sensor_status_kept (ds_sensor_statuses faulty_status)))"
    by (rule clickhouse_status_deliveries [OF sample_ulid_codec_ok srv valid _ batch]) (simp_all add: list_registry_def)
  then obtain es where es: "chs_get sample_ulid_codec (StatusId 1) m2 = Ok (Some (faulty_status\<lparr>ds_errors := es\<rparr>))"
      "mset es = repeat_mset 2 (mset (ds_errors faulty_status))"
    by (auto simp: faulty_status_def sample_status_def whole_second_def as_second_def)
  have "mset es = {#\<lparr>de_code = SensorFault, de_message = None\<rparr>, \<lparr>de_code = SensorFault, de_message = None\<rparr>#}"
    using es(2) by (simp add: faulty_status_def numeral_2_eq_2)
  with batch es(1) show ?thesis by blast
qed

subsection \<open>Queries\<close>

lemma placeholders_balanced: "balanced c \<Longrightarrow> placeholders (where_text (fst c)) = length (snd c)"
  by (simp add: balanced_def placeholders_where)

lemma where_text_empty: "balanced c \<Longrightarrow> where_text (fst c) = [] \<Longrightarrow> snd c = []"
  by (auto simp: balanced_def where_text_def split: if_splits)

lemma placeholders_chp_sort [simp]: "placeholders (chp_sort_column a) = 0"
  by (cases a) simp_all

lemma placeholders_chd_sort [simp]: "placeholders (chd_sort_column a) = 0"
  by (cases a) simp_all

lemma placeholders_chr_sort [simp]: "placeholders (chr_sort_column a) = 0"
  by (cases a) simp_all

lemma placeholders_chs_sort [simp]: "placeholders (chs_sort_column a) = 0"
  by (cases a) simp_all

text \<open>
  C20.  Placeholders and bindings.  The text of every query has exactly one placeholder for each value
  that is bound to it, besides the marker \<open>?fields\<close> of the queries that select rows, unless the filter
  has a manufacturer pattern with a question mark, which is pasted into the text.
\<close>

theorem clickhouse_queries_bound:
  assumes "pred_option (\<lambda>f. pred_option (\<lambda>pattern. CHR ''?'' \<notin> set pattern) (df_manufacturer_pattern f)) df"
    and "pred_option (\<lambda>pattern. CHR ''?'' \<notin> set pattern) (df_manufacturer_pattern (qo_filter dq))"
  shows "placeholders (fst (chp_build_count_query pf)) = length (snd (chp_build_count_query pf)) \<and>
    placeholders (fst (chp_build_list_query pq)) = 1 + length (snd (chp_build_list_query pq)) \<and>
    placeholders (fst (chd_build_count_query uc df)) = length (snd (chd_build_count_query uc df)) \<and>
    placeholders (fst (chd_build_list_query uc dq)) = 1 + length (snd (chd_build_list_query uc dq)) \<and>
    placeholders (fst (chr_build_count_query uc rf)) = length (snd (chr_build_count_query uc rf)) \<and>
    placeholders (fst (chr_build_list_query uc rq)) = 1 + length (snd (chr_build_list_query uc rq)) \<and>
    placeholders (fst (chs_build_count_query uc sf)) = length (snd (chs_build_count_query uc sf)) \<and>
    placeholders (fst (chs_build_list_query uc sq)) = length (snd (chs_build_list_query uc sq))"
proof -
  note w = placeholders_balanced where_text_empty
  note b = chp_balanced chr_balanced chs_balanced
  have d: "balanced (chd_where_conditions uc f)" if "df = Some f" for f
    using assms(1) that by (intro chd_balanced) simp
  have d': "balanced (chd_where_conditions uc (qo_filter dq))" by (rule chd_balanced [OF assms(2)])
  have p: "placeholders (fst (chp_build_count_query pf)) = length (snd (chp_build_count_query pf))"
      "placeholders (fst (chp_build_list_query pq)) = 1 + length (snd (chp_build_list_query pq))"
    using w(1) [OF b(1)] w(2) [OF b(1)] by (simp_all add: chp_build_count_query_def chp_build_list_query_def chp_build_where_clause_def
        Let_def split_beta split: option.split)
  have v: "placeholders (fst (chd_build_count_query uc df)) = length (snd (chd_build_count_query uc df))"
      "placeholders (fst (chd_build_list_query uc dq)) = 1 + length (snd (chd_build_list_query uc dq))"
    using w(1) [OF d] w(2) [OF d] w(1) [OF d'] by (simp_all add: chd_build_count_query_def chd_build_list_query_def chd_build_where_clause_def
        Let_def split_beta split: option.split)
  have r: "placeholders (fst (chr_build_count_query uc rf)) = length (snd (chr_build_count_query uc rf))"
      "placeholders (fst (chr_build_list_query uc rq)) = 1 + length (snd (chr_build_list_query uc rq))"
    using w(1) [OF b(2)] w(2) [OF b(2)] by (simp_all add: chr_build_count_query_def chr_build_list_query_def chr_build_where_clause_def
        Let_def split_beta split: option.split)
  have s: "placeholders (fst (chs_build_count_query uc sf)) = length (snd (chs_build_count_query uc sf))"
      "placeholders (fst (chs_build_list_query uc sq)) = length (snd (chs_build_list_query uc sq))"
    using w(1) [OF b(3)] w(2) [OF b(3)] by (simp_all add: chs_build_count_query_def chs_build_list_query_def chs_build_clauses_def
        Let_def split_beta split: option.split)
  show ?thesis by (intro conjI p v r s)
qed

theorem clickhouse_queries_bound_witness:
  "placeholders (fst (chd_build_list_query sample_ulid_codec
      \<lparr>qo_filter = DeviceFilter_default\<lparr>df_ids := Some [DeviceId 1, DeviceId 2], df_manufacturer_pattern := Some ''ab''\<rparr>,
       qo_sort_by = DevBy_State, qo_sort_order = Asc, qo_pagination = Offset 0 10\<rparr>)) = 3"
  using clickhouse_queries_bound [of None
      "\<lparr>qo_filter = DeviceFilter_default\<lparr>df_ids := Some [DeviceId 1, DeviceId 2], df_manufacturer_pattern := Some ''ab''\<rparr>,
       qo_sort_by = DevBy_State, qo_sort_order = Asc, qo_pagination = Offset 0 10\<rparr>"]
  by (simp add: chd_build_list_query_def chd_build_where_clause_def chd_where_conditions_def DeviceFilter_default_def
      push_in_bound_def push_in_values_def push_opt_def)

text \<open>
  The manufacturer pattern is pasted into the text as it is: a quote ends the literal, and a question
  mark is a placeholder for which nothing is bound.
\<close>

lemma clickhouse_pattern_pasted:
  "chd_build_where_clause uc (DeviceFilter_default\<lparr>df_manufacturer_pattern := Some pattern\<rparr>) =
     ('' WHERE manufacturer LIKE '' @ [CHR 0x27] @ ''%'' @ pattern @ ''%'' @ [CHR 0x27], [])"
  "placeholders (fst (chd_build_where_clause uc (DeviceFilter_default\<lparr>df_manufacturer_pattern := Some ''?''\<rparr>))) = 1"
  by (simp_all add: chd_build_where_clause_def chd_where_conditions_def DeviceFilter_default_def push_in_bound_def
      push_in_values_def push_opt_def where_text_def)

text \<open>A registration at a time before the version in the table is accepted and never seen.\<close>

lemma clickhouse_clock_back:
  assumes "dispatcher_server (ch_client m) rows"
    and "final_row cp_id cp_version (rows (ch_db m)) (uc_show uc (dispatcher_ulid (disp_id d))) = Some r"
    and "version_at m (ch_tick m) < cp_version r" and "chp_register uc d m = (Ok (), m')"
  shows "chp_get uc (disp_id d) m' = chp_get uc (disp_id d) m"
proof -
  have m': "ch_client m' = ch_client m"
      "rows (ch_db m') = rows (ch_db m) @ [ch_dispatcher_to_row uc (version_at m (ch_tick m)) d]"
    using chp_register_simps(1) [of uc d m] chp_register_rows [OF assms(1), of uc d] assms(4) by simp_all
  show ?thesis
    using assms(1,2) m' assms(3) [folded not_le]
    by (auto simp: chp_get_final [where rows = rows] final_row_snoc cp_version_to_row)
qed

text \<open>
  The conditions of the queries.  The \<open>WHERE\<close> clause for readings is the list of conditions of the
  filter joined by \<open>AND\<close>, with the bound values in the order of the placeholders, and a reading satisfies
  these conditions in ClickHouse exactly when the SQLite registry selects it; the same for dispatchers.
\<close>

lemma clickhouse_filters_agree:
  "chr_build_where_clause uc rf =
     (where_text (map condition_text (chr_conditions uc rf)), concat (map condition_bindings (chr_conditions uc rf))) \<and>
   list_all (holds (reading_columns (ch_reading_to_row uc r))) (chr_conditions uc rf) =
     reading_where uc rf (reading_to_row uc r) \<and>
   chp_build_where_clause pf =
     (where_text (map condition_text (chp_conditions pf)), concat (map condition_bindings (chp_conditions pf))) \<and>
   list_all (holds (dispatcher_columns (ch_dispatcher_to_row uc v d))) (chp_conditions pf) =
     dispatcher_where pf (dispatcher_to_row uc d)"
  using chr_written [of uc rf] chp_written [of pf]
  by (simp add: chr_conditions_meaning chp_conditions_meaning written_as_def chr_build_where_clause_def
      chp_build_where_clause_def split_beta)



end
