(* ===== verification/Prime_System.thy ===== *)
theory Prime_System
  imports Prime_Client
begin

text \<open>
  Prime as a concurrent program.  Every connection runs its handlers in a task of its own
  (\<open>ersha-rpc/src/server.rs\<close>), the HTTP server runs beside them, and all share the registries
  (\<open>run_server\<close> in \<open>ersha-prime/src/main.rs\<close>).  The batch handler awaits a registry once for every
  event it checks, and the in-memory registries lock their table once for every event they store, so
  other tasks may run between any two of these accesses.

  An upload in progress is the record \<open>upload_task\<close> of the local variables of the handler, and
  \<open>upload_step\<close> is its run from one access to the next.  \<open>prime_step\<close> is the relation of all steps of
  the server.  The reasoning is by rely and guarantee: registries only grow, which the locale
  \<open>growing_tasks\<close> states for tasks in general.
\<close>

subsection \<open>An upload in steps\<close>

datatype upload_phase = Check_readings | Check_statuses | Store_readings | Store_statuses | Upload_done

record upload_task =
  ut_request :: BatchUploadRequest
  ut_phase :: upload_phase
  ut_readings_left :: "SensorReading list"
  ut_statuses_left :: "DeviceStatus list"
  ut_valid_readings :: "SensorReading list"
  ut_valid_statuses :: "DeviceStatus list"
  ut_rejected_readings :: u32
  ut_rejected_statuses :: u32
  ut_readings_stored :: u32
  ut_statuses_stored :: u32

definition upload_start :: "BatchUploadRequest \<Rightarrow> upload_task" where
  "upload_start request =
     \<lparr>ut_request = request, ut_phase = Check_readings, ut_readings_left = bu_readings request,
      ut_statuses_left = bu_statuses request, ut_valid_readings = [], ut_valid_statuses = [],
      ut_rejected_readings = 0, ut_rejected_statuses = 0, ut_readings_stored = 0, ut_statuses_stored = 0\<rparr>"

text \<open>The loops over the readings and the statuses, each on one event.\<close>

definition check_reading :: "SensorReading \<Rightarrow> upload_task \<Rightarrow> mem_app \<Rightarrow> upload_task" where
  "check_reading r t a =
     (if mem_known a (rd_device_id r) then t\<lparr>ut_valid_readings := ut_valid_readings t @ [r]\<rparr>
      else t\<lparr>ut_rejected_readings := ut_rejected_readings t + 1\<rparr>)"

definition check_status :: "DeviceStatus \<Rightarrow> upload_task \<Rightarrow> mem_app \<Rightarrow> upload_task" where
  "check_status s t a =
     (if mem_known a (ds_device_id s) then t\<lparr>ut_valid_statuses := ut_valid_statuses t @ [s]\<rparr>
      else t\<lparr>ut_rejected_statuses := ut_rejected_statuses t + 1\<rparr>)"

definition upload_step :: "upload_task \<Rightarrow> mem_app \<Rightarrow> upload_task \<times> mem_app" where
  "upload_step t a =
     (case ut_phase t of
        Check_readings \<Rightarrow>
          (case ut_readings_left t of
             [] \<Rightarrow> (t\<lparr>ut_phase := Check_statuses\<rparr>, a)
           | r # rs \<Rightarrow> (check_reading r (t\<lparr>ut_readings_left := rs\<rparr>) a, a))
      | Check_statuses \<Rightarrow>
          (case ut_statuses_left t of
             [] \<Rightarrow> (t\<lparr>ut_phase := Store_readings,
                     ut_readings_stored := usize_as_u32 (length (ut_valid_readings t)),
                     ut_statuses_stored := usize_as_u32 (length (ut_valid_statuses t))\<rparr>, a)
           | s # ss \<Rightarrow> (check_status s (t\<lparr>ut_statuses_left := ss\<rparr>) a, a))
      | Store_readings \<Rightarrow>
          (case ut_valid_readings t of
             [] \<Rightarrow> (t\<lparr>ut_phase := Store_statuses\<rparr>, a)
           | r # rs \<Rightarrow> (t\<lparr>ut_valid_readings := rs\<rparr>,
                        a\<lparr>reading_registry := snd (imr_store r (reading_registry a))\<rparr>))
      | Store_statuses \<Rightarrow>
          (case ut_valid_statuses t of
             [] \<Rightarrow> (t\<lparr>ut_phase := Upload_done\<rparr>, a)
           | s # ss \<Rightarrow> (t\<lparr>ut_valid_statuses := ss\<rparr>,
                        a\<lparr>device_status_registry := snd (ims_store s (device_status_registry a))\<rparr>))
      | Upload_done \<Rightarrow> (t, a))"

definition upload_response :: "upload_task \<Rightarrow> BatchUploadResponse" where
  "upload_response t =
     \<lparr>br_id = bu_id (ut_request t), br_readings_stored = ut_readings_stored t,
      br_readings_rejected = ut_rejected_readings t, br_statuses_stored = ut_statuses_stored t,
      br_statuses_rejected = ut_rejected_statuses t\<rparr>"

subsection \<open>The server\<close>

record 'g prime_system =
  sys_app :: mem_app
  sys_gen :: 'g
  sys_uploads :: "upload_task list"
  sys_suspends :: "(DispatcherId \<times> Dispatcher) list"

text \<open>The registries that the HTTP interface has clones of, which share their tables with the originals.\<close>

definition api_view :: "mem_app \<Rightarrow> (InMemoryDispatcherRegistry, InMemoryDeviceRegistry) ApiState" where
  "api_view a = \<lparr>api_dispatchers = dispatcher_registry a, api_devices = device_registry a\<rparr>"

definition api_write :: "(InMemoryDispatcherRegistry, InMemoryDeviceRegistry) ApiState \<Rightarrow> mem_app \<Rightarrow> mem_app" where
  "api_write st a = a\<lparr>dispatcher_registry := api_dispatchers st, device_registry := api_devices st\<rparr>"

text \<open>
  \<open>suspend\<close> of the in-memory registry of dispatchers reads a dispatcher and writes it back under two locks:
  \<open>sys_suspends\<close> are the requests between the two.  The other requests lock a table at most once to
  change it, and are one step.  Requests that suspend an unknown dispatcher change nothing.
\<close>

text \<open>What stays the same while the server runs: text forms and the iteration orders of the tables.\<close>

record 'g prime_env =
  pe_api :: "'g api_env"
  pe_decode :: "string \<Rightarrow> string"
  pe_dispatchers :: "(DispatcherId, Dispatcher) hash_order"
  pe_devices :: "(DeviceId, Device) hash_order"
  pe_readings :: "(ReadingId, SensorReading) hash_order"
  pe_statuses :: "(StatusId, DeviceStatus) hash_order"
  pe_lower :: "string \<Rightarrow> string"

definition prime_handlers :: "'g prime_env \<Rightarrow> mem_app \<Rightarrow> mem_app ServerHandlers" where
  "prime_handlers env a =
     server_handlers (prime_server (in_memory_dispatchers (pe_dispatchers env)) (in_memory_devices (pe_devices env) (pe_lower env))
       (in_memory_readings (pe_readings env)) (in_memory_statuses (pe_statuses env)) a)"

inductive prime_step :: "'g prime_env \<Rightarrow> 'g prime_system \<Rightarrow> 'g prime_system \<Rightarrow> bool" for env where
  http:
    "(\<forall>vs. find_route api_routes mt (path_segments path) \<noteq> Some (Ep_suspend_dispatcher, vs)) \<Longrightarrow>
     api_router (pe_api env) (in_memory_dispatchers (pe_dispatchers env)) (in_memory_devices (pe_devices env) (pe_lower env))
       in_memory_error_show (pe_decode env) now mt path p (api_view (sys_app s)) (sys_gen s) = Some (h, st', g') \<Longrightarrow>
     prime_step env s (s\<lparr>sys_app := api_write st' (sys_app s), sys_gen := g'\<rparr>)"
| rpc:
    "(\<forall>request. Rpc_Frame.payload e \<noteq> MsgBatchUploadRequest request) \<Longrightarrow>
     handle_envelope (prime_handlers env (sys_app s)) e (sys_app s) = (reply, close, a') \<Longrightarrow>
     prime_step env s (s\<lparr>sys_app := a'\<rparr>)"
| upload_begins:
    "prime_step env s (s\<lparr>sys_uploads := sys_uploads s @ [upload_start request]\<rparr>)"
| upload_advances:
    "i < length (sys_uploads s) \<Longrightarrow> upload_step (sys_uploads s ! i) (sys_app s) = (t', a') \<Longrightarrow>
     prime_step env s (s\<lparr>sys_app := a', sys_uploads := (sys_uploads s)[i := t']\<rparr>)"
| suspend_reads:
    "find_route api_routes POST (path_segments path) = Some (Ep_suspend_dispatcher, [v]) \<Longrightarrow>
     ulid_parse (pe_api env) (pe_decode env v) = Some u \<Longrightarrow>
     imp_get (DispatcherId u) (dispatcher_registry (sys_app s)) = Ok (Some d) \<Longrightarrow>
     prime_step env s (s\<lparr>sys_suspends := (DispatcherId u, d) # sys_suspends s\<rparr>)"
| suspend_writes:
    "sys_suspends s = ps @ (i, d) # qs \<Longrightarrow>
     prime_step env s (s\<lparr>sys_app := (sys_app s)\<lparr>dispatcher_registry :=
         snd (imp_update i (d\<lparr>disp_state := Dispatcher_Suspended\<rparr>) (dispatcher_registry (sys_app s)))\<rparr>,
       sys_suspends := ps @ qs\<rparr>)"

definition prime_start :: "'g \<Rightarrow> 'g prime_system" where
  "prime_start g =
     \<lparr>sys_app = \<lparr>dispatcher_registry = InMemoryDispatcherRegistry_new, device_registry = InMemoryDeviceRegistry_new,
        reading_registry = InMemoryReadingRegistry_new, device_status_registry = InMemoryDeviceStatusRegistry_new\<rparr>,
      sys_gen = g, sys_uploads = [], sys_suspends = []\<rparr>"


subsection \<open>The steps of one upload\<close>

definition upload_run :: "nat \<Rightarrow> upload_task \<times> mem_app \<Rightarrow> upload_task \<times> mem_app" where
  "upload_run n = (\<lambda>(t, a). upload_step t a) ^^ n"

lemma upload_run_0: "upload_run 0 s = s"
  by (simp add: upload_run_def)

lemma upload_run_Suc: "upload_run (Suc n) (t, a) = upload_run n (upload_step t a)"
  by (simp add: upload_run_def funpow_swap1)

lemma upload_run_trans: "upload_run m s = s' \<Longrightarrow> upload_run n s' = s'' \<Longrightarrow> upload_run (n + m) s = s''"
  by (simp add: upload_run_def funpow_add)

lemmas upload_run_simps = upload_run_0 upload_run_Suc upload_step_def

lemma run_check_readings:
  "ut_phase t = Check_readings \<Longrightarrow> ut_readings_left t = rs \<Longrightarrow>
     upload_run (Suc (length rs)) (t, a) =
       (t\<lparr>ut_phase := Check_statuses, ut_readings_left := [],
         ut_valid_readings := ut_valid_readings t @ filter (\<lambda>r. mem_known a (rd_device_id r)) rs,
         ut_rejected_readings := ut_rejected_readings t + of_nat (length (filter (\<lambda>r. \<not> mem_known a (rd_device_id r)) rs))\<rparr>, a)"
proof (induction rs arbitrary: t)
  case (Cons r rs)
  have "upload_step t a = (check_reading r (t\<lparr>ut_readings_left := rs\<rparr>) a, a)"
    using Cons.prems by (simp add: upload_step_def)
  with Cons.IH [of "check_reading r (t\<lparr>ut_readings_left := rs\<rparr>) a"] Cons.prems(1) show ?case
    unfolding list.size add_0_right add_Suc_right upload_run_Suc [of "Suc (length rs)"]
    by (simp add: check_reading_def add.assoc)
qed (simp add: upload_run_simps)

lemma run_check_statuses:
  "ut_phase t = Check_statuses \<Longrightarrow> ut_statuses_left t = ss \<Longrightarrow>
     upload_run (Suc (length ss)) (t, a) =
       (t\<lparr>ut_phase := Store_readings, ut_statuses_left := [],
         ut_valid_statuses := ut_valid_statuses t @ filter (\<lambda>s. mem_known a (ds_device_id s)) ss,
         ut_rejected_statuses := ut_rejected_statuses t + of_nat (length (filter (\<lambda>s. \<not> mem_known a (ds_device_id s)) ss)),
         ut_readings_stored := usize_as_u32 (length (ut_valid_readings t)),
         ut_statuses_stored :=
           usize_as_u32 (length (ut_valid_statuses t @ filter (\<lambda>s. mem_known a (ds_device_id s)) ss))\<rparr>, a)"
proof (induction ss arbitrary: t)
  case (Cons s ss)
  have "upload_step t a = (check_status s (t\<lparr>ut_statuses_left := ss\<rparr>) a, a)"
    using Cons.prems by (simp add: upload_step_def)
  with Cons.IH [of "check_status s (t\<lparr>ut_statuses_left := ss\<rparr>) a"] Cons.prems(1) show ?case
    unfolding list.size add_0_right add_Suc_right upload_run_Suc [of "Suc (length ss)"]
    by (simp add: check_status_def add.assoc)
qed (simp add: upload_run_simps)

lemma run_store_readings:
  "ut_phase t = Store_readings \<Longrightarrow> ut_valid_readings t = rs \<Longrightarrow>
     upload_run (Suc (length rs)) (t, a) =
       (t\<lparr>ut_phase := Store_statuses, ut_valid_readings := []\<rparr>,
        a\<lparr>reading_registry := snd (imr_batch_store rs (reading_registry a))\<rparr>)"
proof (induction rs arbitrary: t a)
  case (Cons r rs)
  let ?a = "a\<lparr>reading_registry := snd (imr_store r (reading_registry a))\<rparr>"
  have "upload_step t a = (t\<lparr>ut_valid_readings := rs\<rparr>, ?a)"
    using Cons.prems by (simp add: upload_step_def)
  with Cons.IH [of "t\<lparr>ut_valid_readings := rs\<rparr>" ?a] Cons.prems(1) show ?case
    unfolding list.size add_0_right add_Suc_right upload_run_Suc [of "Suc (length rs)"]
    by (simp add: imr_batch_store_def imr_store_def)
qed (simp add: upload_run_simps imr_batch_store_def)

lemma run_store_statuses:
  "ut_phase t = Store_statuses \<Longrightarrow> ut_valid_statuses t = ss \<Longrightarrow>
     upload_run (Suc (length ss)) (t, a) =
       (t\<lparr>ut_phase := Upload_done, ut_valid_statuses := []\<rparr>,
        a\<lparr>device_status_registry := snd (ims_batch_store ss (device_status_registry a))\<rparr>)"
proof (induction ss arbitrary: t a)
  case (Cons s ss)
  let ?a = "a\<lparr>device_status_registry := snd (ims_store s (device_status_registry a))\<rparr>"
  have "upload_step t a = (t\<lparr>ut_valid_statuses := ss\<rparr>, ?a)"
    using Cons.prems by (simp add: upload_step_def)
  with Cons.IH [of "t\<lparr>ut_valid_statuses := ss\<rparr>" ?a] Cons.prems(1) show ?case
    unfolding list.size add_0_right add_Suc_right upload_run_Suc [of "Suc (length ss)"]
    by (simp add: ims_batch_store_def ims_store_def)
qed (simp add: upload_run_simps ims_batch_store_def)

text \<open>From any point of an upload its own steps lead to the end.\<close>

lemma upload_ends_after:
  assumes "upload_run m s = s1" and "\<exists>n t' a'. upload_run n s1 = (t', a') \<and> ut_phase t' = Upload_done"
  shows "\<exists>n t' a'. upload_run n s = (t', a') \<and> ut_phase t' = Upload_done"
  using assms upload_run_trans by blast

lemma upload_terminates: "\<exists>n t' a'. upload_run n (t, a) = (t', a') \<and> ut_phase t' = Upload_done"
proof -
  have storing: "\<exists>n t' a'. upload_run n (t, a) = (t', a') \<and> ut_phase t' = Upload_done" if "ut_phase t = Store_statuses" for t a
    by (rule upload_ends_after [OF run_store_statuses [OF that refl]]) (intro exI [of _ 0], simp add: upload_run_0)
  have readings: "\<exists>n t' a'. upload_run n (t, a) = (t', a') \<and> ut_phase t' = Upload_done" if "ut_phase t = Store_readings" for t a
    by (rule upload_ends_after [OF run_store_readings [OF that refl]], rule storing) simp
  have statuses: "\<exists>n t' a'. upload_run n (t, a) = (t', a') \<and> ut_phase t' = Upload_done" if "ut_phase t = Check_statuses" for t a
    by (rule upload_ends_after [OF run_check_statuses [OF that refl]], rule readings) simp
  show ?thesis
  proof (cases "ut_phase t")
    case Check_readings
    show ?thesis by (rule upload_ends_after [OF run_check_readings [OF Check_readings refl]], rule statuses) simp
  next
    case Upload_done
    then show ?thesis using upload_run_0 by blast
  qed (use storing readings statuses in blast)+
qed

text \<open>
  The steps of an upload.  An upload that no other task interrupts is done after at most two steps
  for each event and four more, with the response and the registries of the batch handler.
\<close>

lemma upload_sequential:
  "\<exists>n t a'. n \<le> 2 * length (bu_readings request) + 2 * length (bu_statuses request) + 4 \<and>
     upload_run n (upload_start request, a) = (t, a') \<and> ut_phase t = Upload_done \<and>
     (upload_response t, a') = mem_on_batch_upload dord low rord sord request i a"
proof -
  let ?rs = "filter (\<lambda>r. mem_known a (rd_device_id r)) (bu_readings request)"
  let ?ss = "filter (\<lambda>s. mem_known a (ds_device_id s)) (bu_statuses request)"
  let ?n = "Suc (length ?ss) + (Suc (length ?rs) + (Suc (length (bu_statuses request)) + Suc (length (bu_readings request))))"
  obtain t a' where run: "upload_run ?n (upload_start request, a) = (t, a')" by fastforce
  have "ut_phase t = Upload_done \<and> (upload_response t, a') = mem_on_batch_upload dord low rord sord request i a"
    using upload_run_trans [OF upload_run_trans [OF upload_run_trans
      [OF run_check_readings [of "upload_start request", OF _ refl, of a] run_check_statuses [OF _ refl]]
      run_store_readings [OF _ refl]] run_store_statuses [OF _ refl]] run
    by (auto simp: upload_start_def mem_on_batch_upload_eq upload_response_def Let_def usize_as_u32_def)
  moreover have "?n \<le> 2 * length (bu_readings request) + 2 * length (bu_statuses request) + 4"
    using length_filter_le [of "\<lambda>r. mem_known a (rd_device_id r)" "bu_readings request"]
      length_filter_le [of "\<lambda>s. mem_known a (ds_device_id s)" "bu_statuses request"] by linarith
  ultimately show ?thesis using run by blast
qed

subsection \<open>Tasks on a state that grows\<close>

text \<open>
  Tasks share a state.  The order \<open>grows\<close> is what every task may rely on: whatever runs, the state only
  grows, and what a task knows of the state stays true of a state that has grown.
\<close>

locale growing_tasks =
  fixes step :: "'t \<Rightarrow> 'a \<Rightarrow> 't \<times> 'a"
    and grows :: "'a \<Rightarrow> 'a \<Rightarrow> bool"
    and good :: "'a \<Rightarrow> bool"
    and task_ok :: "'t \<Rightarrow> 'a \<Rightarrow> bool"
  assumes grows_refl: "grows a a"
    and grows_trans: "grows a b \<Longrightarrow> grows b c \<Longrightarrow> grows a c"
    and step_grows: "good a \<Longrightarrow> step t a = (t', a') \<Longrightarrow> grows a a'"
    and step_good: "good a \<Longrightarrow> task_ok t a \<Longrightarrow> step t a = (t', a') \<Longrightarrow> good a'"
    and step_task: "good a \<Longrightarrow> task_ok t a \<Longrightarrow> step t a = (t', a') \<Longrightarrow> task_ok t' a'"
    and stable: "task_ok t a \<Longrightarrow> grows a b \<Longrightarrow> task_ok t b"
begin

lemma all_stable: "\<forall>t \<in> set ts. task_ok t a \<Longrightarrow> grows a b \<Longrightarrow> \<forall>t \<in> set ts. task_ok t b"
  using stable by blast

text \<open>One step of one of several tasks keeps what holds of all of them.\<close>

lemma one_steps:
  assumes "good a" and "\<forall>t \<in> set ts. task_ok t a" and "i < length ts" and "step (ts ! i) a = (t', a')"
  shows "good a' \<and> (\<forall>t \<in> set (ts[i := t']). task_ok t a')"
proof -
  have ok: "task_ok (ts ! i) a" using assms(2,3) by simp
  have "\<forall>t \<in> set ts. task_ok t a'"
    using all_stable [OF assms(2) step_grows [OF assms(1,4)]] .
  moreover have "task_ok t' a'" by (rule step_task [OF assms(1) ok assms(4)])
  ultimately show ?thesis
    using step_good [OF assms(1) ok assms(4)] set_update_subset_insert [of ts i t'] by blast
qed

text \<open>A task that is watched keeps what is known of it, whichever task runs.\<close>

lemma watched:
  assumes "good a" and "i < length ts" and "step (ts ! i) a = (t', a')" and "j < length ts" and "task_ok (ts ! j) a"
  shows "task_ok (ts[i := t'] ! j) a'"
proof (cases "i = j")
  case True
  then show ?thesis using step_task [OF assms(1) _ assms(3)] assms(2,5) by simp
next
  case False
  then show ?thesis using stable [OF assms(5) step_grows [OF assms(1,3)]] by simp
qed

end

subsection \<open>The registries of prime only grow\<close>

definition reading_present :: "mem_app \<Rightarrow> ReadingId \<Rightarrow> bool" where
  "reading_present a k \<longleftrightarrow> imr_get k (reading_registry a) \<noteq> Ok None"

definition status_present :: "mem_app \<Rightarrow> StatusId \<Rightarrow> bool" where
  "status_present a k \<longleftrightarrow> ims_get k (device_status_registry a) \<noteq> Ok None"

definition app_grows :: "mem_app \<Rightarrow> mem_app \<Rightarrow> bool" where
  "app_grows a b \<longleftrightarrow>
     (\<forall>d. mem_known a d \<longrightarrow> mem_known b d) \<and> (\<forall>k. reading_present a k \<longrightarrow> reading_present b k) \<and>
     (\<forall>k. status_present a k \<longrightarrow> status_present b k)"

text \<open>Every stored event belongs to a registered device.\<close>

definition app_good :: "mem_app \<Rightarrow> bool" where
  "app_good a \<longleftrightarrow> mem_app_ok a \<and>
     (\<forall>k r. imr_get k (reading_registry a) = Ok (Some r) \<longrightarrow> mem_known a (rd_device_id r)) \<and>
     (\<forall>k s. ims_get k (device_status_registry a) = Ok (Some s) \<longrightarrow> mem_known a (ds_device_id s))"

text \<open>
  What is known of an upload, given devices that were registered when it began: the events it is about
  to store belong to registered devices, no event of these devices is lost, and the counts add up.
\<close>

definition upload_known :: "DeviceId set \<Rightarrow> upload_task \<Rightarrow> mem_app \<Rightarrow> bool" where
  "upload_known K t a \<longleftrightarrow> (\<forall>d \<in> K. mem_known a d) \<and>
     (\<forall>r \<in> set (ut_valid_readings t). mem_known a (rd_device_id r)) \<and>
     (\<forall>s \<in> set (ut_valid_statuses t). mem_known a (ds_device_id s))"

definition upload_kept :: "DeviceId set \<Rightarrow> upload_task \<Rightarrow> mem_app \<Rightarrow> bool" where
  "upload_kept K t a \<longleftrightarrow>
     (\<forall>r \<in> set (bu_readings (ut_request t)). rd_device_id r \<in> K \<longrightarrow>
        r \<in> set (ut_readings_left t) \<or> r \<in> set (ut_valid_readings t) \<or> reading_present a (rd_id r)) \<and>
     (\<forall>s \<in> set (bu_statuses (ut_request t)). ds_device_id s \<in> K \<longrightarrow>
        s \<in> set (ut_statuses_left t) \<or> s \<in> set (ut_valid_statuses t) \<or> status_present a (ds_id s))"

definition upload_shape :: "upload_task \<Rightarrow> bool" where
  "upload_shape t \<longleftrightarrow>
     (ut_phase t \<noteq> Check_readings \<longrightarrow> ut_readings_left t = []) \<and>
     (ut_phase t \<in> {Store_readings, Store_statuses, Upload_done} \<longrightarrow> ut_statuses_left t = []) \<and>
     (ut_phase t \<in> {Store_statuses, Upload_done} \<longrightarrow> ut_valid_readings t = []) \<and>
     (ut_phase t = Upload_done \<longrightarrow> ut_valid_statuses t = [])"

definition upload_counts :: "upload_task \<Rightarrow> bool" where
  "upload_counts t \<longleftrightarrow>
     of_nat (length (bu_readings (ut_request t))) = ut_rejected_readings t +
       (if ut_phase t \<in> {Check_readings, Check_statuses}
        then of_nat (length (ut_readings_left t)) + of_nat (length (ut_valid_readings t)) else ut_readings_stored t) \<and>
     of_nat (length (bu_statuses (ut_request t))) = ut_rejected_statuses t +
       (if ut_phase t \<in> {Check_readings, Check_statuses}
        then of_nat (length (ut_statuses_left t)) + of_nat (length (ut_valid_statuses t)) else ut_statuses_stored t)"

definition upload_ok :: "DeviceId set \<Rightarrow> upload_task \<Rightarrow> mem_app \<Rightarrow> bool" where
  "upload_ok K t a \<longleftrightarrow> upload_known K t a \<and> upload_kept K t a \<and> upload_shape t \<and> upload_counts t"

lemma mem_known_regs [simp]:
  "mem_known (a\<lparr>reading_registry := r\<rparr>) d = mem_known a d" "mem_known (a\<lparr>device_status_registry := s\<rparr>) d = mem_known a d"
  by (simp_all add: mem_known_def)

lemma present_store [simp]:
  "reading_present (a\<lparr>reading_registry := snd (imr_store r (reading_registry a))\<rparr>) k = (k = rd_id r \<or> reading_present a k)"
  "status_present (a\<lparr>device_status_registry := snd (ims_store s (device_status_registry a))\<rparr>) j = (j = ds_id s \<or> status_present a j)"
  "reading_present (a\<lparr>device_status_registry := x\<rparr>) k = reading_present a k"
  "status_present (a\<lparr>reading_registry := y\<rparr>) j = status_present a j"
  by (simp_all add: reading_present_def status_present_def imr_get_def imr_store_def ims_get_def ims_store_def hm_simps)

lemma upload_step_cases:
  assumes "upload_step t a = (t', a')"
  obtains (readings_end) "ut_phase t = Check_readings" "ut_readings_left t = []" "t' = t\<lparr>ut_phase := Check_statuses\<rparr>" "a' = a"
    | (reading_known) r rs where "ut_phase t = Check_readings" "ut_readings_left t = r # rs" "mem_known a (rd_device_id r)"
        "t' = t\<lparr>ut_readings_left := rs, ut_valid_readings := ut_valid_readings t @ [r]\<rparr>" "a' = a"
    | (reading_unknown) r rs where "ut_phase t = Check_readings" "ut_readings_left t = r # rs" "\<not> mem_known a (rd_device_id r)"
        "t' = t\<lparr>ut_readings_left := rs, ut_rejected_readings := ut_rejected_readings t + 1\<rparr>" "a' = a"
    | (statuses_end) "ut_phase t = Check_statuses" "ut_statuses_left t = []" "a' = a"
        "t' = t\<lparr>ut_phase := Store_readings, ut_readings_stored := of_nat (length (ut_valid_readings t)),
           ut_statuses_stored := of_nat (length (ut_valid_statuses t))\<rparr>"
    | (status_known) s ss where "ut_phase t = Check_statuses" "ut_statuses_left t = s # ss" "mem_known a (ds_device_id s)"
        "t' = t\<lparr>ut_statuses_left := ss, ut_valid_statuses := ut_valid_statuses t @ [s]\<rparr>" "a' = a"
    | (status_unknown) s ss where "ut_phase t = Check_statuses" "ut_statuses_left t = s # ss" "\<not> mem_known a (ds_device_id s)"
        "t' = t\<lparr>ut_statuses_left := ss, ut_rejected_statuses := ut_rejected_statuses t + 1\<rparr>" "a' = a"
    | (store_reading) r rs where "ut_phase t = Store_readings" "ut_valid_readings t = r # rs" "t' = t\<lparr>ut_valid_readings := rs\<rparr>"
        "a' = a\<lparr>reading_registry := snd (imr_store r (reading_registry a))\<rparr>"
    | (readings_stored) "ut_phase t = Store_readings" "ut_valid_readings t = []" "t' = t\<lparr>ut_phase := Store_statuses\<rparr>" "a' = a"
    | (store_status) s ss where "ut_phase t = Store_statuses" "ut_valid_statuses t = s # ss" "t' = t\<lparr>ut_valid_statuses := ss\<rparr>"
        "a' = a\<lparr>device_status_registry := snd (ims_store s (device_status_registry a))\<rparr>"
    | (statuses_stored) "ut_phase t = Store_statuses" "ut_valid_statuses t = []" "t' = t\<lparr>ut_phase := Upload_done\<rparr>" "a' = a"
    | (finished) "ut_phase t = Upload_done" "t' = t" "a' = a"
proof (cases "ut_phase t")
  case Check_readings
  note step = assms [unfolded upload_step_def check_reading_def Check_readings upload_phase.case]
  show thesis
  proof (cases "ut_readings_left t")
    case Nil
    show thesis by (rule readings_end) (use step Check_readings Nil in auto)
  next
    case (Cons r rs)
    show thesis
    proof (cases "mem_known a (rd_device_id r)")
      case True
      show thesis by (rule reading_known) (use step Check_readings Cons True in auto)
    next
      case False
      show thesis by (rule reading_unknown) (use step Check_readings Cons False in auto)
    qed
  qed
next
  case Check_statuses
  note step = assms [unfolded upload_step_def check_status_def Check_statuses upload_phase.case]
  show thesis
  proof (cases "ut_statuses_left t")
    case Nil
    show thesis by (rule statuses_end) (use step Check_statuses Nil in \<open>auto simp: usize_as_u32_def\<close>)
  next
    case (Cons s ss)
    show thesis
    proof (cases "mem_known a (ds_device_id s)")
      case True
      show thesis by (rule status_known) (use step Check_statuses Cons True in auto)
    next
      case False
      show thesis by (rule status_unknown) (use step Check_statuses Cons False in auto)
    qed
  qed
next
  case Store_readings
  note step = assms [unfolded upload_step_def Store_readings upload_phase.case]
  show thesis
    by (cases "ut_valid_readings t"; rule readings_stored store_reading; use step Store_readings in auto)
next
  case Store_statuses
  note step = assms [unfolded upload_step_def Store_statuses upload_phase.case]
  show thesis
    by (cases "ut_valid_statuses t"; rule statuses_stored store_status; use step Store_statuses in auto)
next
  case Upload_done
  show thesis by (rule finished) (use assms Upload_done in \<open>simp_all add: upload_step_def\<close>)
qed

lemma upload_step_grows: "upload_step t a = (t', a') \<Longrightarrow> app_grows a a'"
  by (erule upload_step_cases) (simp_all add: app_grows_def)

lemma app_good_reading:
  "app_good a \<Longrightarrow> mem_known a (rd_device_id r) \<Longrightarrow> app_good (a\<lparr>reading_registry := snd (imr_store r (reading_registry a))\<rparr>)"
  using reading_registry.inv_put [of "reading_registry a" r]
  by (auto simp: app_good_def mem_app_ok_def imr_get_def imr_store_def hm_simps split: if_splits)

lemma app_good_status:
  "app_good a \<Longrightarrow> mem_known a (ds_device_id s) \<Longrightarrow>
     app_good (a\<lparr>device_status_registry := snd (ims_store s (device_status_registry a))\<rparr>)"
  using status_registry.inv_put [of "device_status_registry a" s]
  by (auto simp: app_good_def mem_app_ok_def ims_get_def ims_store_def hm_simps split: if_splits)

lemma upload_step_good:
  "app_good a \<Longrightarrow> upload_known K t a \<Longrightarrow> upload_step t a = (t', a') \<Longrightarrow> app_good a'"
  by (erule upload_step_cases) (simp_all add: upload_known_def app_good_reading app_good_status)

lemma upload_step_request: "upload_step t a = (t', a') \<Longrightarrow> ut_request t' = ut_request t"
  by (erule upload_step_cases) simp_all

lemma upload_step_known: "upload_known K t a \<Longrightarrow> upload_step t a = (t', a') \<Longrightarrow> upload_known K t' a'"
  by (erule upload_step_cases) (simp_all add: upload_known_def ball_Un)

lemma upload_step_kept:
  assumes "upload_known K t a" and "upload_kept K t a" and "upload_step t a = (t', a')"
  shows "upload_kept K t' a'"
proof -
  have K: "d \<in> K \<Longrightarrow> mem_known a d" for d using assms(1) by (simp add: upload_known_def)
  from assms(3,2) K show ?thesis
    unfolding upload_kept_def by (cases rule: upload_step_cases) auto
qed

lemma upload_step_shape: "upload_shape t \<Longrightarrow> upload_step t a = (t', a') \<Longrightarrow> upload_shape t'"
  by (erule upload_step_cases) (simp_all add: upload_shape_def)

lemma upload_step_counts:
  "upload_shape t \<Longrightarrow> upload_counts t \<Longrightarrow> upload_step t a = (t', a') \<Longrightarrow> upload_counts t'"
  by (erule upload_step_cases) (simp_all add: upload_shape_def upload_counts_def algebra_simps)

lemma upload_ok_stable: "upload_ok K t a \<Longrightarrow> app_grows a b \<Longrightarrow> upload_ok K t b"
  unfolding upload_ok_def upload_known_def upload_kept_def app_grows_def by blast

lemma upload_step_ok: "upload_ok K t a \<Longrightarrow> upload_step t a = (t', a') \<Longrightarrow> upload_ok K t' a'"
  unfolding upload_ok_def using upload_step_known upload_step_kept upload_step_shape upload_step_counts by blast

interpretation uploads: growing_tasks upload_step app_grows app_good "upload_ok K" for K
proof unfold_locales
  show "app_good a \<Longrightarrow> upload_ok K t a \<Longrightarrow> upload_step t a = (t', a') \<Longrightarrow> app_good a'" for a t t' a'
    unfolding upload_ok_def using upload_step_good by blast
qed (auto simp: app_grows_def dest: upload_step_grows intro: upload_ok_stable upload_step_ok)

lemma upload_start_ok: "\<forall>d \<in> K. mem_known a d \<Longrightarrow> upload_ok K (upload_start request) a"
  by (simp add: upload_ok_def upload_known_def upload_kept_def upload_shape_def upload_counts_def upload_start_def)

subsection \<open>Requests to the HTTP interface\<close>

lemma api_view_write [simp]: "api_write (api_view a) a = a"
  by (simp add: api_view_def api_write_def)

lemma api_write_regs [simp]:
  "reading_registry (api_write st a) = reading_registry a" "device_status_registry (api_write st a) = device_status_registry a"
  by (simp_all add: api_write_def)

text \<open>A request leaves the registries alone, registers a device, or changes the dispatchers.\<close>

lemma run_endpoint_effect:
  assumes "run_endpoint env (in_memory_dispatchers pord) (in_memory_devices dord low) in_memory_error_show now ep vs p st g =
      Some (h, st', g')"
  obtains (same) "st' = st"
    | (device) d where "st' = st\<lparr>api_devices := snd (imd_register d (api_devices st))\<rparr>"
    | (register) d where "st' = st\<lparr>api_dispatchers := snd (imp_register d (api_dispatchers st))\<rparr>"
    | (suspend) i where "st' = st\<lparr>api_dispatchers := snd (imp_suspend i (api_dispatchers st))\<rparr>"
  using assms
  by (cases ep; cases p)
    (auto simp: run_endpoint_def register_dispatcher_def suspend_dispatcher_def register_device_def Let_def split_beta
      in_memory_dispatchers_def in_memory_devices_def split: sum.splits option.splits if_splits)

lemma api_write_good:
  assumes "app_good a"
    and "run_endpoint env (in_memory_dispatchers pord) (in_memory_devices dord low) in_memory_error_show now ep vs p (api_view a) g =
      Some (h, st', g')"
  shows "app_good (api_write st' a) \<and> app_grows a (api_write st' a)"
  using assms(2)
proof (cases rule: run_endpoint_effect)
  case same
  with assms(1) show ?thesis by (simp add: app_grows_def)
next
  case (device d)
  then have "api_write st' a = a\<lparr>device_registry := snd (imd_register d (device_registry a))\<rparr>"
    by (simp add: api_write_def api_view_def)
  moreover have "mem_known (a\<lparr>device_registry := snd (imd_register d (device_registry a))\<rparr>) k = (k = dev_id d \<or> mem_known a k)" for k
    by (simp add: mem_known_def imd_register_def imd_get_def hm_simps)
  ultimately show ?thesis
    using assms(1) device_rows.inv_put [of "device_registry a" d]
    by (simp add: app_good_def app_grows_def mem_app_ok_def reading_present_def status_present_def)
qed (use assms(1) in \<open>simp_all add: app_good_def app_grows_def mem_app_ok_def reading_present_def status_present_def
    api_write_def api_view_def mem_known_def dispatcher_rows.inv_put dispatchers_ok_suspend\<close>)

lemma api_router_good:
  assumes "app_good a"
    and "api_router env (in_memory_dispatchers pord) (in_memory_devices dord low) in_memory_error_show decode now mt path p
      (api_view a) g = Some (h, st', g')"
  shows "app_good (api_write st' a) \<and> app_grows a (api_write st' a)"
proof -
  from assms(2) obtain ep vs where "run_endpoint env (in_memory_dispatchers pord) (in_memory_devices dord low)
      in_memory_error_show now ep (map decode vs) p (api_view a) g = Some (h, st', g')"
    by (auto simp: api_router_def split: option.splits)
  from api_write_good [OF assms(1) this] show ?thesis .
qed

lemma dispatchers_change:
  assumes "app_good a" and "dispatchers_ok m"
  shows "app_good (a\<lparr>dispatcher_registry := m\<rparr>) \<and> app_grows a (a\<lparr>dispatcher_registry := m\<rparr>)"
  using assms by (simp add: app_good_def app_grows_def mem_app_ok_def reading_present_def status_present_def mem_known_def)

lemma other_requests_keep:
  assumes "\<forall>request. Rpc_Frame.payload e \<noteq> MsgBatchUploadRequest request"
    and "handle_envelope (prime_handlers env a) e a = (reply, close, a')"
  shows "a' = a"
  using assms
  by (cases "Rpc_Frame.payload e")
    (auto simp: handle_envelope_def prime_handlers_def prime_on_hello_def prime_on_alert_def
      prime_on_dispatcher_status_def prime_on_device_disconnection_def Let_def)

subsection \<open>Every step\<close>

definition system_ok :: "'g prime_system \<Rightarrow> bool" where
  "system_ok s \<longleftrightarrow> app_good (sys_app s) \<and> (\<forall>t \<in> set (sys_uploads s). upload_ok {} t (sys_app s)) \<and>
     (\<forall>(i, d) \<in> set (sys_suspends s). disp_id d = i)"

lemma prime_step_grows: "prime_step env s s' \<Longrightarrow> app_good (sys_app s) \<Longrightarrow> app_grows (sys_app s) (sys_app s')"
proof (induction rule: prime_step.induct)
  case (http mt path now p s h st' g')
  from api_router_good [OF http(3,2)] show ?case by simp
next
  case (rpc e s reply close a')
  from other_requests_keep [OF rpc(1,2)] show ?case by (simp add: app_grows_def)
next
  case (upload_advances i s t' a')
  then show ?case using upload_step_grows by simp
next
  case (suspend_writes s ps i d qs)
  then show ?case by (simp add: app_grows_def reading_present_def status_present_def mem_known_def)
qed (simp_all add: app_grows_def)

lemma prime_step_ok:
  assumes "prime_step env s s'" and "system_ok s"
  shows "system_ok s'"
proof -
  have good: "app_good (sys_app s)" and tasks: "\<forall>t \<in> set (sys_uploads s). upload_ok {} t (sys_app s)"
    and suspends: "\<forall>(i, d) \<in> set (sys_suspends s). disp_id d = i"
    using assms(2) by (auto simp: system_ok_def)
  have kept: "\<forall>t \<in> set (sys_uploads s). upload_ok {} t (sys_app s')"
    by (rule uploads.all_stable [OF tasks prime_step_grows [OF assms(1) good]])
  from assms(1) show ?thesis
  proof cases
    case (http mt path now p h st' g')
    with api_router_good [OF good http(3)] kept suspends show ?thesis by (simp add: system_ok_def)
  next
    case (rpc e reply close a')
    with other_requests_keep [OF rpc(2,3)] assms(2) show ?thesis by (simp add: system_ok_def)
  next
    case (upload_begins request)
    with upload_start_ok [of "{}" "sys_app s" request] good tasks suspends show ?thesis by (auto simp: system_ok_def)
  next
    case (upload_advances i t' a')
    with uploads.one_steps [OF good tasks upload_advances(2,3)] suspends show ?thesis by (simp add: system_ok_def)
  next
    case (suspend_reads path v u d)
    have "disp_id d = DispatcherId u"
      using suspend_reads(4) good by (auto simp: app_good_def mem_app_ok_def imp_get_def rows_ok_def)
    with suspend_reads(1) good tasks suspends show ?thesis by (simp add: system_ok_def)
  next
    case (suspend_writes ps i d qs)
    let ?m = "snd (imp_update i (d\<lparr>disp_state := Dispatcher_Suspended\<rparr>) (dispatcher_registry (sys_app s)))"
    have "disp_id d = i" using suspends suspend_writes(2) by simp
    then have "dispatchers_ok ?m"
      using good by (simp add: app_good_def mem_app_ok_def imp_update_def rows_ok_insert)
    with dispatchers_change [OF good this] suspend_writes kept suspends show ?thesis by (simp add: system_ok_def)
  qed
qed

lemma prime_steps_ok: "(prime_step env)\<^sup>*\<^sup>* s s' \<Longrightarrow> system_ok s \<Longrightarrow> system_ok s'"
  by (induction rule: rtranclp_induct) (auto intro: prime_step_ok)

lemma prime_start_ok: "system_ok (prime_start g)"
  by (simp add: system_ok_def prime_start_def app_good_def mem_app_ok_def InMemoryDispatcherRegistry_new_def
      InMemoryDeviceRegistry_new_def InMemoryReadingRegistry_new_def InMemoryDeviceStatusRegistry_new_def
      imr_get_def ims_get_def)

text \<open>A watched upload: other steps leave it in its place, with its request.\<close>

lemma prime_step_watch:
  assumes "prime_step env s s'" and "system_ok s" and "j < length (sys_uploads s)"
    and "upload_ok K (sys_uploads s ! j) (sys_app s)"
  shows "j < length (sys_uploads s') \<and> upload_ok K (sys_uploads s' ! j) (sys_app s') \<and>
    ut_request (sys_uploads s' ! j) = ut_request (sys_uploads s ! j)"
proof -
  have good: "app_good (sys_app s)" using assms(2) by (simp add: system_ok_def)
  have ok: "upload_ok K (sys_uploads s ! j) (sys_app s')"
    by (rule uploads.stable [OF assms(4) prime_step_grows [OF assms(1) good]])
  from assms(1) show ?thesis
  proof cases
    case (upload_advances i t' a')
    with uploads.watched [OF good upload_advances(2,3) assms(3,4)] upload_step_request [OF upload_advances(3)] assms(3)
    show ?thesis by (cases "i = j") simp_all
  qed (use ok assms(3) in \<open>simp_all add: nth_append\<close>)
qed

lemma prime_steps_watch:
  "(prime_step env)\<^sup>*\<^sup>* s s' \<Longrightarrow> system_ok s \<Longrightarrow> j < length (sys_uploads s) \<Longrightarrow>
     upload_ok K (sys_uploads s ! j) (sys_app s) \<Longrightarrow>
     j < length (sys_uploads s') \<and> upload_ok K (sys_uploads s' ! j) (sys_app s') \<and>
     ut_request (sys_uploads s' ! j) = ut_request (sys_uploads s ! j)"
proof (induction rule: rtranclp_induct)
  case (step y z)
  then show ?case using prime_step_watch [OF step(2) prime_steps_ok [OF step(1)], of j K] by simp
qed simp

text \<open>The steps of one upload are steps of the server.\<close>

lemma upload_run_steps:
  "j < length (sys_uploads s) \<Longrightarrow> upload_run n (sys_uploads s ! j, sys_app s) = (t', a') \<Longrightarrow>
     (prime_step env)\<^sup>*\<^sup>* s (s\<lparr>sys_app := a', sys_uploads := (sys_uploads s)[j := t']\<rparr>)"
proof (induction n arbitrary: s)
  case (Suc n)
  obtain t a where step: "upload_step (sys_uploads s ! j) (sys_app s) = (t, a)" by fastforce
  let ?s = "s\<lparr>sys_app := a, sys_uploads := (sys_uploads s)[j := t]\<rparr>"
  have "prime_step env s ?s" by (rule prime_step.upload_advances [OF Suc.prems(1) step])
  moreover have "(prime_step env)\<^sup>*\<^sup>* ?s (?s\<lparr>sys_app := a', sys_uploads := (sys_uploads ?s)[j := t']\<rparr>)"
    by (rule Suc.IH) (use Suc.prems step in \<open>simp_all add: upload_run_Suc\<close>)
  ultimately show ?case by (simp add: converse_rtranclp_into_rtranclp)
qed (auto simp: upload_run_0)

subsection \<open>Properties\<close>

text \<open>
  C6.  Integrity under concurrency.  However the uploads of dispatchers and the requests to the HTTP
  interface interleave, every reading and every status in the registries of prime belongs to a
  registered device, and the tables keep their records under their own identifiers.
\<close>

theorem prime_integrity:
  assumes "(prime_step env)\<^sup>*\<^sup>* (prime_start g) s"
  shows "mem_app_ok (sys_app s) \<and>
    (\<forall>k r. imr_get k (reading_registry (sys_app s)) = Ok (Some r) \<longrightarrow> mem_known (sys_app s) (rd_device_id r)) \<and>
    (\<forall>k x. ims_get k (device_status_registry (sys_app s)) = Ok (Some x) \<longrightarrow> mem_known (sys_app s) (ds_device_id x))"
  using prime_steps_ok [OF assms prime_start_ok] by (simp add: system_ok_def app_good_def)

text \<open>
  C5.  Concurrent uploads lose nothing.  An upload begins, and whatever else prime does meanwhile, it
  can be run to its end, and when it is done every event of a device that was registered when it began
  is in the registries, and the response answers the request and counts every event once, as stored or
  as rejected.
\<close>

theorem prime_upload_complete:
  assumes "(prime_step env)\<^sup>*\<^sup>* (prime_start g) s" and "j < length (sys_uploads s)"
    and "sys_uploads s ! j = upload_start request" and "(prime_step env)\<^sup>*\<^sup>* s s'"
  shows "(\<exists>s''. (prime_step env)\<^sup>*\<^sup>* s' s'' \<and> ut_phase (sys_uploads s'' ! j) = Upload_done) \<and>
    (let t = sys_uploads s' ! j; response = upload_response t
     in ut_phase t = Upload_done \<longrightarrow>
        (\<forall>r \<in> set (bu_readings request). mem_known (sys_app s) (rd_device_id r) \<longrightarrow>
          imr_get (rd_id r) (reading_registry (sys_app s')) \<noteq> Ok None) \<and>
        (\<forall>x \<in> set (bu_statuses request). mem_known (sys_app s) (ds_device_id x) \<longrightarrow>
          ims_get (ds_id x) (device_status_registry (sys_app s')) \<noteq> Ok None) \<and>
        br_id response = bu_id request \<and>
        br_readings_stored response + br_readings_rejected response = of_nat (length (bu_readings request)) \<and>
        br_statuses_stored response + br_statuses_rejected response = of_nat (length (bu_statuses request)))"
proof -
  let ?K = "{d. mem_known (sys_app s) d}"
  have ok: "system_ok s" by (rule prime_steps_ok [OF assms(1) prime_start_ok])
  have "upload_ok ?K (sys_uploads s ! j) (sys_app s)"
    unfolding assms(3) by (rule upload_start_ok) simp
  from prime_steps_watch [OF assms(4) ok assms(2) this]
  have watch: "j < length (sys_uploads s')" "upload_ok ?K (sys_uploads s' ! j) (sys_app s')"
    "ut_request (sys_uploads s' ! j) = request"
    unfolding assms(3) by (simp_all add: upload_start_def)
  obtain n t a where "upload_run n (sys_uploads s' ! j, sys_app s') = (t, a)" "ut_phase t = Upload_done"
    using upload_terminates by blast
  from upload_run_steps [OF watch(1) this(1), of env] this(2) watch(1)
  have "\<exists>s''. (prime_step env)\<^sup>*\<^sup>* s' s'' \<and> ut_phase (sys_uploads s'' ! j) = Upload_done"
    by (intro exI conjI) (assumption, simp)
  then show ?thesis
    using watch(2,3) by (auto simp: Let_def upload_ok_def upload_kept_def upload_shape_def upload_counts_def
        upload_response_def reading_present_def status_present_def add.commute)
qed

text \<open>
  The two locks of \<open>suspend\<close>: a dispatcher that is registered again between them, say at a new location,
  has its old record written back.  No order of the two requests one after the other ends like this.
\<close>

lemma suspend_race:
  assumes "find_route api_routes POST (path_segments path) = Some (Ep_suspend_dispatcher, [v])"
    and "ulid_parse (pe_api env) (pe_decode env v) = Some u"
    and "imp_get (DispatcherId u) (dispatcher_registry (sys_app s)) = Ok (Some d)"
  shows "\<exists>s1 s2 s3. prime_step env s s1 \<and> prime_step env s1 s2 \<and> prime_step env s2 s3 \<and>
    imp_get (DispatcherId u) (dispatcher_registry (sys_app s2)) =
      Ok (Some \<lparr>disp_id = DispatcherId u, disp_location = H3Cell l, disp_state = Dispatcher_Active, disp_provisioned_at = now\<rparr>) \<and>
    imp_get (DispatcherId u) (dispatcher_registry (sys_app s3)) = Ok (Some (d\<lparr>disp_state := Dispatcher_Suspended\<rparr>))"
proof -
  let ?new = "\<lparr>disp_id = DispatcherId u, disp_location = H3Cell l, disp_state = Dispatcher_Active, disp_provisioned_at = now\<rparr>"
  let ?s1 = "s\<lparr>sys_suspends := (DispatcherId u, d) # sys_suspends s\<rparr>"
  let ?a2 = "(sys_app s)\<lparr>dispatcher_registry := snd (imp_register ?new (dispatcher_registry (sys_app s)))\<rparr>"
  let ?s2 = "?s1\<lparr>sys_app := ?a2\<rparr>"
  let ?s3 = "?s2\<lparr>sys_app := ?a2\<lparr>dispatcher_registry :=
      snd (imp_update (DispatcherId u) (d\<lparr>disp_state := Dispatcher_Suspended\<rparr>) (dispatcher_registry ?a2))\<rparr>, sys_suspends := sys_suspends s\<rparr>"
  have "prime_step env s ?s1" by (rule prime_step.suspend_reads [OF assms])
  moreover have "prime_step env ?s1 (?s1\<lparr>sys_app := api_write \<lparr>api_dispatchers = dispatcher_registry ?a2, api_devices = device_registry (sys_app s)\<rparr> (sys_app ?s1), sys_gen := sys_gen s\<rparr>)"
    by (rule prime_step.http [where mt = POST and path = "''/api/dispatchers''" and now = now
          and p = "Dispatcher_body \<lparr>rpr_id = Some u, rpr_location = l\<rparr>"
          and h = "Json CREATED (Dispatcher_json (DispatcherResponse_from (pe_api env) ?new))"])
      (simp_all add: api_router_def find_routes run_endpoint_def register_dispatcher_def unwrap_or_new_def
        in_memory_dispatchers_def imp_register_def api_view_def Let_def)
  then have "prime_step env ?s1 ?s2" by (simp add: api_write_def)
  moreover have "prime_step env ?s2 ?s3"
    using prime_step.suspend_writes [of ?s2 "[]" "DispatcherId u" d "sys_suspends s" env] by simp
  ultimately show ?thesis
    by (intro exI [of _ ?s1] exI [of _ ?s2] exI [of _ ?s3]) (simp add: imp_get_def imp_register_def imp_update_def hm_simps)
qed

subsection \<open>Witnesses\<close>

definition sample_prime :: "ulid prime_env" where
  "sample_prime =
     \<lparr>pe_api = sample_env, pe_decode = id, pe_dispatchers = forward_order, pe_devices = forward_order,
      pe_readings = forward_order, pe_statuses = forward_order, pe_lower = id\<rparr>"

definition sample_batch :: BatchUploadRequest where
  "sample_batch = \<lparr>bu_id = BatchId 3, bu_dispatcher_id = DispatcherId 7,
     bu_readings = [sample_reading 11 1, sample_reading 12 5], bu_statuses = [], bu_timestamp = 0\<rparr>"

lemma sample_device_step:
  "\<exists>s. prime_step sample_prime (prime_start 40) s \<and> mem_known (sys_app s) (DeviceId 1) \<and> sys_uploads s = []"
proof -
  let ?a = "sys_app (prime_start (40 :: ulid))"
  obtain h st' g' where router: "api_router (pe_api sample_prime) (in_memory_dispatchers (pe_dispatchers sample_prime))
      (in_memory_devices (pe_devices sample_prime) (pe_lower sample_prime)) in_memory_error_show (pe_decode sample_prime) 7
      POST ''/api/devices'' (Device_body (rdb_build (rdb_with_id 1 (RegisterDeviceBuilder_new 5)))) (api_view ?a) (sys_gen (prime_start 40)) =
      Some (h, st', g')" "mem_known (api_write st' ?a) (DeviceId 1)"
    by (simp add: api_router_def find_routes run_endpoint_def register_device_def unwrap_or_new_def rdb_build_def
        rdb_with_id_def RegisterDeviceBuilder_new_def in_memory_devices_def imd_register_def mem_known_def imd_get_def
        api_write_def hm_simps Let_def)
  have "prime_step sample_prime (prime_start 40) ((prime_start 40)\<lparr>sys_app := api_write st' ?a, sys_gen := g'\<rparr>)"
    by (rule prime_step.http [OF _ router(1)]) (simp add: find_routes)
  with router(2) show ?thesis by (intro exI conjI) (assumption, simp_all add: prime_start_def)
qed

text \<open>A device is registered, then a batch with a reading of it and one of an unknown device is uploaded.\<close>

theorem prime_upload_complete_witness:
  "\<exists>s s'. (prime_step sample_prime)\<^sup>*\<^sup>* (prime_start 40) s \<and> (prime_step sample_prime)\<^sup>*\<^sup>* s s' \<and>
     sys_uploads s ! 0 = upload_start sample_batch \<and> ut_phase (sys_uploads s' ! 0) = Upload_done \<and>
     imr_get (ReadingId 11) (reading_registry (sys_app s')) \<noteq> Ok None \<and>
     br_readings_stored (upload_response (sys_uploads s' ! 0)) + br_readings_rejected (upload_response (sys_uploads s' ! 0)) = 2"
proof -
  obtain s0 where s0: "prime_step sample_prime (prime_start 40) s0" "mem_known (sys_app s0) (DeviceId 1)" "sys_uploads s0 = []"
    using sample_device_step by blast
  let ?s = "s0\<lparr>sys_uploads := sys_uploads s0 @ [upload_start sample_batch]\<rparr>"
  have start: "(prime_step sample_prime)\<^sup>*\<^sup>* (prime_start 40) ?s"
    by (rule rtranclp.rtrancl_into_rtrancl [OF r_into_rtranclp [of "prime_step sample_prime", OF s0(1)] prime_step.upload_begins])
  have task: "0 < length (sys_uploads ?s)" "sys_uploads ?s ! 0 = upload_start sample_batch"
    by (simp_all add: s0(3))
  obtain s' where s': "(prime_step sample_prime)\<^sup>*\<^sup>* ?s s'" "ut_phase (sys_uploads s' ! 0) = Upload_done"
    using prime_upload_complete [OF start task rtranclp.rtrancl_refl] by blast
  have "sample_reading 11 1 \<in> set (bu_readings sample_batch)" "rd_device_id (sample_reading 11 1) = DeviceId 1"
    "rd_id (sample_reading 11 1) = ReadingId 11" "length (bu_readings sample_batch) = 2"
    by (simp_all add: sample_batch_def sample_reading_def)
  then show ?thesis
    using prime_upload_complete [OF start task s'(1)] s'(2) s0(2) start task(2) s'(1)
    by (intro exI [of _ ?s] exI [of _ s']) (auto simp: Let_def)
qed

theorem prime_integrity_witness:
  "\<exists>s. (prime_step sample_prime)\<^sup>*\<^sup>* (prime_start 40) s \<and> mem_known (sys_app s) (DeviceId 1) \<and> mem_app_ok (sys_app s)"
proof -
  obtain s where s: "prime_step sample_prime (prime_start 40) s" "mem_known (sys_app s) (DeviceId 1)"
    using sample_device_step by blast
  then show ?thesis using prime_integrity [OF r_into_rtranclp [of "prime_step sample_prime", OF s(1)]] by blast
qed

end
