(* ===== verification/Prime_Main.thy ===== *)
theory Prime_Main
  imports Prime_System Prime_Clickhouse Prime_Sqlite_Device Prime_Sqlite_Status Tls
begin

text \<open>
  Prime as a process (\<open>ersha-prime/src/main.rs\<close> and \<open>config.rs\<close>): the configuration, opening the
  registries it names, starting the RPC and the HTTP server, and the routes of the HTTP server, which
  are those of the API, \<open>/health\<close> and the files of the web interface.  The trait dictionaries of the SQLite
  registries are given here, and the batch handler is analysed on them.

  Binding a socket, deserializing the configuration file and connecting to ClickHouse are arguments.
\<close>

subsection \<open>Configuration\<close>

datatype RegistryConfig =
    Registry_Memory
  | Registry_Sqlite string
  | Registry_Clickhouse (ch_url: string) (ch_database: string)

record PrimeServerConfig =
  psc_rpc_addr :: string
  psc_http_addr :: string

record PrimeMainConfig =
  pmc_server :: PrimeServerConfig
  pmc_registry :: RegistryConfig
  pmc_tls :: TlsConfig

definition PrimeMainConfig_default :: PrimeMainConfig where
  "PrimeMainConfig_default =
     \<lparr>pmc_server = \<lparr>psc_rpc_addr = ''0.0.0.0:9000'', psc_http_addr = ''0.0.0.0:8080''\<rparr>,
      pmc_registry = Registry_Memory, pmc_tls = TlsConfig_server_default\<rparr>"

text \<open>The file named on the command line, if there is one: \<open>load\<close> reads and parses it.\<close>

definition config_or_default :: "'c \<Rightarrow> ('c, 'e) result option \<Rightarrow> ('c, 'e) result" where
  "config_or_default default_config load = (case load of Some r \<Rightarrow> r | None \<Rightarrow> Ok default_config)"

subsection \<open>The SQLite registries as dictionaries\<close>

definition sqlite_devices ::
    "ulid_codec \<Rightarrow> (string, device_row) hash_order \<Rightarrow> (string, sensor_row) hash_order \<Rightarrow>
     (SqliteDeviceRegistry, sqlite_error) DeviceRegistry" where
  "sqlite_devices uc dord ord =
     \<lparr>dev_register = sqd_register uc, dev_get = sqd_get uc ord, dev_update = sqd_update uc ord,
      dev_suspend = sqd_suspend uc ord, dev_add_sensor = sqd_add_sensor uc, dev_add_sensors = sqd_add_sensors uc,
      dev_batch_register = sqd_batch_register uc, dev_count = sqd_count uc, dev_list = sqd_list uc dord ord\<rparr>"

definition sqlite_readings ::
    "ulid_codec \<Rightarrow> (string, reading_row) hash_order \<Rightarrow> (SqliteReadingRegistry, sqlite_error) ReadingRegistry" where
  "sqlite_readings uc ord =
     \<lparr>read_store = sqr_store uc, read_get = sqr_get uc, read_batch_store = sqr_batch_store uc,
      read_count = sqr_count uc, read_list = sqr_list uc ord\<rparr>"

definition sqlite_statuses ::
    "ulid_codec \<Rightarrow> status_orders \<Rightarrow> (SqliteDeviceStatusRegistry, sqlite_error) DeviceStatusRegistry" where
  "sqlite_statuses uc ord =
     \<lparr>stat_store = sqs_store uc, stat_get = sqs_get uc ord, stat_get_latest = sqs_get_latest uc ord,
      stat_batch_store = sqs_batch_store uc, stat_count = sqs_count uc, stat_list = sqs_list uc ord\<rparr>"

type_synonym sqlite_app =
  "(SqliteDispatcherRegistry, SqliteDeviceRegistry, SqliteReadingRegistry, SqliteDeviceStatusRegistry) AppState"

type_synonym ('db, 'ce) ch_app =
  "(('db, 'ce) ch_registry, ('db, 'ce) ch_registry, ('db, 'ce) ch_registry, ('db, 'ce) ch_registry) AppState"

subsection \<open>Startup\<close>

datatype ('be, 'te, 're) startup_error = Bind_failed 'be | Tls_failed 'te | Registry_failed 're

text \<open>
  The servers that run: the RPC server with its TLS settings, and the registries that the HTTP server
  has clones of.
\<close>

record ('p, 'd, 'r, 's, 'cert, 'key) prime_servers =
  run_rpc :: "('p, 'd, 'r, 's) AppState Server"
  run_tls :: "('cert, 'key) tls_built"
  run_api :: "('p, 'd) ApiState"

definition run_server ::
    "(string \<Rightarrow> (unit, 'be) result) \<Rightarrow> ('file, 'io, 'cert, 'key, 'te) tls_env \<Rightarrow>
     ('p, 'e1) DispatcherRegistry \<Rightarrow> ('d, 'e2) DeviceRegistry \<Rightarrow> ('r, 'e3) ReadingRegistry \<Rightarrow>
     ('s, 'e4) DeviceStatusRegistry \<Rightarrow> ('p, 'd, 'r, 's) AppState \<Rightarrow> PrimeServerConfig \<Rightarrow> TlsConfig \<Rightarrow>
     (('p, 'd, 'r, 's, 'cert, 'key) prime_servers, ('be, ('io, 'te) TlsError, 're) startup_error) result" where
  "run_server bind tenv pr dr rr sr app addrs tls =
     (let api = \<lparr>api_dispatchers = dispatcher_registry app, api_devices = device_registry app\<rparr>
      in case bind (psc_rpc_addr addrs) of
           Inl e \<Rightarrow> Err (Bind_failed e)
         | Inr _ \<Rightarrow>
             (case server_config tenv tls of
                Inl e \<Rightarrow> Err (Tls_failed e)
              | Inr built \<Rightarrow>
                  (case bind (psc_http_addr addrs) of
                     Inl e \<Rightarrow> Err (Bind_failed e)
                   | Inr _ \<Rightarrow> Ok \<lparr>run_rpc = prime_server pr dr rr sr app, run_tls = built, run_api = api\<rparr>)))"

text \<open>The registries, opened in the order of the code; \<open>db\<close> is what the database holds.\<close>

definition open_memory :: mem_app where
  "open_memory =
     \<lparr>dispatcher_registry = InMemoryDispatcherRegistry_new, device_registry = InMemoryDeviceRegistry_new,
      reading_registry = InMemoryReadingRegistry_new, device_status_registry = InMemoryDeviceStatusRegistry_new\<rparr>"

definition open_sqlite :: "sqlite_app \<Rightarrow> (sqlite_app, sqlite_error) result" where
  "open_sqlite db =
     and_then (SqliteDispatcherRegistry_new (dispatcher_registry db)) (\<lambda>p.
     and_then (SqliteDeviceRegistry_new (device_registry db)) (\<lambda>d.
     and_then (SqliteReadingRegistry_new (reading_registry db)) (\<lambda>r.
     and_then (SqliteDeviceStatusRegistry_new (device_status_registry db)) (\<lambda>s.
       Ok \<lparr>dispatcher_registry = p, device_registry = d, reading_registry = r, device_status_registry = s\<rparr>))))"

definition open_clickhouse ::
    "(string \<Rightarrow> string \<Rightarrow> ('db, 'ce) Ch_Client) \<Rightarrow> (nat \<Rightarrow> timestamp) \<Rightarrow> string \<Rightarrow> string \<Rightarrow> 'db \<Rightarrow>
     (('db, 'ce) ch_app, 'ce ClickHouseError) result" where
  "open_clickhouse connect clock url database db =
     and_then (ClickHouseDispatcherRegistry_new connect clock url database db) (\<lambda>p.
     and_then (ClickHouseDeviceRegistry_new connect clock url database (ch_db p)) (\<lambda>d.
     and_then (ClickHouseReadingRegistry_new connect clock url database (ch_db d)) (\<lambda>r.
     and_then (ClickHouseDeviceStatusRegistry_new connect clock url database (ch_db r)) (\<lambda>s.
       Ok \<lparr>dispatcher_registry = p, device_registry = d, reading_registry = r, device_status_registry = s\<rparr>))))"

text \<open>
  \<open>main\<close> after the configuration is there: the registries of the configuration, then the servers on
  them.  \<open>sqlite_db\<close> is what a SQLite file holds, \<open>ch_db0\<close> the ClickHouse server.
\<close>

record ('db, 'ce) prime_backends =
  pb_codec :: ulid_codec
  pb_sqlite :: "string \<Rightarrow> sqlite_app"
  pb_connect :: "string \<Rightarrow> string \<Rightarrow> ('db, 'ce) Ch_Client"
  pb_clock :: "nat \<Rightarrow> timestamp"
  pb_server :: 'db
  pb_dispatcher_order :: "(string, dispatcher_row) hash_order"
  pb_device_order :: "(string, device_row) hash_order"
  pb_sensor_order :: "(string, sensor_row) hash_order"
  pb_reading_order :: "(string, reading_row) hash_order"
  pb_status_orders :: status_orders

datatype ('db, 'ce, 'cert, 'key) prime_process =
    Process_memory "(InMemoryDispatcherRegistry, InMemoryDeviceRegistry, InMemoryReadingRegistry,
      InMemoryDeviceStatusRegistry, 'cert, 'key) prime_servers"
  | Process_sqlite "(SqliteDispatcherRegistry, SqliteDeviceRegistry, SqliteReadingRegistry,
      SqliteDeviceStatusRegistry, 'cert, 'key) prime_servers"
  | Process_clickhouse "(('db, 'ce) ch_registry, ('db, 'ce) ch_registry, ('db, 'ce) ch_registry,
      ('db, 'ce) ch_registry, 'cert, 'key) prime_servers"

datatype 'ce registry_error = Sqlite_error sqlite_error | Clickhouse_error "'ce ClickHouseError"

definition prime_main ::
    "(string \<Rightarrow> (unit, 'be) result) \<Rightarrow> ('file, 'io, 'cert, 'key, 'te) tls_env \<Rightarrow> 'g prime_env \<Rightarrow> ('db, 'ce) prime_backends \<Rightarrow>
     PrimeMainConfig \<Rightarrow>
     (('db, 'ce, 'cert, 'key) prime_process, ('be, ('io, 'te) TlsError, 'ce registry_error) startup_error) result" where
  "prime_main bind tenv env pb config =
     (case pmc_registry config of
        Registry_Memory \<Rightarrow>
          map_sum id Process_memory
            (run_server bind tenv (in_memory_dispatchers (pe_dispatchers env)) (in_memory_devices (pe_devices env) (pe_lower env))
              (in_memory_readings (pe_readings env)) (in_memory_statuses (pe_statuses env)) open_memory
              (pmc_server config) (pmc_tls config))
      | Registry_Sqlite path \<Rightarrow>
          (case open_sqlite (pb_sqlite pb path) of
             Inl e \<Rightarrow> Err (Registry_failed (Sqlite_error e))
           | Inr app \<Rightarrow>
               map_sum id Process_sqlite
                 (run_server bind tenv (sqlite_dispatchers (pb_codec pb) (pb_dispatcher_order pb))
                   (sqlite_devices (pb_codec pb) (pb_device_order pb) (pb_sensor_order pb))
                   (sqlite_readings (pb_codec pb) (pb_reading_order pb))
                   (sqlite_statuses (pb_codec pb) (pb_status_orders pb)) app (pmc_server config) (pmc_tls config)))
      | Registry_Clickhouse url database \<Rightarrow>
          (case open_clickhouse (pb_connect pb) (pb_clock pb) url database (pb_server pb) of
             Inl e \<Rightarrow> Err (Registry_failed (Clickhouse_error e))
           | Inr app \<Rightarrow>
               map_sum id Process_clickhouse
                 (run_server bind tenv (clickhouse_dispatchers (pb_codec pb)) (clickhouse_devices (pb_codec pb))
                   (clickhouse_readings (pb_codec pb)) (clickhouse_statuses (pb_codec pb)) app
                   (pmc_server config) (pmc_tls config))))"

subsection \<open>The routes of the HTTP server\<close>

datatype web_response =
    Web_api "api_body http"
  | Web_rejected
  | Web_health string
  | Web_method_not_allowed
  | Web_static static_response

definition health_handler :: string where
  "health_handler = ''OK''"

text \<open>A path of the API or \<open>/health\<close> with another method is refused; any other path is the fallback's.\<close>

definition api_path :: "string \<Rightarrow> bool" where
  "api_path path \<longleftrightarrow> (\<exists>r \<in> set api_routes. route_match (fst r) (path_segments path) \<noteq> None)"

definition web_router ::
    "'g api_env \<Rightarrow> ('p, 'e1) DispatcherRegistry \<Rightarrow> ('d, 'e2) DeviceRegistry \<Rightarrow> ('e1 \<Rightarrow> string) \<Rightarrow> (string \<Rightarrow> string) \<Rightarrow>
     (string \<Rightarrow> bytes option) \<Rightarrow> (string \<Rightarrow> string) \<Rightarrow> timestamp \<Rightarrow> http_method \<Rightarrow> string \<Rightarrow> payload \<Rightarrow>
     ('p, 'd) ApiState \<Rightarrow> 'g \<Rightarrow> web_response \<times> ('p, 'd) ApiState \<times> 'g" where
  "web_router env pr dr err_show decode assets mime now mt path p st g =
     (if path = ''/health'' then ((if mt = GET then Web_health health_handler else Web_method_not_allowed), st, g)
      else if api_path path then
        (case find_route api_routes mt (path_segments path) of
           None \<Rightarrow> (Web_method_not_allowed, st, g)
         | Some (ep, vs) \<Rightarrow>
             (case run_endpoint env pr dr err_show now ep (map decode vs) p st g of
                None \<Rightarrow> (Web_rejected, st, g)
              | Some (h, st', g') \<Rightarrow> (Web_api h, st', g')))
      else (Web_static (static_handler assets mime path), st, g))"

lemma find_route_Some: "find_route rs mt segs = Some (ep, vs) \<Longrightarrow> \<exists>r \<in> set rs. route_match (fst r) segs = Some vs \<and> fst (snd r) = mt"
  by (induction rs mt segs rule: find_route.induct) (auto split: option.splits if_splits)

text \<open>
  The HTTP server answers like the router of the API wherever that has an answer, and never changes a
  registry otherwise.
\<close>

lemma web_router_api:
  assumes "api_router env pr dr err_show decode now mt path p st g = Some (h, st', g')"
  shows "web_router env pr dr err_show decode assets mime now mt path p st g = (Web_api h, st', g')"
proof -
  obtain ep vs where route: "find_route api_routes mt (path_segments path) = Some (ep, vs)"
      "run_endpoint env pr dr err_show now ep (map decode vs) p st g = Some (h, st', g')"
    using assms by (auto simp: api_router_def split: option.splits)
  have "api_path path"
    using find_route_Some [OF route(1)] by (auto simp: api_path_def)
  moreover have "\<not> api_path ''/health''"
    by (simp add: api_path_def api_routes_def)
  ultimately show ?thesis using route by (auto simp: web_router_def)
qed

lemma web_router_other:
  assumes "api_router env pr dr err_show decode now mt path p st g = None"
  shows "snd (web_router env pr dr err_show decode assets mime now mt path p st g) = (st, g)"
  using assms by (auto simp: web_router_def api_router_def split: option.splits prod.splits)

text \<open>
  A request for a path that no route has is answered with the page of the web interface and success,
  whatever its method: a client that misspells a path of the API is not told so.
\<close>

lemma web_router_unknown_path:
  assumes "\<not> api_path path" and "path \<noteq> ''/health''" and "assets (trim_slashes path) = None"
    and "assets ''index.html'' = Some page"
  shows "web_router env pr dr err_show decode assets mime now mt path p st g = (Web_static (Static_ok ''text/html'' page), st, g)"
  using assms by (simp add: web_router_def static_handler_def Let_def)

subsection \<open>Starting\<close>

lemma run_server_Ok:
  "run_server bind tenv pr dr rr sr app addrs tls = Ok s \<longleftrightarrow>
     bind (psc_rpc_addr addrs) = Ok () \<and> bind (psc_http_addr addrs) = Ok () \<and> server_config tenv tls = Ok (run_tls s) \<and>
     run_rpc s = prime_server pr dr rr sr app \<and>
     run_api s = \<lparr>api_dispatchers = dispatcher_registry app, api_devices = device_registry app\<rparr>"
  by (auto simp: run_server_def Let_def split: sum.splits)

text \<open>Opening a SQLite database finds what was stored in it.\<close>

lemma open_sqlite_keeps: "open_sqlite db = Ok app \<Longrightarrow> app = db"
  by (auto simp: open_sqlite_def and_then_def SqliteDispatcherRegistry_new_def SqliteDeviceRegistry_new_def
      SqliteReadingRegistry_new_def SqliteDeviceStatusRegistry_new_def split: sum.splits if_splits)

subsection \<open>Uploads on SQLite\<close>

text \<open>A batch of statuses is a sequence of transactions: a failure keeps the statuses before it.\<close>

lemma sqs_batch_at_prefix:
  "sqs_batch_at uc n sts m = (r, m') \<Longrightarrow>
     \<exists>j \<le> length sts. sqs_batch_at uc n (take j sts) m = (Ok (), m') \<and> (r = Ok () \<longrightarrow> j = length sts)"
proof (induction sts arbitrary: n m)
  case (Cons st sts)
  obtain res m1 where store: "sqs_store_at uc n st m = (res, m1)" by fastforce
  show ?case
  proof (cases res)
    case (Inl e)
    have "m1 = m"
      using store Inl transaction_Err [of SE_Sqlx "\<lambda>j. sqs_io m (n + j)" "store_stmts st - 1" "store_body uc n st" m e]
      by (simp add: sqs_store_at_def)
    with Cons.prems store Inl show ?thesis by (intro exI [of _ 0]) (auto simp: then_do_def)
  next
    case (Inr u)
    then have "sqs_batch_at uc (n + store_stmts st) sts m1 = (r, m')"
      using Cons.prems store by (simp add: then_do_def)
    from Cons.IH [OF this] obtain j where "j \<le> length sts"
        "sqs_batch_at uc (n + store_stmts st) (take j sts) m1 = (Ok (), m')" "r = Ok () \<longrightarrow> j = length sts"
      by blast
    with store Inr show ?thesis by (intro exI [of _ "Suc j"]) (simp add: then_do_def)
  qed
qed simp

abbreviation sqlite_on_batch_upload where
  "sqlite_on_batch_upload uc dord ord rord sord \<equiv>
     prime_on_batch_upload (sqlite_devices uc dord ord) (sqlite_readings uc rord) (sqlite_statuses uc sord)"


definition sample_sqlite_app :: sqlite_app where
  "sample_sqlite_app =
     \<lparr>dispatcher_registry = empty_sqlite_dispatchers,
      device_registry = empty_sqlite_devices\<lparr>sqd_devices :=
        [(uc_show sample_ulid_codec 1, device_to_row sample_ulid_codec (sample_device 1 ''a''\<lparr>dev_sensors := []\<rparr>))]\<rparr>,
      reading_registry = sample_sqlite_readings, device_status_registry = empty_sqlite_statuses\<rparr>"


end
