(* ===== verification/Spec2Isabelle.thy ===== *)
theory Spec2Isabelle
  imports Delivery Dispatch_Sqlite Dispatch_Mock Dispatch_Start Harness Prime_Clickhouse Prime_Main
begin

text \<open>
  \<^bold>\<open>ErshaOS.\<close>  Sensors in the field report to \<^emph>\<open>edge\<close> devices (\<open>ersha-edge\<close>), which send packets over TCP to a
  \<^emph>\<open>dispatcher\<close> (\<open>ersha-dispatch\<close>).  A dispatcher keeps readings and statuses in a local store and uploads
  them in batches, over the RPC protocol of \<open>ersha-rpc\<close> inside TLS (\<open>ersha-tls\<close>), to \<^emph>\<open>prime\<close> (\<open>ersha-prime\<close>), which
  checks the sender and the devices against its registries and stores the batch.  Prime also has an HTTP
  interface for administration, with a client library.  A test tool (\<open>ersha-dispatchers-harness\<close>) starts many
  dispatchers with mock devices.  All paths below are under \<open>src/\<close>.

  \<^bold>\<open>Conventions.\<close>  A struct is a record and an enum a datatype, with the names of the source; fields carry a
  prefix.  Machine integers are words; sizes (\<open>usize\<close>) are natural numbers.  A \<open>Result\<close> is a sum whose left side is the
  error.  A panic is \<open>None\<close> or a constructor of its own.  Hash maps are association lists with an invariant, and
  the order in which they are iterated is an argument (\<open>hash_order\<close>), so theorems hold for every order.  Traits are
  records of functions (dictionaries).  Libraries outside the repository (ULIDs, JSON, \<open>postcard\<close>, SQLite
  errors, the ClickHouse server, \<open>rustls\<close>, \<open>h3o\<close>, random numbers, clocks, sockets) are arguments, and theorems that
  rely on them say how in a hypothesis that a witness satisfies.

  \<^bold>\<open>Theories\<close>, with the files they model:
  \<^item> Foundations: \<open>Ersha_Prelude\<close> (results, byte strings, hash maps, orders), \<open>F64\<close> (binary64 with correct rounding),
    \<open>Rust_Text\<close> (\<open>format!\<close>), \<open>Core_Types\<close> (\<open>ersha-core/src/lib.rs\<close>), \<open>Fixtures\<close> (values for witnesses).
  \<^item> RPC (\<open>ersha-rpc/src\<close>): \<open>Rpc_Frame\<close> (\<open>frame.rs\<close>, messages), \<open>Rpc_Conn\<close> (\<open>rpc.rs\<close>: reader and writer tasks, pending calls,
    timeouts, as a step relation), \<open>Rpc_Client\<close>, \<open>Rpc_Server\<close>.
  \<^item> Edge: \<open>Edge\<close> (\<open>ersha-edge/src\<close>: calibration, sensor tasks, engine, transport).
  \<^item> Dispatcher (\<open>ersha-dispatch/src\<close>): \<open>Dispatch_State\<close> (\<open>state.rs\<close>), \<open>Dispatch_Storage\<close>, \<open>Dispatch_Memory\<close>, \<open>Dispatch_Sqlite\<close>
    (\<open>storage/\<close>), \<open>Dispatch_Edge_Tcp\<close> (\<open>edge/tcp.rs\<close>), \<open>Dispatch_Main\<close> (collector and uploader of \<open>main.rs\<close>), \<open>Dispatch_Mock\<close>
    (\<open>edge/mock.rs\<close>, \<open>config.rs\<close>, registration of mock devices), \<open>Dispatch_Start\<close> (start and shutdown of \<open>main.rs\<close>).
  \<^item> Prime (\<open>ersha-prime/src\<close>): \<open>Prime_Filter\<close>, \<open>Prime_Registry\<close> (\<open>registry/\<close>), \<open>Prime_Memory_*\<close>, \<open>Prime_Sql\<close> with \<open>Sql\<close> and
    \<open>Prime_Sqlite_*\<close>, \<open>Prime_Ch\<close> with \<open>Prime_Ch_*\<close> and \<open>Prime_Clickhouse\<close> (the three back ends), \<open>Prime_Handlers\<close> (the RPC handlers
    of \<open>main.rs\<close>), \<open>Prime_Api\<close> and \<open>Prime_Client\<close> (\<open>api/\<close>, \<open>client.rs\<close>), \<open>Prime_System\<close> (prime as concurrent tasks), \<open>Prime_Main\<close>
    (\<open>config.rs\<close>, start and routes of \<open>main.rs\<close>), \<open>Tls\<close> (\<open>ersha-tls/src/lib.rs\<close>).
  \<^item> \<open>Delivery\<close> composes edge, dispatcher and prime; \<open>Harness\<close> models \<open>ersha-dispatchers-harness/src/main.rs\<close>.

  \<^bold>\<open>Interfaces.\<close>  Locales state what a client may rely on: \<open>event_store\<close> and \<open>dispatch_store\<close> in \<open>Dispatch_Storage\<close> (both
  stores are interpretations), \<open>keyed_registry\<close> and \<open>paged_listing\<close> (the registries of prime), \<open>typed_call\<close> in \<open>Rpc_Client\<close>, \<open>growing_tasks\<close> in
  \<open>Prime_System\<close> (tasks on shared registries, by rely and guarantee).

  \<^bold>\<open>What is shown.\<close>
  \<^item> RPC: frames survive the round trip; a call returns only with the reply to its own message; frames are
    delivered exactly once; the pending table holds exactly the calls in progress; a reply wakes its caller; client
    and server agree on every request, and replies come in order.
  \<^item> Dispatcher: both stores refine a set of pending events, SQLite failures leave the database unchanged, a
    confirmed upload marks exactly the uploaded batch, the collector stores everything it receives, the byte stream
    of an edge device is reassembled however it is cut, events are reported exactly once.
  \<^item> Edge: calibration is exact apart from a wrap-around that is stated; the uplink keeps the order; sending
    over a socket terminates.
  \<^item> Prime: the handlers accept exactly registered, active dispatchers and store exactly the events of known
    devices; under any interleaving of uploads and HTTP requests stored events belong to registered devices, and
    no event of a known device is lost; the three back ends agree or differ as stated; queries, pages and
    counts of the registries; the HTTP client round trip; the web routes do not hide the API; what an upload leaves in SQLite when a
    statement fails.
  \<^item> TLS: both sides trust exactly the certificates of the root file.  Harness: the grid of locations is large enough.
  \<^item> End to end: packets sent by an edge device end up pending in the dispatcher, pending events end up in prime,
    and mock devices are registered so that prime stores what they send.

  \<^bold>\<open>Bounds and fuel.\<close>  Loops are structural or have termination proofs.  The retry loop of \<open>nearby_loop\<close> is bounded by the
  code itself; \<open>send_reading\<close> terminates because a socket takes at least one byte; \<open>upload_run\<close> counts steps and
  \<open>upload_terminates\<close> shows that some number is enough.  Endless tasks (collector, uploader, engine, generators)
  are functions of the list of events they see, or step relations.

  \<^bold>\<open>Not modelled.\<close>  Reading configuration files (\<open>serde\<close>, \<open>toml\<close>), command lines and logging are input and output around
  libraries.  The example programs, the firmware assets, the Elm and TypeScript web interface and the Grafana
  deployment are not part of the Rust services.  The text of SQL statements sent to SQLite is modelled by the
  tables it acts on, not parsed.  \<open>sensor_registry.rs\<close> is empty and module files only re-export.  Unit tests inside
  the source files are not modelled.
\<close>

end
